(* ===== verification/DB_Prelude.thy ===== *)
theory DB_Prelude
  imports "HOL-Library.Word" "HOL-Library.Monad_Syntax" "HOL-Library.Sublist"
begin

text \<open>
  What every component of the model shares: Rust's integer types as words, its panics as
  \<^term>\<open>None\<close> of the option monad, the two build profiles with their treatment of integer
  overflow, big-endian byte encodings, UTF-8 validity, and lemmas on lists.
\<close>

unbundle bit_operations_syntax

named_theorems rust_arith \<open>when the checked operations return, and what\<close>
named_theorems byte_simps \<open>lengths and round trips of byte encodings\<close>

section \<open>Integer types\<close>

type_synonym u8 = "8 word"
type_synonym u16 = "16 word"
type_synonym u32 = "32 word"
type_synonym u64 = "64 word"
type_synonym u128 = "128 word"
type_synonym i128 = "128 word"
type_synonym bytes = "u8 list"

text \<open>
  \<^verbatim>\<open>usize\<close> counts and windows are \<^typ>\<open>nat\<close>: the code only compares them, adds lengths of
  collections it holds, and passes them to \<^verbatim>\<open>take\<close> and \<^verbatim>\<open>skip\<close>. A \<^verbatim>\<open>String\<close> is its UTF-8 bytes,
  and \<^typ>\<open>i128\<close> is read by \<^const>\<open>sint\<close>, \<^typ>\<open>u128\<close> by \<^const>\<open>unat\<close>.
\<close>

section \<open>Panics and build profiles\<close>

text \<open>
  A computation that may panic is an option, \<^term>\<open>None\<close> the panic. Cargo's default profiles
  check integer overflow (and \<^verbatim>\<open>debug_assert!\<close>) in a debug build only; a release build wraps.
  \<^verbatim>\<open>Iterator::sum\<close> inherits the check of the crate that calls it.
\<close>

datatype profile = Debug | Release

abbreviation panic :: "'a option" where "panic \<equiv> None"

definition assert_that :: "bool \<Rightarrow> unit option" where
  "assert_that b = (if b then Some () else panic)"

definition debug_assert :: "profile \<Rightarrow> bool \<Rightarrow> unit option" where
  "debug_assert pf b = (if pf = Debug \<and> \<not> b then panic else Some ())"

definition s_add :: "profile \<Rightarrow> 'a::len word \<Rightarrow> 'a word \<Rightarrow> 'a word option" where
  "s_add pf a b = (if pf = Debug \<and> sint (a + b) \<noteq> sint a + sint b then panic else Some (a + b))"

definition s_sub :: "profile \<Rightarrow> 'a::len word \<Rightarrow> 'a word \<Rightarrow> 'a word option" where
  "s_sub pf a b = (if pf = Debug \<and> sint (a - b) \<noteq> sint a - sint b then panic else Some (a - b))"

definition u_add :: "profile \<Rightarrow> 'a::len word \<Rightarrow> 'a word \<Rightarrow> 'a word option" where
  "u_add pf a b = (if pf = Debug \<and> unat (a + b) \<noteq> unat a + unat b then panic else Some (a + b))"

definition u_mul :: "profile \<Rightarrow> 'a::len word \<Rightarrow> 'a word \<Rightarrow> 'a word option" where
  "u_mul pf a b = (if pf = Debug \<and> unat (a * b) \<noteq> unat a * unat b then panic else Some (a * b))"

text \<open>\<^verbatim>\<open>map\<close> with a function that may panic, and \<^verbatim>\<open>sum\<close> from the left.\<close>

primrec map_run :: "('a \<Rightarrow> 'b option) \<Rightarrow> 'a list \<Rightarrow> 'b list option" where
  "map_run f [] = Some []"
| "map_run f (x # xs) = do { y \<leftarrow> f x; ys \<leftarrow> map_run f xs; Some (y # ys) }"

primrec fold_run :: "('b \<Rightarrow> 'a \<Rightarrow> 'b option) \<Rightarrow> 'b \<Rightarrow> 'a list \<Rightarrow> 'b option" where
  "fold_run f acc [] = Some acc"
| "fold_run f acc (x # xs) = do { acc' \<leftarrow> f acc x; fold_run f acc' xs }"

definition s_sum :: "profile \<Rightarrow> 'a::len word list \<Rightarrow> 'a word option" where
  "s_sum pf xs = fold_run (s_add pf) 0 xs"

definition u_sum :: "profile \<Rightarrow> 'a::len word list \<Rightarrow> 'a word option" where
  "u_sum pf xs = fold_run (u_add pf) 0 xs"

lemma assert_that_simps [simp]:
  "assert_that True = Some ()" "assert_that False = panic"
  "assert_that b = Some u \<longleftrightarrow> b" "assert_that b = None \<longleftrightarrow> \<not> b"
  by (auto simp: assert_that_def)

lemma debug_assert_simps [simp]:
  "debug_assert Release b = Some ()" "debug_assert pf True = Some ()"
  "debug_assert pf b = None \<longleftrightarrow> pf = Debug \<and> \<not> b"
  by (auto simp: debug_assert_def)

lemma release_never_panics [rust_arith]:
  "s_add Release a b = Some (a + b)" "s_sub Release a b = Some (a - b)"
  "u_add Release x y = Some (x + y)" "u_mul Release x y = Some (x * y)"
  by (simp_all add: s_add_def s_sub_def u_add_def u_mul_def)

text \<open>In the range of the type, both profiles return the exact result.\<close>

definition in_srange :: "'a::len itself \<Rightarrow> int \<Rightarrow> bool" where
  "in_srange TYPE('a) k \<longleftrightarrow> - (2 ^ (LENGTH('a) - 1)) \<le> k \<and> k < 2 ^ (LENGTH('a) - 1)"

lemma sint_of_srange:
  assumes "in_srange TYPE('a::len) k"
  shows "sint (word_of_int k :: 'a word) = k"
  using assms by (simp add: in_srange_def signed_of_int signed_take_bit_int_eq_self)

lemma in_srange_sint [simp]: "in_srange TYPE('a) (sint (a :: 'a::len word))"
  using sint_greater_eq [of a] sint_less [of a] by (simp add: in_srange_def)

lemma sint_nonneg_half:
  assumes "unat (x :: 'a::len word) < 2 ^ (LENGTH('a) - 1)"
  shows "sint x = int (unat x)"
proof -
  have "in_srange TYPE('a) (int n)" if "n < 2 ^ (LENGTH('a) - 1)" for n
  proof -
    have "int n < 2 ^ (LENGTH('a) - 1)" using that by (metis of_nat_less_iff of_nat_numeral of_nat_power)
    moreover have "- (2 ^ (LENGTH('a) - 1)) \<le> (0::int)" "0 \<le> int n" by simp_all
    ultimately show ?thesis unfolding in_srange_def by linarith
  qed
  then have "sint (word_of_int (int (unat x)) :: 'a word) = int (unat x)"
    using assms by (intro sint_of_srange)
  then show ?thesis by simp
qed

lemma s_add_exact [rust_arith]:
  fixes a b :: "'a::len word"
  assumes "in_srange TYPE('a) (sint a + sint b)"
  shows "s_add pf a b = Some (a + b)" "sint (a + b) = sint a + sint b"
proof -
  have "a + b = word_of_int (sint a + sint b)" by simp
  then show "sint (a + b) = sint a + sint b" using sint_of_srange [OF assms] by simp
  then show "s_add pf a b = Some (a + b)" by (simp add: s_add_def)
qed

lemma s_sub_exact [rust_arith]:
  fixes a b :: "'a::len word"
  assumes "in_srange TYPE('a) (sint a - sint b)"
  shows "s_sub pf a b = Some (a - b)" "sint (a - b) = sint a - sint b"
proof -
  have "a - b = word_of_int (sint a - sint b)" by simp
  then show "sint (a - b) = sint a - sint b" using sint_of_srange [OF assms] by simp
  then show "s_sub pf a b = Some (a - b)" by (simp add: s_sub_def)
qed

lemma s_add_Debug:
  "s_add Debug a b = (if in_srange TYPE('a) (sint a + sint b) then Some (a + b) else panic)"
  for a b :: "'a::len word"
proof (cases "in_srange TYPE('a) (sint a + sint b)")
  case True
  then show ?thesis using s_add_exact(1) [of a b Debug] by simp
next
  case False
  then have "sint (a + b) \<noteq> sint a + sint b" by (metis in_srange_sint)
  with False show ?thesis by (simp add: s_add_def)
qed

lemma s_sub_Debug:
  "s_sub Debug a b = (if in_srange TYPE('a) (sint a - sint b) then Some (a - b) else panic)"
  for a b :: "'a::len word"
proof (cases "in_srange TYPE('a) (sint a - sint b)")
  case True
  then show ?thesis using s_sub_exact(1) [of a b Debug] by simp
next
  case False
  then have "sint (a - b) \<noteq> sint a - sint b" by (metis in_srange_sint)
  with False show ?thesis by (simp add: s_sub_def)
qed

lemma u_add_exact [rust_arith]:
  fixes a b :: "'a::len word"
  assumes "unat a + unat b < 2 ^ LENGTH('a)"
  shows "u_add pf a b = Some (a + b)" "unat (a + b) = unat a + unat b"
  using assms by (simp_all add: u_add_def unat_add_lem [symmetric])

lemma u_mul_exact [rust_arith]:
  fixes a b :: "'a::len word"
  assumes "unat a * unat b < 2 ^ LENGTH('a)"
  shows "u_mul pf a b = Some (a * b)" "unat (a * b) = unat a * unat b"
  using assms by (simp_all add: u_mul_def unat_mult_lem [symmetric])

lemma fold_u_add_exact:
  fixes xs :: "'a::len word list"
  assumes "unat acc + sum_list (map unat xs) < 2 ^ LENGTH('a)"
  shows "fold_run (u_add pf) acc xs = Some (acc + sum_list xs)
     \<and> unat (acc + sum_list xs) = unat acc + sum_list (map unat xs)"
  using assms
proof (induction xs arbitrary: acc)
  case (Cons x xs)
  then have "u_add pf acc x = Some (acc + x)" "unat (acc + x) = unat acc + unat x"
    using u_add_exact [of acc x] by auto
  then show ?case using Cons.IH [of "acc + x"] Cons.prems by (simp add: add.assoc)
qed simp

lemma u_sum_exact [rust_arith]:
  fixes xs :: "'a::len word list"
  assumes "sum_list (map unat xs) < 2 ^ LENGTH('a)"
  shows "u_sum pf xs = Some (sum_list xs)" "unat (sum_list xs) = sum_list (map unat xs)"
  using fold_u_add_exact [of 0 xs pf] assms by (simp_all add: u_sum_def)

text \<open>A signed sum stays exact when the magnitudes add up to less than half the range.\<close>

lemma fold_s_add_exact:
  fixes xs :: "'a::len word list"
  assumes "\<bar>sint acc\<bar> + (\<Sum>x\<leftarrow>xs. \<bar>sint x\<bar>) < 2 ^ (LENGTH('a) - 1)"
  shows "fold_run (s_add pf) acc xs = Some (acc + sum_list xs)
     \<and> sint (acc + sum_list xs) = sint acc + (\<Sum>x\<leftarrow>xs. sint x)"
  using assms
proof (induction xs arbitrary: acc)
  case (Cons x xs)
  have nn: "0 \<le> (\<Sum>x\<leftarrow>xs. \<bar>sint x\<bar>)" by (rule sum_list_nonneg) auto
  have r: "in_srange TYPE('a) (sint acc + sint x)"
    using Cons.prems nn by (auto simp: in_srange_def abs_if split: if_splits)
  have s: "s_add pf acc x = Some (acc + x)" "sint (acc + x) = sint acc + sint x"
    using s_add_exact [OF r] by auto
  have "\<bar>sint (acc + x)\<bar> + (\<Sum>x\<leftarrow>xs. \<bar>sint x\<bar>) < 2 ^ (LENGTH('a) - 1)"
    unfolding s(2) using Cons.prems abs_triangle_ineq [of "sint acc" "sint x"] by simp
  then show ?case using Cons.IH [of "acc + x"] s by (simp add: add.assoc)
qed simp

lemma s_sum_exact [rust_arith]:
  fixes xs :: "'a::len word list"
  assumes "(\<Sum>x\<leftarrow>xs. \<bar>sint x\<bar>) < 2 ^ (LENGTH('a) - 1)"
  shows "s_sum pf xs = Some (sum_list xs)" "sint (sum_list xs) = (\<Sum>x\<leftarrow>xs. sint x)"
  using fold_s_add_exact [of 0 xs pf] assms by (simp_all add: s_sum_def)

lemma fold_run_append:
  "fold_run f acc (xs @ ys) = do { acc' \<leftarrow> fold_run f acc xs; fold_run f acc' ys }"
  by (induction xs arbitrary: acc) (auto split: bind_splits)

lemma map_run_Some_iff: "map_run f xs = Some ys \<longleftrightarrow> map f xs = map Some ys"
  by (induction xs arbitrary: ys) (auto simp: bind_eq_Some_conv Cons_eq_map_conv)

lemma map_run_total: "(\<And>x. x \<in> set xs \<Longrightarrow> f x = Some (g x)) \<Longrightarrow> map_run f xs = Some (map g xs)"
  by (induction xs) auto

lemma map_run_None_iff: "map_run f xs = None \<longleftrightarrow> (\<exists>x \<in> set xs. f x = None)"
  by (induction xs) (auto simp: bind_eq_None_conv)

lemma fold_u_add_eq:
  fixes xs :: "'a::len word list"
  shows "fold_run (u_add pf) acc xs =
     (if pf = Debug \<and> 2 ^ LENGTH('a) \<le> unat acc + sum_list (map unat xs) then panic
      else Some (acc + sum_list xs))"
proof (induction xs arbitrary: acc)
  case Nil
  show ?case by (simp add: not_le)
next
  case (Cons x xs)
  have *: "unat (acc + x) = unat acc + unat x \<longleftrightarrow> unat acc + unat x < 2 ^ LENGTH('a)"
    using unat_add_lem [of acc x] by simp
  show ?case
  proof (cases "pf = Debug \<and> 2 ^ LENGTH('a) \<le> unat acc + unat x")
    case True
    then show ?thesis using * by (simp add: u_add_def)
  next
    case False
    then have "u_add pf acc x = Some (acc + x)" using * by (auto simp: u_add_def not_le)
    moreover have "pf = Debug \<Longrightarrow> unat (acc + x) = unat acc + unat x"
      using False * by (simp add: not_le)
    ultimately show ?thesis using Cons.IH [of "acc + x"] by (auto simp: add.assoc)
  qed
qed

lemma u_sum_eq:
  "u_sum pf xs = (if pf = Debug \<and> 2 ^ LENGTH('a) \<le> sum_list (map unat xs) then panic
      else Some (sum_list xs))"
  for xs :: "'a::len word list"
  by (simp add: u_sum_def fold_u_add_eq)

section \<open>Big-endian byte encodings\<close>

text \<open>\<^verbatim>\<open>to_be_bytes\<close> and \<^verbatim>\<open>from_be_bytes\<close> of an \<open>n\<close>-byte integer.\<close>

primrec be_of_nat :: "nat \<Rightarrow> nat \<Rightarrow> bytes" where
  "be_of_nat 0 x = []"
| "be_of_nat (Suc n) x = be_of_nat n (x div 256) @ [word_of_nat (x mod 256)]"

definition nat_of_be :: "bytes \<Rightarrow> nat" where
  "nat_of_be bs = foldl (\<lambda>a b. a * 256 + unat b) 0 bs"

definition to_be_bytes :: "'a::len word \<Rightarrow> bytes" where
  "to_be_bytes w = be_of_nat (LENGTH('a) div 8) (unat w)"

definition from_be_bytes :: "bytes \<Rightarrow> 'a::len word" where
  "from_be_bytes bs = word_of_nat (nat_of_be bs)"

lemma length_be_of_nat [simp, byte_simps]: "length (be_of_nat n x) = n"
  by (induction n arbitrary: x) auto

lemma nat_of_be_snoc [simp]: "nat_of_be (bs @ [b]) = nat_of_be bs * 256 + unat b"
  by (simp add: nat_of_be_def)

lemma nat_of_be_Nil [simp]: "nat_of_be [] = 0"
  by (simp add: nat_of_be_def)

lemma nat_of_be_Cons: "nat_of_be (b # bs) = unat b * 256 ^ length bs + nat_of_be bs"
proof (induction bs rule: rev_induct)
  case (snoc c cs)
  have "nat_of_be ((b # cs) @ [c]) = nat_of_be (b # cs) * 256 + unat c" by (rule nat_of_be_snoc)
  then show ?case using snoc by (simp add: algebra_simps)
qed (simp add: nat_of_be_def)

lemma nat_of_be_append: "nat_of_be (xs @ ys) = nat_of_be xs * 256 ^ length ys + nat_of_be ys"
  by (induction xs) (auto simp: nat_of_be_Cons power_add algebra_simps)

lemma nat_of_be_zeros [simp]: "nat_of_be (replicate n 0) = 0"
  by (induction n) (auto simp: nat_of_be_Cons)

lemma nat_of_be_of_nat: "nat_of_be (be_of_nat n x) = x mod 256 ^ n"
proof (induction n arbitrary: x)
  case (Suc n)
  have "unat (word_of_nat (x mod 256) :: u8) = x mod 256"
    by (simp add: unat_of_nat)
  then show ?case using Suc by (simp add: mod_mult2_eq mult.commute)
qed simp

lemma nat_of_be_less: "nat_of_be bs < 256 ^ length bs"
proof (induction bs rule: rev_induct)
  case (snoc b bs)
  have "unat b < 256" using unsigned_less [of b] by simp
  then have "nat_of_be (bs @ [b]) < (nat_of_be bs + 1) * 256" by simp
  also have "\<dots> \<le> 256 ^ length bs * 256" using snoc by (intro mult_right_mono) auto
  finally show ?case by simp
qed simp

lemma be_of_nat_of_be: "be_of_nat (length bs) (nat_of_be bs) = bs"
proof (induction bs rule: rev_induct)
  case (snoc b bs)
  have "unat b < 256" using unsigned_less [of b] by simp
  then show ?case using snoc by simp
qed simp

lemma power_256_bytes: "8 dvd n \<Longrightarrow> (256::nat) ^ (n div 8) = 2 ^ n"
proof -
  assume "8 dvd n"
  then obtain k where "n = 8 * k" ..
  then show ?thesis by (simp add: power_mult)
qed

lemma nat_of_to_be_bytes:
  assumes "8 dvd LENGTH('a)"
  shows "nat_of_be (to_be_bytes (w :: 'a::len word)) = unat w"
  using unsigned_less [of w, where 'a = nat] power_256_bytes [OF assms]
  by (simp add: to_be_bytes_def nat_of_be_of_nat)

lemma length_to_be_bytes [byte_simps]:
  "length (to_be_bytes (w :: 'a::len word)) = LENGTH('a) div 8"
  by (simp add: to_be_bytes_def)

lemma from_to_be_bytes [byte_simps]:
  assumes "8 dvd LENGTH('a)"
  shows "from_be_bytes (to_be_bytes w) = (w :: 'a::len word)"
proof -
  have "(256::nat) ^ (LENGTH('a) div 8) = 2 ^ LENGTH('a)"
    using assms by (intro power_256_bytes)
  then show ?thesis
    using unsigned_less [of w] by (simp add: from_be_bytes_def to_be_bytes_def nat_of_be_of_nat)
qed

lemma to_from_be_bytes:
  assumes "8 dvd LENGTH('a)" "length bs = LENGTH('a) div 8"
  shows "to_be_bytes (from_be_bytes bs :: 'a::len word) = bs"
proof -
  have "(256::nat) ^ (LENGTH('a) div 8) = 2 ^ LENGTH('a)"
    using assms by (intro power_256_bytes)
  then have "unat (word_of_nat (nat_of_be bs) :: 'a word) = nat_of_be bs"
    using nat_of_be_less [of bs] assms(2) by (simp add: unat_of_nat)
  then show ?thesis
    using be_of_nat_of_be [of bs] assms(2) by (simp add: from_be_bytes_def to_be_bytes_def)
qed


section \<open>String literals\<close>

text \<open>The bytes of an ASCII literal.\<close>

definition str :: "string \<Rightarrow> bytes" where
  "str s = map of_char s"

lemma str_eq [simp]: "str s = str t \<longleftrightarrow> s = t"
proof -
  have u: "unat (of_char c :: u8) = of_char c" for c
  proof -
    have "(of_char c :: u8) = word_of_nat (of_char c)" by (rule of_nat_of_char [symmetric])
    then have "unat (of_char c :: u8) = of_char c mod 2 ^ LENGTH(8)" by (simp only: unat_of_nat)
    then show ?thesis by simp
  qed
  have "inj (of_char :: char \<Rightarrow> u8)"
    by (rule injI) (metis u of_char_eq_iff)
  then show ?thesis by (simp add: str_def inj_map_eq_map)
qed

section \<open>UTF-8\<close>

text \<open>
  \<^verbatim>\<open>String::from_utf8\<close> accepts exactly the well-formed byte sequences: no overlong form, no
  surrogate, nothing above U+10FFFF.
\<close>

definition is_cont :: "u8 \<Rightarrow> bool" where
  "is_cont b \<longleftrightarrow> 0x80 \<le> b \<and> b \<le> 0xBF"

definition utf8_2 :: "u8 \<Rightarrow> u8 \<Rightarrow> bool" where
  "utf8_2 a b \<longleftrightarrow> 0xC2 \<le> a \<and> a \<le> 0xDF \<and> is_cont b"

definition utf8_3 :: "u8 \<Rightarrow> u8 \<Rightarrow> u8 \<Rightarrow> bool" where
  "utf8_3 a b c \<longleftrightarrow> is_cont c \<and>
     (a = 0xE0 \<and> 0xA0 \<le> b \<and> b \<le> 0xBF \<or>
      0xE1 \<le> a \<and> a \<le> 0xEC \<and> is_cont b \<or>
      a = 0xED \<and> 0x80 \<le> b \<and> b \<le> 0x9F \<or>
      0xEE \<le> a \<and> a \<le> 0xEF \<and> is_cont b)"

definition utf8_4 :: "u8 \<Rightarrow> u8 \<Rightarrow> u8 \<Rightarrow> u8 \<Rightarrow> bool" where
  "utf8_4 a b c d \<longleftrightarrow> is_cont c \<and> is_cont d \<and>
     (a = 0xF0 \<and> 0x90 \<le> b \<and> b \<le> 0xBF \<or>
      0xF1 \<le> a \<and> a \<le> 0xF3 \<and> is_cont b \<or>
      a = 0xF4 \<and> 0x80 \<le> b \<and> b \<le> 0x8F)"

fun valid_utf8 :: "bytes \<Rightarrow> bool" where
  "valid_utf8 [] = True"
| "valid_utf8 (a # bs) =
     (if a < 0x80 then valid_utf8 bs
      else case bs of
        [] \<Rightarrow> False
      | b # cs \<Rightarrow>
          if utf8_2 a b then valid_utf8 cs
          else case cs of
            [] \<Rightarrow> False
          | c # ds \<Rightarrow>
              if utf8_3 a b c then valid_utf8 ds
              else case ds of
                [] \<Rightarrow> False
              | d # es \<Rightarrow> utf8_4 a b c d \<and> valid_utf8 es)"

definition string_from_utf8 :: "bytes \<Rightarrow> bytes option" where
  "string_from_utf8 bs = (if valid_utf8 bs then Some bs else None)"

section \<open>Sums over parts of a list\<close>

lemma sum_list_take_rev_le:
  fixes f :: "'a \<Rightarrow> int"
  assumes "\<And>x. 0 \<le> f x"
  shows "(\<Sum>x\<leftarrow>take n (rev xs). f x) \<le> (\<Sum>x\<leftarrow>xs. f x)"
proof -
  have "(\<Sum>x\<leftarrow>xs. f x) = (\<Sum>x\<leftarrow>take n (rev xs) @ drop n (rev xs). f x)"
    by (simp add: rev_map [symmetric] sum_list_rev)
  moreover have "0 \<le> (\<Sum>x\<leftarrow>drop n (rev xs). f x)" using assms by (intro sum_list_nonneg) auto
  ultimately show ?thesis by (simp del: append_take_drop_id)
qed

lemma sum_list_filter_le:
  fixes f :: "'a \<Rightarrow> int"
  assumes "\<And>x. 0 \<le> f x"
  shows "(\<Sum>x\<leftarrow>filter P xs. f x) \<le> (\<Sum>x\<leftarrow>xs. f x)"
  using assms by (induction xs) (auto intro: add_increasing)

section \<open>Lists related element by element\<close>

lemma list_all2_sum_mono:
  fixes f g :: "'a \<Rightarrow> 'b::ordered_comm_monoid_add"
  shows "list_all2 R xs ys \<Longrightarrow> (\<And>x y. R x y \<Longrightarrow> f x \<le> g y) \<Longrightarrow> sum_list (map f xs) \<le> sum_list (map g ys)"
  by (induction rule: list_all2_induct) (auto intro: add_mono)

lemma list_all2_filter:
  "list_all2 R xs ys \<Longrightarrow> (\<And>x y. R x y \<Longrightarrow> P x = P y) \<Longrightarrow> list_all2 R (filter P xs) (filter P ys)"
  by (induction rule: list_all2_induct) auto

section \<open>Options\<close>

text \<open>\<^verbatim>\<open>Option::unwrap_or\<close>.\<close>

definition or_default :: "'a \<Rightarrow> 'a option \<Rightarrow> 'a" where
  "or_default d x = (case x of None \<Rightarrow> d | Some y \<Rightarrow> y)"

end
