(* ===== verification/Float64.thy ===== *)
theory Float64
  imports Complex_Main "HOL-Library.Log_Nat" "HOL-Library.Word"
begin

text \<open>
  IEEE 754 binary64, as Rust's \<^verbatim>\<open>f64\<close> uses it: round to nearest, ties to even. A finite
  number is its sign and its magnitude, an exact rational, so every operation is the exact
  rational operation followed by one rounding, and everything here is executable.
\<close>

section \<open>Powers of two\<close>

lemma p2_pos [simp]: "0 < (2::rat) powi k"
  by (rule zero_less_power_int) simp

lemma p2_nonneg [simp]: "0 \<le> (2::rat) powi k"
  by (rule less_imp_le) (rule p2_pos)

lemma p2_neq0 [simp]: "(2::rat) powi k \<noteq> 0"
  using p2_pos [of k] by linarith

lemma p2_le_iff: "(2::rat) powi a \<le> 2 powi b \<longleftrightarrow> a \<le> b"
  by (meson not_le one_less_numeral_iff power_int_increasing power_int_strict_increasing
      less_imp_le semiring_norm(76))

lemma p2_less_iff: "(2::rat) powi a < 2 powi b \<longleftrightarrow> a < b"
  using p2_le_iff [of b a] by (simp add: not_le [symmetric])

lemma p2_add: "(2::rat) powi (a + b) = 2 powi a * 2 powi b"
  by (simp add: power_int_add)

lemma p2_diff: "(2::rat) powi (a - b) = 2 powi a / 2 powi b"
  by (simp add: power_int_diff)

section \<open>Binary logarithm of a positive rational\<close>

definition ilog2 :: "rat \<Rightarrow> int" where
  "ilog2 q =
     (let (a, b) = quotient_of q; k = bitlen a - bitlen b
      in if 2 powi k \<le> q then k else k - 1)"

lemma bitlen_p2:
  assumes "0 < x"
  shows "2 powi (bitlen x - 1) \<le> (of_int x :: rat)" and "(of_int x :: rat) < 2 powi (bitlen x)"
proof -
  have b: "2 ^ nat (bitlen x - 1) \<le> x" "x < 2 ^ nat (bitlen x)"
    using bitlen_bounds [OF assms] by auto
  have pos: "1 \<le> bitlen x"
    using assms by (auto simp: bitlen_alt_def)
  have "(of_int (2 ^ nat (bitlen x - 1)) :: rat) \<le> of_int x"
    using b(1) by (simp only: of_int_le_iff)
  then show "2 powi (bitlen x - 1) \<le> (of_int x :: rat)"
    using pos by (simp add: power_int_nonneg_exp)
  have "(of_int x :: rat) < of_int (2 ^ nat (bitlen x))"
    using b(2) by (simp only: of_int_less_iff)
  then show "(of_int x :: rat) < 2 powi (bitlen x)"
    using pos by (simp add: power_int_nonneg_exp)
qed

lemma ilog2_bounds:
  assumes "0 < q"
  shows "2 powi (ilog2 q) \<le> q" and "q < 2 powi (ilog2 q + 1)"
proof -
  obtain a b where ab: "quotient_of q = (a, b)" by (cases "quotient_of q")
  have b: "0 < b" using ab by (rule quotient_of_denom_pos)
  have q: "q = of_int a / of_int b" using ab by (rule quotient_of_div)
  have a: "0 < a" using assms b by (simp add: q zero_less_divide_iff)
  let ?k = "bitlen a - bitlen b"
  have "(2::rat) powi (?k - 1) * of_int b < 2 powi (?k - 1) * 2 powi (bitlen b)"
    using bitlen_p2(2) [OF b] by simp
  also have "\<dots> = 2 powi (bitlen a - 1)"
    by (simp flip: p2_add)
  also have "\<dots> \<le> of_int a" by (rule bitlen_p2(1) [OF a])
  finally have lo: "2 powi (?k - 1) < q"
    using b by (simp add: q field_simps)
  have "of_int a < (2::rat) powi (bitlen a)" by (rule bitlen_p2(2) [OF a])
  also have "\<dots> = 2 powi (?k + 1) * 2 powi (bitlen b - 1)"
    by (simp flip: p2_add)
  also have "\<dots> \<le> 2 powi (?k + 1) * of_int b"
    using bitlen_p2(1) [OF b] by simp
  finally have hi: "q < 2 powi (?k + 1)"
    using b by (simp add: q field_simps)
  show "2 powi (ilog2 q) \<le> q" and "q < 2 powi (ilog2 q + 1)"
    using lo hi by (auto simp: ilog2_def ab Let_def)
qed

lemma ilog2_less: "0 < q \<Longrightarrow> q < 2 powi k \<Longrightarrow> ilog2 q < k"
  using ilog2_bounds(1) [of q] p2_less_iff [of "ilog2 q" k] by linarith

lemma ilog2_ge: "0 < q \<Longrightarrow> 2 powi k \<le> q \<Longrightarrow> k \<le> ilog2 q"
  using ilog2_bounds(2) [of q] p2_less_iff [of k "ilog2 q + 1"] by linarith

lemma ilog2_eqI: "2 powi k \<le> q \<Longrightarrow> q < 2 powi (k + 1) \<Longrightarrow> ilog2 q = k"
  using ilog2_less [of q "k + 1"] ilog2_ge [of q k] p2_pos [of k] by linarith

lemma ilog2_mono: "0 < p \<Longrightarrow> p \<le> q \<Longrightarrow> ilog2 p \<le> ilog2 q"
  using ilog2_bounds(1) [of p] by (intro ilog2_ge) linarith+

section \<open>Rounding\<close>

text \<open>Round to the nearest integer, ties to the even one.\<close>

definition round_half_even :: "rat \<Rightarrow> int" where
  "round_half_even q =
     (let f = \<lfloor>q\<rfloor>; d = q - of_int f
      in if d < 1 / 2 then f else if 1 / 2 < d then f + 1 else if even f then f else f + 1)"

lemma round_half_even_of_int [simp]: "round_half_even (of_int k) = k"
  by (simp add: round_half_even_def)

lemma round_half_even_error: "\<bar>of_int (round_half_even q) - q\<bar> \<le> 1 / 2"
proof -
  have "of_int \<lfloor>q\<rfloor> \<le> q" "q < of_int \<lfloor>q\<rfloor> + 1"
    using floor_correct [of q] by auto
  then show ?thesis unfolding round_half_even_def Let_def abs_le_iff by (simp split: if_split) linarith
qed

lemma round_half_even_mono:
  assumes "p \<le> q" shows "round_half_even p \<le> round_half_even q"
proof (cases "\<lfloor>p\<rfloor> = \<lfloor>q\<rfloor>")
  case True
  then show ?thesis using assms by (auto simp: round_half_even_def Let_def)
next
  case False
  then have "\<lfloor>p\<rfloor> + 1 \<le> \<lfloor>q\<rfloor>"
    using floor_mono [OF assms] by linarith
  moreover have "round_half_even p \<le> \<lfloor>p\<rfloor> + 1" "\<lfloor>q\<rfloor> \<le> round_half_even q"
    by (auto simp: round_half_even_def Let_def)
  ultimately show ?thesis by linarith
qed

text \<open>
  The exponent of the last place of the 53-bit significand of \<^term>\<open>q\<close>, not below the
  subnormal one.
\<close>

definition ulp_exp :: "rat \<Rightarrow> int" where
  "ulp_exp q = max (ilog2 q - 52) (- 1074)"

definition round_mag :: "rat \<Rightarrow> rat" where
  "round_mag q =
     (if q = 0 then 0
      else let e = ulp_exp q in of_int (round_half_even (q / 2 powi e)) * 2 powi e)"

lemma round_mag_0 [simp]: "round_mag 0 = 0"
  by (simp add: round_mag_def)

lemma round_half_even_nonneg: "0 \<le> q \<Longrightarrow> 0 \<le> round_half_even q"
  using round_half_even_mono [of 0 q] round_half_even_of_int [of 0] by simp

lemma round_mag_nonneg [simp]: "0 \<le> q \<Longrightarrow> 0 \<le> round_mag q"
  by (simp add: round_mag_def Let_def round_half_even_nonneg)

lemma round_half_even_le: "q \<le> of_int k \<Longrightarrow> round_half_even q \<le> k"
  using round_half_even_mono [of q "of_int k"] by simp

lemma round_half_even_ge: "of_int k \<le> q \<Longrightarrow> k \<le> round_half_even q"
  using round_half_even_mono [of "of_int k" q] by simp

text \<open>A number with a significand of at most 53 bits is its own rounding.\<close>

lemma round_mag_exact_lt:
  assumes "0 < m" "m < 2 ^ 53" "- 1074 \<le> e"
  shows "round_mag (of_int m * 2 powi e) = of_int m * 2 powi e"
proof -
  let ?v = "of_int m * (2::rat) powi e"
  have v: "0 < ?v" using assms by simp
  have "of_int m < (2::rat) ^ 53"
    using assms(2) by (metis of_int_less_iff of_int_numeral of_int_power)
  then have "?v < 2 ^ 53 * 2 powi e" by simp
  also have "\<dots> = 2 powi (53 + e)" by (simp add: p2_add)
  finally have "ilog2 ?v < 53 + e" by (rule ilog2_less [OF v])
  then have le: "ulp_exp ?v \<le> e" using assms(3) by (simp add: ulp_exp_def)
  define d where "d = nat (e - ulp_exp ?v)"
  have "?v / 2 powi (ulp_exp ?v) = of_int m * 2 powi (e - ulp_exp ?v)"
    by (simp add: p2_diff)
  also have "\<dots> = of_int (m * 2 ^ d)"
    using le by (simp add: d_def power_int_nonneg_exp)
  finally have *: "?v / 2 powi (ulp_exp ?v) = of_int (m * 2 ^ d)" .
  have "round_mag ?v = of_int (m * 2 ^ d) * 2 powi (ulp_exp ?v)"
    using v by (simp add: round_mag_def Let_def * del: of_int_mult)
  also have "\<dots> = ?v" by (simp only: * [symmetric]) simp
  finally show ?thesis .
qed

lemma round_mag_exact:
  assumes "0 \<le> m" "m \<le> 2 ^ 53" "- 1074 \<le> e"
  shows "round_mag (of_int m * 2 powi e) = of_int m * 2 powi e"
proof -
  consider "m = 0" | "0 < m" "m < 2 ^ 53" | "m = 2 ^ 53" using assms by linarith
  then show ?thesis
  proof cases
    case 1 then show ?thesis by simp
  next
    case 2 then show ?thesis using assms(3) by (rule round_mag_exact_lt)
  next
    case 3
    have "of_int m * (2::rat) powi e = of_int (2 ^ 52) * 2 powi (e + 1)"
      by (simp add: 3 p2_add)
    then show ?thesis
      using round_mag_exact_lt [of "2 ^ 52" "e + 1"] assms(3) by simp
  qed
qed

lemma round_mag_of_int: "0 \<le> m \<Longrightarrow> m \<le> 2 ^ 53 \<Longrightarrow> round_mag (of_int m) = of_int m"
  using round_mag_exact [of m 0] by simp

lemma round_mag_p2: "- 1074 \<le> k \<Longrightarrow> round_mag (2 powi k) = 2 powi k"
  using round_mag_exact [of 1 k] by simp

text \<open>Every rounded magnitude has such a significand.\<close>

lemma round_mag_form:
  assumes "0 < q"
  obtains m where "0 \<le> m" "m \<le> 2 ^ 53" "round_mag q = of_int m * 2 powi (ulp_exp q)"
    "- 1074 \<le> ulp_exp q"
proof -
  let ?e = "ulp_exp q"
  have "q < 2 powi (ilog2 q + 1)" by (rule ilog2_bounds(2) [OF assms])
  also have "\<dots> \<le> 2 powi (53 + ?e)" by (simp add: p2_le_iff ulp_exp_def)
  finally have "q / 2 powi ?e \<le> of_int (2 ^ 53)" by (simp add: p2_add field_simps)
  then have "round_half_even (q / 2 powi ?e) \<le> 2 ^ 53" by (rule round_half_even_le)
  moreover have "0 \<le> round_half_even (q / 2 powi ?e)"
    using assms by (intro round_half_even_nonneg) simp
  ultimately show ?thesis
    using assms by (intro that) (auto simp: round_mag_def Let_def ulp_exp_def)
qed

lemma round_mag_idem [simp]: "0 \<le> q \<Longrightarrow> round_mag (round_mag q) = round_mag q"
proof (cases "q = 0")
  case False
  moreover assume "0 \<le> q"
  ultimately have "0 < q" by simp
  then obtain m where "0 \<le> m" "m \<le> 2 ^ 53" "- 1074 \<le> ulp_exp q"
      and "round_mag q = of_int m * 2 powi (ulp_exp q)" by (rule round_mag_form)
  then show ?thesis by (simp add: round_mag_exact)
qed simp

text \<open>Rounding stays within the binade, and is monotone.\<close>

lemma round_mag_le_p2:
  assumes "0 < q" "q \<le> 2 powi k" "- 1074 \<le> k"
  shows "round_mag q \<le> 2 powi k"
proof -
  let ?e = "ulp_exp q"
  have "ilog2 q \<le> k"
    using assms ilog2_bounds(1) [of q] p2_le_iff [of "ilog2 q" k] by linarith
  then have ek: "?e \<le> k" using assms(3) by (simp add: ulp_exp_def)
  have i: "(of_int (2 ^ nat (k - ?e)) :: rat) = 2 powi k / 2 powi ?e"
    using ek by (simp add: power_int_nonneg_exp flip: p2_diff)
  have "q / 2 powi ?e \<le> of_int (2 ^ nat (k - ?e))"
    using assms(2) by (simp add: i divide_right_mono del: of_int_power)
  then have "round_half_even (q / 2 powi ?e) \<le> 2 ^ nat (k - ?e)" by (rule round_half_even_le)
  then have "(of_int (round_half_even (q / 2 powi ?e)) :: rat) \<le> of_int (2 ^ nat (k - ?e))"
    by (simp only: of_int_le_iff)
  then show ?thesis
    using assms(1) by (simp add: round_mag_def Let_def i field_simps del: of_int_power)
qed

lemma round_mag_ge_p2:
  assumes "2 powi k \<le> q" "- 1074 \<le> k"
  shows "2 powi k \<le> round_mag q"
proof -
  let ?e = "ulp_exp q"
  have q: "0 < q" using assms(1) p2_pos [of k] by linarith
  show ?thesis
  proof (cases "?e \<le> k")
    case True
    have i: "(of_int (2 ^ nat (k - ?e)) :: rat) = 2 powi k / 2 powi ?e"
      using True by (simp add: power_int_nonneg_exp flip: p2_diff)
    have "of_int (2 ^ nat (k - ?e)) \<le> q / 2 powi ?e"
      using assms(1) by (simp add: i divide_right_mono del: of_int_power)
    then have "2 ^ nat (k - ?e) \<le> round_half_even (q / 2 powi ?e)" by (rule round_half_even_ge)
    then have "(of_int (2 ^ nat (k - ?e)) :: rat) \<le> of_int (round_half_even (q / 2 powi ?e))"
      by (simp only: of_int_le_iff)
    then show ?thesis
      using q by (simp add: round_mag_def Let_def i field_simps del: of_int_power)
  next
    case False
    then have e: "?e = ilog2 q - 52" using assms(2) by (auto simp: ulp_exp_def)
    have "2 powi ?e \<le> q"
      using ilog2_bounds(1) [OF q] p2_le_iff [of ?e "ilog2 q"] e by linarith
    then have "1 \<le> round_half_even (q / 2 powi ?e)"
      by (intro round_half_even_ge) (simp add: field_simps)
    then have "(1::rat) * 2 powi ?e \<le> of_int (round_half_even (q / 2 powi ?e)) * 2 powi ?e"
      by (intro mult_right_mono) auto
    then have "2 powi ?e \<le> round_mag q" using q by (simp add: round_mag_def Let_def)
    moreover have "(2::rat) powi k \<le> 2 powi ?e" using False by (simp add: p2_le_iff)
    ultimately show ?thesis by linarith
  qed
qed

lemma round_mag_mono:
  assumes "0 \<le> p" "p \<le> q"
  shows "round_mag p \<le> round_mag q"
proof (cases "p = 0")
  case True
  then show ?thesis using assms by simp
next
  case False
  then have p: "0 < p" and q: "0 < q" using assms by auto
  have le: "ilog2 p \<le> ilog2 q" using p assms(2) by (rule ilog2_mono)
  show ?thesis
  proof (cases "ulp_exp p = ulp_exp q")
    case True
    have "round_half_even (p / 2 powi (ulp_exp q)) \<le> round_half_even (q / 2 powi (ulp_exp q))"
      using assms(2) by (intro round_half_even_mono divide_right_mono) auto
    then show ?thesis using p q True by (simp add: round_mag_def Let_def mult_right_mono)
  next
    case False
    then have lt: "ilog2 p + 1 \<le> ilog2 q" "- 1074 \<le> ilog2 q"
      using le by (auto simp: ulp_exp_def max_def split: if_splits)
    have "p \<le> 2 powi (ilog2 p + 1)" using ilog2_bounds(2) [OF p] by simp
    also have "\<dots> \<le> 2 powi (ilog2 q)" using lt by (simp add: p2_le_iff)
    finally have "round_mag p \<le> 2 powi (ilog2 q)" using p lt by (intro round_mag_le_p2)
    also have "\<dots> \<le> round_mag q" using lt ilog2_bounds(1) [OF q] by (intro round_mag_ge_p2)
    finally show ?thesis .
  qed
qed

lemma round_mag_pos: "2 powi (- 1074) \<le> q \<Longrightarrow> 0 < round_mag q"
  using round_mag_ge_p2 [of "- 1074" q] p2_pos [of "- 1074"] by linarith

text \<open>The rounding error is at most half a unit in the last place.\<close>

lemma round_mag_error: "0 < q \<Longrightarrow> \<bar>round_mag q - q\<bar> \<le> 2 powi (ulp_exp q) / 2"
proof -
  assume q: "0 < q"
  let ?e = "ulp_exp q"
  have "round_mag q - q = (of_int (round_half_even (q / 2 powi ?e)) - q / 2 powi ?e) * 2 powi ?e"
    using q by (simp add: round_mag_def Let_def algebra_simps)
  then have "\<bar>round_mag q - q\<bar>
      = \<bar>of_int (round_half_even (q / 2 powi ?e)) - q / 2 powi ?e\<bar> * 2 powi ?e"
    by (simp add: abs_mult)
  also have "\<dots> \<le> 1 / 2 * 2 powi ?e"
    by (intro mult_right_mono round_half_even_error) simp
  finally show ?thesis by simp
qed

text \<open>For numbers that are not subnormal the error is relative.\<close>

lemma round_mag_relative:
  assumes "2 powi (- 1022) \<le> q"
  shows "\<bar>round_mag q - q\<bar> \<le> q / 2 ^ 53"
proof -
  have q: "0 < q" using assms p2_pos [of "- 1022"] by linarith
  have "ulp_exp q = ilog2 q - 52" using ilog2_ge [OF q assms] by (simp add: ulp_exp_def)
  then have "(2 :: rat) powi (ulp_exp q) / 2 = 2 powi (ilog2 q) / 2 ^ 53" by (simp add: p2_diff)
  also have "\<dots> \<le> q / 2 ^ 53" using ilog2_bounds(1) [OF q] by (intro divide_right_mono) simp_all
  finally show ?thesis using round_mag_error [OF q] by linarith
qed

lemma round_mag_int_error:
  assumes "0 \<le> n"
  shows "\<bar>round_mag (of_int n) - of_int n\<bar> \<le> of_int n / 2 ^ 53"
proof (cases "n = 0")
  case False
  then have "(1 :: rat) \<le> of_int n" using assms by simp
  moreover have "(2 :: rat) powi (- 1022) \<le> 2 powi 0" by (simp only: p2_le_iff)
  ultimately show ?thesis by (intro round_mag_relative) simp
qed simp


text \<open>An evaluation equation: the rounding over integers, with no normalisation of
  intermediate rationals, so that concrete runs are evaluated faster by the kernel.\<close>

definition half_even_div :: "int \<Rightarrow> int \<Rightarrow> int" where
  "half_even_div n d =
     (let q = n div d; r = 2 * (n mod d)
      in if r < d then q else if d < r then q + 1 else if even q then q else q + 1)"

lemma round_half_even_div:
  assumes "0 < d"
  shows "round_half_even (of_int n / of_int d) = half_even_div n d"
proof -
  have f: "\<lfloor>of_int n / (of_int d :: rat)\<rfloor> = n div d" by (rule floor_divide_of_int_eq)
  have "n = d * (n div d) + n mod d" by simp
  then have "(of_int n :: rat) = of_int d * of_int (n div d) + of_int (n mod d)"
    by (metis of_int_add of_int_mult)
  then have "of_int n / of_int d - of_int (n div d) = (of_int (n mod d) / of_int d :: rat)"
    using assms by (simp add: field_simps)
  moreover have "(of_int (n mod d) / of_int d :: rat) < 1 / 2 \<longleftrightarrow> 2 * (n mod d) < d"
    "(1 :: rat) / 2 < of_int (n mod d) / of_int d \<longleftrightarrow> d < 2 * (n mod d)"
    using assms of_int_less_iff [of "2 * (n mod d)" d, where 'a = rat] of_int_less_iff [of d "2 * (n mod d)", where 'a = rat]
    by (simp_all add: field_simps)
  ultimately show ?thesis
    unfolding round_half_even_def half_even_div_def Let_def f by simp
qed

lemma round_mag_code [code]:
  "round_mag q =
     (if q = 0 then 0
      else case quotient_of q of (n, d) \<Rightarrow>
        let e = ulp_exp q
        in if 0 \<le> e then of_int (half_even_div n (d * 2 ^ nat e) * 2 ^ nat e)
           else Fract (half_even_div (n * 2 ^ nat (- e)) d) (2 ^ nat (- e)))"
proof -
  obtain n d where nd: "quotient_of q = (n, d)" by (cases "quotient_of q")
  have d: "0 < d" using nd by (rule quotient_of_denom_pos)
  have q: "q = of_int n / of_int d" using nd by (rule quotient_of_div)
  show ?thesis
  proof (cases "0 \<le> ulp_exp q")
    case True
    let ?k = "nat (ulp_exp q)"
    have "q / 2 powi (ulp_exp q) = of_int n / of_int (d * 2 ^ ?k)" using True by (simp add: q power_int_def)
    then show ?thesis
      using round_half_even_div [of "d * 2 ^ ?k" n] d True by (simp add: round_mag_def nd Let_def power_int_def)
  next
    case False
    let ?k = "nat (- ulp_exp q)"
    have p: "(2 :: rat) powi (ulp_exp q) = 1 / 2 ^ ?k"
      using False by (simp add: power_int_def field_simps)
    have "q / 2 powi (ulp_exp q) = q * 2 ^ ?k" by (simp add: p)
    also have "\<dots> = of_int (n * 2 ^ ?k) / of_int d" by (subst q) simp
    finally have r: "q / 2 powi (ulp_exp q) = of_int (n * 2 ^ ?k) / of_int d" .
    have "round_half_even (q / 2 powi (ulp_exp q)) = half_even_div (n * 2 ^ ?k) d"
      unfolding r by (rule round_half_even_div [OF d])
    then show ?thesis
      unfolding round_mag_def nd prod.case Let_def
      using False by (simp only: p if_False Fract_of_int_quotient) simp
  qed
qed

section \<open>The numbers\<close>

text \<open>
  \<open>Fin s q\<close> is the finite number of sign \<open>s\<close> (\<open>True\<close> is negative) and magnitude \<open>q\<close>; both
  zeros are numbers of their own. \<open>f64_val\<close> reads a finite number as a rational (and the others,
  where no lemma uses it, as 0).
\<close>

datatype f64 = NaN | Inf bool | Fin bool rat

primrec f64_val :: "f64 \<Rightarrow> rat" where
  "f64_val NaN = 0"
| "f64_val (Inf s) = 0"
| "f64_val (Fin s q) = (if s then - q else q)"

primrec is_finite :: "f64 \<Rightarrow> bool" where
  "is_finite NaN = False"
| "is_finite (Inf s) = False"
| "is_finite (Fin s q) = True"

definition overflowed :: "rat \<Rightarrow> bool" where
  "overflowed m \<longleftrightarrow> m \<noteq> 0 \<and> 1024 \<le> ilog2 m"

text \<open>The numbers a program can hold: significand, exponent and range are those of binary64.\<close>

primrec f64_wf :: "f64 \<Rightarrow> bool" where
  "f64_wf NaN = True"
| "f64_wf (Inf s) = True"
| "f64_wf (Fin s q) = (0 \<le> q \<and> round_mag q = q \<and> \<not> overflowed q)"

text \<open>One rounding of an exact magnitude, with overflow to infinity.\<close>

definition pack :: "bool \<Rightarrow> rat \<Rightarrow> f64" where
  "pack s q = (let m = round_mag q in if overflowed m then Inf s else Fin s m)"

text \<open>A decimal literal, and the cast \<^verbatim>\<open>as f64\<close> of an integer of any width.\<close>

definition f64_of_rat :: "rat \<Rightarrow> f64" where
  "f64_of_rat q = pack (q < 0) \<bar>q\<bar>"

definition f64_of_int :: "int \<Rightarrow> f64" where
  "f64_of_int i = f64_of_rat (of_int i)"

section \<open>Operations\<close>

fun f64_neg :: "f64 \<Rightarrow> f64" where
  "f64_neg NaN = NaN"
| "f64_neg (Inf s) = Inf (\<not> s)"
| "f64_neg (Fin s q) = Fin (\<not> s) q"

fun f64_add :: "f64 \<Rightarrow> f64 \<Rightarrow> f64" where
  "f64_add NaN y = NaN"
| "f64_add x NaN = NaN"
| "f64_add (Inf s) (Inf t) = (if s = t then Inf s else NaN)"
| "f64_add (Inf s) (Fin t q) = Inf s"
| "f64_add (Fin s p) (Inf t) = Inf t"
| "f64_add (Fin s p) (Fin t q) =
     (let v = f64_val (Fin s p) + f64_val (Fin t q)
      in if v = 0 then Fin (s \<and> t) 0 else pack (v < 0) \<bar>v\<bar>)"

definition f64_sub :: "f64 \<Rightarrow> f64 \<Rightarrow> f64" where
  "f64_sub x y = f64_add x (f64_neg y)"

fun f64_mul :: "f64 \<Rightarrow> f64 \<Rightarrow> f64" where
  "f64_mul NaN y = NaN"
| "f64_mul x NaN = NaN"
| "f64_mul (Inf s) (Inf t) = Inf (s \<noteq> t)"
| "f64_mul (Inf s) (Fin t q) = (if q = 0 then NaN else Inf (s \<noteq> t))"
| "f64_mul (Fin s p) (Inf t) = (if p = 0 then NaN else Inf (s \<noteq> t))"
| "f64_mul (Fin s p) (Fin t q) = pack (s \<noteq> t) (p * q)"

fun f64_div :: "f64 \<Rightarrow> f64 \<Rightarrow> f64" where
  "f64_div NaN y = NaN"
| "f64_div x NaN = NaN"
| "f64_div (Inf s) (Inf t) = NaN"
| "f64_div (Inf s) (Fin t q) = Inf (s \<noteq> t)"
| "f64_div (Fin s p) (Inf t) = Fin (s \<noteq> t) 0"
| "f64_div (Fin s p) (Fin t q) =
     (if q = 0 then (if p = 0 then NaN else Inf (s \<noteq> t)) else pack (s \<noteq> t) (p / q))"

text \<open>Comparisons: false whenever an operand is not a number, and the two zeros are equal.\<close>

fun f64_lt :: "f64 \<Rightarrow> f64 \<Rightarrow> bool" where
  "f64_lt NaN y = False"
| "f64_lt x NaN = False"
| "f64_lt (Inf s) (Inf t) = (s \<and> \<not> t)"
| "f64_lt (Inf s) (Fin t q) = s"
| "f64_lt (Fin s p) (Inf t) = (\<not> t)"
| "f64_lt (Fin s p) (Fin t q) = (f64_val (Fin s p) < f64_val (Fin t q))"

fun f64_le :: "f64 \<Rightarrow> f64 \<Rightarrow> bool" where
  "f64_le NaN y = False"
| "f64_le x NaN = False"
| "f64_le (Inf s) (Inf t) = (s \<or> \<not> t)"
| "f64_le (Inf s) (Fin t q) = s"
| "f64_le (Fin s p) (Inf t) = (\<not> t)"
| "f64_le (Fin s p) (Fin t q) = (f64_val (Fin s p) \<le> f64_val (Fin t q))"

text \<open>\<^verbatim>\<open>f64::min\<close> ignores an operand that is not a number.\<close>

definition f64_min :: "f64 \<Rightarrow> f64 \<Rightarrow> f64" where
  "f64_min x y = (if x = NaN then y else if y = NaN then x else if f64_lt y x then y else x)"

text \<open>\<^verbatim>\<open>f64::round\<close>: to the nearest integer, halves away from zero, keeping the sign.\<close>

fun f64_round :: "f64 \<Rightarrow> f64" where
  "f64_round NaN = NaN"
| "f64_round (Inf s) = Inf s"
| "f64_round (Fin s q) = Fin s (of_int \<lfloor>q + 1 / 2\<rfloor>)"

text \<open>\<^verbatim>\<open>Iterator::sum\<close> over floats folds from the left, from minus zero.\<close>

definition f64_sum :: "f64 list \<Rightarrow> f64" where
  "f64_sum xs = foldl f64_add (Fin True 0) xs"

text \<open>
  The casts to integers truncate towards zero, saturate at the bounds \<open>lo\<close> and \<open>hi\<close> of the
  target and take 0 for a number that is none.
\<close>

fun f64_as_int :: "int \<Rightarrow> int \<Rightarrow> f64 \<Rightarrow> int" where
  "f64_as_int lo hi NaN = 0"
| "f64_as_int lo hi (Inf s) = (if s then lo else hi)"
| "f64_as_int lo hi (Fin s q) = max lo (min hi (if s then - \<lfloor>q\<rfloor> else \<lfloor>q\<rfloor>))"

section \<open>Laws\<close>

text \<open>Signed rounding of an exact rational.\<close>

definition rnd :: "rat \<Rightarrow> rat" where
  "rnd q = (if q < 0 then - round_mag (- q) else round_mag q)"

lemma rnd_0 [simp]: "rnd 0 = 0" by (simp add: rnd_def)

lemma rnd_mono: "p \<le> q \<Longrightarrow> rnd p \<le> rnd q"
proof -
  assume le: "p \<le> q"
  have "round_mag p \<le> round_mag q" if "0 \<le> p" using that le by (rule round_mag_mono)
  moreover have "round_mag (- q) \<le> round_mag (- p)" if "q < 0"
    using that le by (intro round_mag_mono) auto
  moreover have "0 \<le> round_mag (- p)" if "p < 0" using that by simp
  moreover have "0 \<le> round_mag q" if "0 \<le> q" using that by simp
  ultimately show ?thesis using le by (cases "p < 0"; cases "q < 0"; simp add: rnd_def; linarith)
qed

lemma rnd_of_int: "\<bar>i\<bar> \<le> 2 ^ 53 \<Longrightarrow> rnd (of_int i) = of_int i"
  using round_mag_of_int [of i] round_mag_of_int [of "- i"] by (auto simp: rnd_def)

lemma rnd_1 [simp]: "rnd 1 = 1"
  using rnd_of_int [of 1] by simp

lemma rnd_p2: "- 1074 \<le> k \<Longrightarrow> rnd (2 powi k) = 2 powi k"
  using p2_pos [of k] by (simp add: rnd_def round_mag_p2 leD)

lemma rnd_minus: "rnd (- q) = - rnd q"
  by (auto simp: rnd_def)

lemma abs_rnd: "\<bar>rnd q\<bar> = round_mag \<bar>q\<bar>"
proof (cases "q < 0")
  case True
  then have "0 \<le> round_mag (- q)" by simp
  with True show ?thesis by (simp add: rnd_def)
next
  case False
  then have "0 \<le> round_mag q" by simp
  with False show ?thesis by (simp add: rnd_def)
qed

lemma rnd_idem [simp]: "rnd (rnd q) = rnd q"
proof (cases "q < 0")
  case True
  then have "rnd (rnd q) = rnd (- round_mag (- q))" by (simp add: rnd_def)
  also have "\<dots> = - rnd (round_mag (- q))" by (rule rnd_minus)
  also have "\<dots> = rnd q" using True by (simp add: rnd_def leD)
  finally show ?thesis .
next
  case False
  then show ?thesis by (simp add: rnd_def leD)
qed

lemma abs_rnd_le_p2: "\<bar>q\<bar> \<le> 2 powi k \<Longrightarrow> - 1074 \<le> k \<Longrightarrow> \<bar>rnd q\<bar> \<le> 2 powi k"
  unfolding abs_rnd by (cases "q = 0") (auto intro: round_mag_le_p2)

lemma not_overflowed: "\<bar>q\<bar> \<le> 2 powi 1023 \<Longrightarrow> \<not> overflowed (round_mag \<bar>q\<bar>)"
proof
  assume q: "\<bar>q\<bar> \<le> 2 powi 1023" and o: "overflowed (round_mag \<bar>q\<bar>)"
  then have pos: "0 < round_mag \<bar>q\<bar>"
    by (simp add: overflowed_def order.not_eq_order_implies_strict)
  have "2 powi 1024 \<le> (2::rat) powi (ilog2 (round_mag \<bar>q\<bar>))"
    using o by (simp add: overflowed_def p2_le_iff del: power_int_numeral)
  also have "\<dots> \<le> round_mag \<bar>q\<bar>" by (rule ilog2_bounds(1) [OF pos])
  also have "\<dots> \<le> 2 powi 1023" using q abs_rnd_le_p2 [of q 1023] by (simp add: abs_rnd del: power_int_numeral)
  finally show False by (simp add: p2_le_iff del: power_int_numeral)
qed

text \<open>A number of moderate size rounds to a finite one whose value is the rounding.\<close>

lemma pack_small:
  "\<bar>v\<bar> \<le> 2 powi 1023 \<Longrightarrow> is_finite (pack (v < 0) \<bar>v\<bar>) \<and> f64_val (pack (v < 0) \<bar>v\<bar>) = rnd v"
  using not_overflowed [of v] by (auto simp: pack_def Let_def rnd_def)

lemma f64_of_rat_small:
  "\<bar>v\<bar> \<le> 2 powi 1023 \<Longrightarrow> is_finite (f64_of_rat v) \<and> f64_val (f64_of_rat v) = rnd v"
  unfolding f64_of_rat_def by (rule pack_small)

lemma f64_wf_pack: "0 \<le> q \<Longrightarrow> f64_wf (pack s q)"
  by (simp add: pack_def Let_def)

lemma f64_wf_of_rat [simp]: "f64_wf (f64_of_rat q)"
  by (simp add: f64_of_rat_def f64_wf_pack)

lemma f64_wf_of_int [simp]: "f64_wf (f64_of_int i)"
  by (simp add: f64_of_int_def)

lemma round_mag_0_wf [simp]: "\<not> overflowed 0"
  by (simp add: overflowed_def)

lemma f64_wf_ops:
  "f64_wf x \<Longrightarrow> f64_wf y \<Longrightarrow> f64_wf (f64_add x y)"
  "f64_wf x \<Longrightarrow> f64_wf y \<Longrightarrow> f64_wf (f64_mul x y)"
  "f64_wf x \<Longrightarrow> f64_wf y \<Longrightarrow> f64_wf (f64_div x y)"
  by (cases x; cases y; simp add: f64_wf_pack Let_def)+

lemma f64_val_wf: "f64_wf x \<Longrightarrow> is_finite x \<Longrightarrow> rnd (f64_val x) = f64_val x"
  by (cases x) (auto simp: rnd_def round_mag_def)

text \<open>The order: transitive, irreflexive, total on numbers.\<close>

lemma f64_lt_le_trans: "f64_lt x y \<Longrightarrow> f64_le y z \<Longrightarrow> f64_lt x z"
  by (cases x; cases y; cases z) (auto split: if_splits)

lemma f64_le_lt_trans: "f64_le x y \<Longrightarrow> f64_lt y z \<Longrightarrow> f64_lt x z"
  by (cases x; cases y; cases z) (auto split: if_splits)

lemma f64_le_trans: "f64_le x y \<Longrightarrow> f64_le y z \<Longrightarrow> f64_le x z"
  by (cases x; cases y; cases z) (auto split: if_splits)

lemma f64_lt_imp_le: "f64_lt x y \<Longrightarrow> f64_le x y"
  by (cases x; cases y) auto

lemma f64_lt_irrefl [simp]: "\<not> f64_lt x x"
  by (cases x) auto

lemma f64_not_lt: "x \<noteq> NaN \<Longrightarrow> y \<noteq> NaN \<Longrightarrow> (\<not> f64_lt x y) = f64_le y x"
  by (cases x; cases y) auto

lemma f64_lt_finite: "is_finite x \<Longrightarrow> is_finite y \<Longrightarrow> f64_lt x y = (f64_val x < f64_val y)"
  by (cases x; cases y) simp_all

lemma f64_le_finite: "is_finite x \<Longrightarrow> is_finite y \<Longrightarrow> f64_le x y = (f64_val x \<le> f64_val y)"
  by (cases x; cases y) simp_all

lemma f64_lt_not_NaN: "f64_lt x y \<Longrightarrow> x \<noteq> NaN \<and> y \<noteq> NaN"
  by (cases x; cases y) auto

lemma is_finite_not_NaN: "is_finite x \<Longrightarrow> x \<noteq> NaN"
  by auto

section \<open>Quotients and sums of finite numbers\<close>

lemma f64_div_small:
  assumes "is_finite x" "is_finite y" "f64_wf x" "f64_wf y" "f64_val y \<noteq> 0"
    and "\<bar>f64_val x / f64_val y\<bar> \<le> 2 powi 1023"
  shows "is_finite (f64_div x y) \<and> f64_val (f64_div x y) = rnd (f64_val x / f64_val y)"
proof -
  obtain s p t q where xy: "x = Fin s p" "y = Fin t q" using assms by (cases x; cases y) auto
  have nn: "0 \<le> p" "0 < q" using assms by (auto simp: xy split: if_splits)
  then have a: "\<bar>f64_val x / f64_val y\<bar> = p / q" by (auto simp: xy)
  have "\<not> overflowed (round_mag (p / q))" using not_overflowed [OF assms(6)] unfolding a .
  then have *: "f64_div x y = Fin (s \<noteq> t) (round_mag (p / q))"
    using nn by (simp add: xy pack_def Let_def)
  have "rnd (f64_val x / f64_val y) = (if s \<noteq> t then rnd (- (p / q)) else rnd (p / q))"
    by (auto simp: xy)
  also have "\<dots> = f64_val (f64_div x y)"
    using nn by (simp add: * rnd_minus) (simp add: rnd_def leD)
  finally show ?thesis by (simp add: *)
qed

lemma f64_add_small:
  assumes "is_finite x" "is_finite y" "\<bar>f64_val x + f64_val y\<bar> \<le> 2 powi 1023"
  shows "is_finite (f64_add x y) \<and> f64_val (f64_add x y) = rnd (f64_val x + f64_val y)"
proof -
  obtain s p t q where xy: "x = Fin s p" "y = Fin t q" using assms by (cases x; cases y) auto
  show ?thesis
  proof (cases "f64_val x + f64_val y = 0")
    case True
    then show ?thesis by (simp add: xy)
  next
    case False
    then show ?thesis using pack_small [OF assms(3)] by (simp add: xy Let_def)
  qed
qed

section \<open>Lower bounds survive sums and quotients\<close>

lemma rnd_nonneg_form: "0 \<le> q \<Longrightarrow> rnd q = round_mag q"
  by (simp add: rnd_def)

lemma f64_le_pack:
  assumes "0 < b" "round_mag b = b" "b \<le> v"
  shows "f64_le (Fin False b) (pack False v)"
  using assms round_mag_mono [of b v] by (simp add: pack_def Let_def)

lemma f64_add_ge:
  assumes "f64_le (Fin False (of_nat a)) x" "f64_le (Fin False 1) y" "a < 2 ^ 53"
  shows "f64_le (Fin False (of_nat (Suc a))) (f64_add x y)"
proof (cases "is_finite x \<and> is_finite y")
  case True
  then obtain s p t q where xy: "x = Fin s p" "y = Fin t q" by (cases x; cases y) auto
  let ?v = "f64_val x + f64_val y"
  have v: "of_nat (Suc a) \<le> ?v" using assms(1,2) by (simp add: xy)
  then have "0 < ?v" by (auto intro: less_le_trans [of _ "of_nat (Suc a)"])
  then have "f64_add x y = pack False ?v" by (simp add: xy Let_def)
  moreover have "round_mag (of_int (int (Suc a))) = of_int (int (Suc a))"
    using assms(3) by (intro round_mag_of_int) auto
  ultimately show ?thesis using f64_le_pack [of "of_nat (Suc a)"] v by simp
next
  case False
  with assms(1,2) show ?thesis by (cases x; cases y) auto
qed

lemma foldl_f64_add_ge:
  assumes "f64_le (Fin False (of_nat a)) x" "list_all (f64_le (Fin False 1)) ys"
    "a + length ys \<le> 2 ^ 53"
  shows "f64_le (Fin False (of_nat (a + length ys))) (foldl f64_add x ys)"
  using assms
proof (induction ys arbitrary: a x)
  case (Cons y ys)
  then have "f64_le (Fin False (of_nat (Suc a))) (f64_add x y)" by (intro f64_add_ge) auto
  from Cons.IH [OF this] Cons.prems show ?case by simp
qed simp

lemma f64_of_int_exact:
  assumes "0 \<le> k" "k \<le> 2 ^ 53"
  shows "f64_of_int k = Fin False (of_int k)"
proof -
  have "(of_int k :: rat) \<le> of_int (2 ^ 53)" using assms(2) by (simp only: of_int_le_iff)
  then have "\<bar>of_int k :: rat\<bar> \<le> 2 powi 53" using assms(1) by simp
  then have "\<bar>of_int k :: rat\<bar> \<le> 2 powi 1023"
    using p2_le_iff [of 53 1023] by (auto simp del: power_int_numeral intro: order.trans)
  from not_overflowed [OF this] show ?thesis
    using assms by (simp add: f64_of_int_def f64_of_rat_def pack_def round_mag_of_int)
qed

lemma f64_wf_foldl: "f64_wf x \<Longrightarrow> list_all f64_wf ys \<Longrightarrow> f64_wf (foldl f64_add x ys)"
  by (induction ys arbitrary: x) (auto intro: f64_wf_ops)

lemma f64_wf_sum: "list_all f64_wf xs \<Longrightarrow> f64_wf (f64_sum xs)"
  by (simp add: f64_sum_def f64_wf_foldl)

lemma f64_not_lt_via: "f64_le m x \<Longrightarrow> f64_le t m \<Longrightarrow> \<not> f64_lt x t"
  by (metis f64_le_trans f64_lt_irrefl f64_lt_le_trans)

section \<open>Exact sums of numbers on a common grid\<close>

lemma rnd_ge_exact: "0 \<le> w \<Longrightarrow> round_mag w = w \<Longrightarrow> w \<le> q \<Longrightarrow> w \<le> rnd q"
  using rnd_mono [of w q] by (simp add: rnd_nonneg_form)

lemma rnd_le_exact: "0 \<le> w \<Longrightarrow> round_mag w = w \<Longrightarrow> q \<le> w \<Longrightarrow> rnd q \<le> w"
  using rnd_mono [of q w] by (simp add: rnd_nonneg_form)

lemma round_mag_grid: "k \<le> 2 ^ 53 \<Longrightarrow> - 1074 \<le> e \<Longrightarrow> round_mag (of_nat k * 2 powi e) = of_nat k * 2 powi e"
  using round_mag_exact [of "int k" e] by simp

lemma grid_bound: "k \<le> 2 ^ 53 \<Longrightarrow> e \<le> 970 \<Longrightarrow> of_nat k * (2::rat) powi e \<le> 2 powi 1023"
proof -
  assume "k \<le> 2 ^ 53" "e \<le> 970"
  then have "(of_nat k :: rat) \<le> of_nat (2 ^ 53)" "(2::rat) powi e \<le> 2 powi 970"
    by (simp_all only: of_nat_le_iff p2_le_iff)
  then have "of_nat k * (2::rat) powi e \<le> 2 powi 53 * 2 powi 970"
    by (intro mult_mono) (simp_all del: power_int_numeral, simp)
  then show ?thesis using p2_add [of 53 970] by (simp del: power_int_numeral)
qed

lemma pack_grid:
  assumes "k \<le> 2 ^ 53" "- 1074 \<le> e" "e \<le> 970"
  shows "pack s (of_nat k * 2 powi e) = Fin s (of_nat k * 2 powi e)"
  using not_overflowed [of "of_nat k * 2 powi e"] grid_bound [OF assms(1,3)]
  by (simp add: pack_def Let_def round_mag_grid [OF assms(1,2)] abs_of_nonneg)

lemma f64_add_pos:
  assumes "0 < f64_val (Fin s p) + f64_val (Fin t q)"
  shows "f64_add (Fin s p) (Fin t q) = pack False (f64_val (Fin s p) + f64_val (Fin t q))"
proof -
  let ?v = "f64_val (Fin s p) + f64_val (Fin t q)"
  have "?v \<noteq> 0" using assms by linarith
  moreover have "\<not> ?v < 0" using assms by (rule less_not_sym)
  moreover have "\<bar>?v\<bar> = ?v" by (rule abs_of_pos [OF assms])
  ultimately show ?thesis by (simp only: f64_add.simps Let_def if_False)
qed

lemma foldl_grid:
  assumes "a + sum_list ks \<le> 2 ^ 53" "- 1074 \<le> e" "e \<le> 970"
  shows "foldl f64_add (Fin False (of_nat a * 2 powi e)) (map (\<lambda>k. Fin False (of_nat k * 2 powi e)) ks)
       = Fin False (of_nat (a + sum_list ks) * 2 powi e)"
  using assms(1)
proof (induction ks arbitrary: a)
  case (Cons k ks)
  have "f64_add (Fin False (of_nat a * 2 powi e)) (Fin False (of_nat k * 2 powi e))
      = Fin False (of_nat (a + k) * 2 powi e)"
  proof (cases "a + k = 0")
    case False
    have v: "of_nat a * 2 powi e + of_nat k * 2 powi e = of_nat (a + k) * (2::rat) powi e"
      by (simp add: algebra_simps)
    moreover have "0 < of_nat (a + k) * (2::rat) powi e"
      using False by (simp only: zero_less_mult_iff of_nat_0_less_iff p2_pos) simp
    ultimately have "f64_add (Fin False (of_nat a * 2 powi e)) (Fin False (of_nat k * 2 powi e))
        = pack False (of_nat (a + k) * 2 powi e)"
      using f64_add_pos [of False "of_nat a * 2 powi e" False "of_nat k * 2 powi e"]
      by (simp del: f64_add.simps)
    also have "\<dots> = Fin False (of_nat (a + k) * 2 powi e)"
      using Cons.prems assms(2,3) by (intro pack_grid) auto
    finally show ?thesis .
  qed simp
  then show ?case using Cons.IH [of "a + k"] Cons.prems by (simp add: add.assoc)
qed simp

lemma f64_sum_grid:
  assumes "sum_list ks \<le> 2 ^ 53" "- 1074 \<le> e" "e \<le> 970" "ks \<noteq> []"
  shows "f64_sum (map (\<lambda>k. Fin False (of_nat k * 2 powi e)) ks) = Fin False (of_nat (sum_list ks) * 2 powi e)"
proof -
  obtain k ks' where ks: "ks = k # ks'" using assms(4) by (cases ks) auto
  have "f64_add (Fin True 0) (Fin False (of_nat k * 2 powi e)) = Fin False (of_nat k * 2 powi e)"
    using pack_grid [of k e False] assms ks f64_add_pos [of True 0 False "of_nat k * 2 powi e"]
    by (cases "k = 0") (simp_all add: zero_less_mult_iff)
  then show ?thesis using foldl_grid [of k ks' e] assms ks by (simp add: f64_sum_def)
qed

lemma f64_val_literal: "\<bar>q\<bar> \<le> 1 \<Longrightarrow> is_finite (f64_of_rat q) \<and> f64_val (f64_of_rat q) = rnd q"
proof (rule f64_of_rat_small)
  assume "\<bar>q\<bar> \<le> 1"
  moreover have "(1::rat) \<le> 2 powi 1023" using p2_le_iff [of 0 1023] by (simp del: power_int_numeral)
  ultimately show "\<bar>q\<bar> \<le> 2 powi 1023" by (rule order.trans)
qed

lemma small_fractions:
  "round_mag (1 / 2) = 1 / 2" "round_mag (5 / 8) = 5 / 8" "round_mag (11 / 16) = 11 / 16"
  "round_mag (3 / 4) = 3 / 4"
  using round_mag_grid [of 1 "- 1"] round_mag_grid [of 5 "- 3"] round_mag_grid [of 11 "- 4"]
    round_mag_grid [of 3 "- 2"]
  by (simp_all add: power_int_def field_simps)

lemma literal_half: "f64_of_rat (1 / 2) = Fin False (1 / 2)"
  using pack_grid [of 1 "- 1" False] by (simp add: f64_of_rat_def power_int_def field_simps)


section \<open>Sums of numbers the size of a ratio\<close>

lemma two_pow_1023: "of_nat a * (2::rat) powi 127 \<le> 2 powi 1023" if "a \<le> 2 ^ 53"
  using that by (intro grid_bound) auto

lemma f64_add_bounded:
  assumes "is_finite x" "\<bar>f64_val x\<bar> \<le> of_nat a * 2 powi 127"
    "is_finite y" "\<bar>f64_val y\<bar> \<le> 2 powi 127" "a < 2 ^ 53"
  shows "is_finite (f64_add x y) \<and> \<bar>f64_val (f64_add x y)\<bar> \<le> of_nat (Suc a) * 2 powi 127"
proof -
  let ?v = "f64_val x + f64_val y" and ?B = "of_nat (Suc a) * (2::rat) powi 127"
  have "\<bar>?v\<bar> \<le> \<bar>f64_val x\<bar> + \<bar>f64_val y\<bar>" by (rule abs_triangle_ineq)
  also have "\<dots> \<le> of_nat a * 2 powi 127 + 2 powi 127" using assms by (intro add_mono)
  also have "\<dots> = ?B" by (simp add: algebra_simps)
  finally have v: "\<bar>?v\<bar> \<le> ?B" .
  have "?B \<le> 2 powi 1023" using assms(5) by (intro two_pow_1023) simp
  with v have "\<bar>?v\<bar> \<le> 2 powi 1023" by (rule order.trans)
  then have *: "is_finite (f64_add x y) \<and> f64_val (f64_add x y) = rnd ?v"
    by (rule f64_add_small [OF assms(1,3)])
  have "\<bar>rnd ?v\<bar> = round_mag \<bar>?v\<bar>" by (rule abs_rnd)
  also have "\<dots> \<le> round_mag ?B" using v by (intro round_mag_mono) auto
  also have "\<dots> = ?B" using assms(5) by (intro round_mag_grid) auto
  finally show ?thesis using * by simp
qed

definition ratio_sized :: "f64 \<Rightarrow> bool" where
  "ratio_sized x \<longleftrightarrow> is_finite x \<and> f64_wf x \<and> \<bar>f64_val x\<bar> \<le> 2 powi 127"

lemma foldl_f64_add_bounded:
  assumes "is_finite x" "\<bar>f64_val x\<bar> \<le> of_nat a * 2 powi 127" "list_all ratio_sized ys"
    "a + length ys \<le> 2 ^ 53"
  shows "is_finite (foldl f64_add x ys) \<and>
    \<bar>f64_val (foldl f64_add x ys)\<bar> \<le> of_nat (a + length ys) * 2 powi 127"
  using assms
proof (induction ys arbitrary: x a)
  case (Cons y ys)
  then have "is_finite (f64_add x y) \<and> \<bar>f64_val (f64_add x y)\<bar> \<le> of_nat (Suc a) * 2 powi 127"
    by (intro f64_add_bounded) (auto simp: ratio_sized_def)
  then show ?case using Cons.IH [of "f64_add x y" "Suc a"] Cons.prems by simp
qed simp

lemma f64_sum_finite:
  "list_all ratio_sized xs \<Longrightarrow> length xs \<le> 2 ^ 53 \<Longrightarrow>
   is_finite (f64_sum xs) \<and> \<bar>f64_val (f64_sum xs)\<bar> \<le> of_nat (length xs) * 2 powi 127"
  using foldl_f64_add_bounded [of "Fin True 0" 0 xs] by (simp add: f64_sum_def)

text \<open>The sum is monotone in its summands, rounding and all.\<close>

lemma f64_add_le:
  assumes "f64_le x y" "f64_le u v" "is_finite x" "is_finite y" "is_finite u" "is_finite v"
    "\<bar>f64_val x\<bar> \<le> of_nat a * 2 powi 127" "\<bar>f64_val y\<bar> \<le> of_nat a * 2 powi 127"
    "\<bar>f64_val u\<bar> \<le> 2 powi 127" "\<bar>f64_val v\<bar> \<le> 2 powi 127" "a < 2 ^ 53"
  shows "f64_le (f64_add x u) (f64_add y v)"
proof -
  have le: "\<bar>f64_val s + f64_val t\<bar> \<le> 2 powi 1023"
    if "\<bar>f64_val s\<bar> \<le> of_nat a * 2 powi 127" "\<bar>f64_val t\<bar> \<le> 2 powi 127" for s t
  proof -
    have "\<bar>f64_val s + f64_val t\<bar> \<le> of_nat (Suc a) * 2 powi 127"
      using that abs_triangle_ineq [of "f64_val s" "f64_val t"] by (simp add: algebra_simps)
    also have "\<dots> \<le> 2 powi 1023" using assms(11) by (intro two_pow_1023) simp
    finally show ?thesis .
  qed
  have "rnd (f64_val x + f64_val u) \<le> rnd (f64_val y + f64_val v)"
    using assms(1-6) by (intro rnd_mono) (simp add: f64_le_finite)
  then show ?thesis
    using f64_add_small [OF assms(3,5) le] f64_add_small [OF assms(4,6) le] assms
    by (simp add: f64_le_finite)
qed

lemma f64_sum_mono:
  assumes "list_all2 f64_le xs ys" "list_all ratio_sized xs" "list_all ratio_sized ys"
    "length xs \<le> 2 ^ 53"
  shows "f64_le (f64_sum xs) (f64_sum ys)"
proof -
  have "f64_le (foldl f64_add x xs) (foldl f64_add y ys)"
    if "f64_le x y" "is_finite x" "is_finite y" "a + length xs \<le> 2 ^ 53"
      "\<bar>f64_val x\<bar> \<le> of_nat a * 2 powi 127" "\<bar>f64_val y\<bar> \<le> of_nat a * 2 powi 127" for x y a
    using assms(1-3) that
  proof (induction arbitrary: x y a rule: list_all2_induct)
    case (Cons u us v vs)
    note add = f64_add_bounded [of x a u] f64_add_bounded [of y a v]
    have n: "a < 2 ^ 53" "Suc a + length us \<le> 2 ^ 53" using Cons.prems by auto
    have u: "is_finite u" "\<bar>f64_val u\<bar> \<le> 2 powi 127" and v: "is_finite v" "\<bar>f64_val v\<bar> \<le> 2 powi 127"
      using Cons.prems by (auto simp: ratio_sized_def)
    have "f64_le (f64_add x u) (f64_add y v)"
      using Cons.prems Cons.hyps u v n by (intro f64_add_le [of _ _ _ _ a]) auto
    then show ?case
      using Cons.IH [of "f64_add x u" "f64_add y v" "Suc a"] Cons.prems n u v add by simp
  qed simp
  from this [of "Fin True 0" "Fin True 0" 0] show ?thesis using assms(4) by (simp add: f64_sum_def)
qed

end
