(* ===== verification/Core_Types.thy ===== *)
theory Core_Types
  imports DB_Prelude Float64
begin

text \<open>
  The crate \<^verbatim>\<open>driftbrake-core\<close>: its data types (\<^verbatim>\<open>core/src/types.rs\<close>, \<^verbatim>\<open>core/src/error.rs\<close>), the
  reconciliation history with its queries, and the \<^verbatim>\<open>HaltPolicy\<close> trait as a locale. A fixed
  array of 32 (20) bytes is its big-endian reading, a word of 256 (160) bits.
\<close>

declare of_int_sint [simp del]

section \<open>Data\<close>

type_synonym hash32 = "256 word"
type_synonym address20 = "160 word"

datatype PredictedProfit = PredictedProfit (predicted_wei: i128)

datatype RealizedProfit = RealizedProfit (realized_wei: i128)

text \<open>The derived \<^verbatim>\<open>Ord\<close> of the two amounts compares the signed integers.\<close>

instantiation PredictedProfit :: linorder
begin

definition less_eq_PredictedProfit :: "PredictedProfit \<Rightarrow> PredictedProfit \<Rightarrow> bool" where
  "less_eq_PredictedProfit p q \<longleftrightarrow> sint (predicted_wei p) \<le> sint (predicted_wei q)"

definition less_PredictedProfit :: "PredictedProfit \<Rightarrow> PredictedProfit \<Rightarrow> bool" where
  "less_PredictedProfit p q \<longleftrightarrow> sint (predicted_wei p) < sint (predicted_wei q)"

instance
  by standard
    (auto simp: less_eq_PredictedProfit_def less_PredictedProfit_def intro!: PredictedProfit.expand signed_word_eqI [where 'a = int])

end

instantiation RealizedProfit :: linorder
begin

definition less_eq_RealizedProfit :: "RealizedProfit \<Rightarrow> RealizedProfit \<Rightarrow> bool" where
  "less_eq_RealizedProfit p q \<longleftrightarrow> sint (realized_wei p) \<le> sint (realized_wei q)"

definition less_RealizedProfit :: "RealizedProfit \<Rightarrow> RealizedProfit \<Rightarrow> bool" where
  "less_RealizedProfit p q \<longleftrightarrow> sint (realized_wei p) < sint (realized_wei q)"

instance
  by standard
    (auto simp: less_eq_RealizedProfit_def less_RealizedProfit_def intro!: RealizedProfit.expand signed_word_eqI [where 'a = int])

end

record Log =
  log_address :: bytes
  log_topics :: "hash32 list"
  log_data :: bytes

datatype TxStatus = TxConfirmed | TxReverted

record TxReceipt =
  rc_tx_hash :: hash32
  rc_block_number :: u64
  rc_status :: TxStatus
  rc_gas_used :: u64
  rc_effective_gas_price :: u128

record RawSimOutput =
  so_return_data :: bytes
  so_gas_used :: u64
  so_revert_reason :: "bytes option"
  so_logs :: "Log list"

record RevertEvent =
  rv_tx_hash :: hash32
  rv_block_number :: u64
  rv_reason :: "bytes option"
  rv_gas_used :: u64
  rv_effective_gas_price :: u128

datatype HistoryEntry =
    ConfirmedPair PredictedProfit RealizedProfit
  | RevertedTx RevertEvent

record ReconcileHistory =
  timeline :: "HistoryEntry list"
  pairs :: "(PredictedProfit \<times> RealizedProfit) list"
  reverts :: "RevertEvent list"

datatype HaltReason =
    FastGuard "f64 list" f64
  | SlowGuard f64 nat f64
  | RevertBurst nat nat
  | RevertGasBudgetExceeded u128 u128 nat
  | VolumeWeightedDrift f64 f64 nat
  | NetDrawdownExceeded i128 i128 nat
  | Custom bytes

datatype HaltDecision = Continue | Halt HaltReason

datatype DecodeError =
    DecodeReverted
  | MalformedData bytes
  | MissingProfitEvent
  | DecodeOther bytes

text \<open>The boxed backend error of \<^verbatim>\<open>SimError\<close> is opaque, hence a type parameter.\<close>

datatype 'e SimError = SimTimeout nat | SimBackend 'e

section \<open>Durations\<close>

text \<open>
  An instant and a \<^verbatim>\<open>Duration\<close> count nanoseconds; timeouts are computed in \<^verbatim>\<open>f64\<close> and cast.
\<close>

type_synonym duration = nat

definition duration_from_millis :: "u64 \<Rightarrow> duration" where
  "duration_from_millis ms = unat ms * 1000000"

definition f64_as_u64 :: "f64 \<Rightarrow> u64" where
  "f64_as_u64 x = word_of_int (f64_as_int 0 (2 ^ 64 - 1) x)"

text \<open>Half of a number of milliseconds below \<open>2 ^ 53\<close>, as the timeouts compute it, is exact.\<close>

lemma half_millis:
  assumes "unat b \<le> 2 ^ 53"
  shows "duration_from_millis (f64_as_u64 (f64_mul (f64_of_int (uint (b :: u64))) (f64_of_rat (1 / 2))))
       = (unat b div 2) * 1000000"
proof -
  have "f64_of_int (int m) = Fin False (of_nat m)" if "m \<le> 2 ^ 53" for m
    using that f64_of_int_exact [of "int m"] by simp
  then have b: "f64_of_int (uint b) = Fin False (of_nat (unat b))"
    using assms unfolding uint_nat by blast
  have "f64_mul (f64_of_int (uint b)) (Fin False (1 / 2)) = Fin False (of_nat (unat b) / 2)"
    using pack_grid [of "unat b" "- 1" False] assms by (simp add: b power_int_def field_simps)
  moreover have "\<lfloor>of_nat (unat b) / (2::rat)\<rfloor> = int (unat b div 2)"
    by (metis floor_divide_of_nat_eq of_nat_numeral)
  moreover have "unat b div 2 < 2 ^ 64" using unsigned_less [of b, where 'a = nat] by simp
  ultimately show ?thesis
    by (simp add: literal_half f64_as_u64_def duration_from_millis_def unat_of_nat)
qed

section \<open>The history\<close>

definition history_new :: ReconcileHistory where
  "history_new = \<lparr>timeline = [], pairs = [], reverts = []\<rparr>"

definition history_append ::
  "ReconcileHistory \<Rightarrow> PredictedProfit \<Rightarrow> RealizedProfit \<Rightarrow> ReconcileHistory" where
  "history_append h predicted realized =
     h\<lparr>timeline := timeline h @ [ConfirmedPair predicted realized],
       pairs := pairs h @ [(predicted, realized)]\<rparr>"

definition history_record_revert :: "ReconcileHistory \<Rightarrow> RevertEvent \<Rightarrow> ReconcileHistory" where
  "history_record_revert h event =
     h\<lparr>timeline := timeline h @ [RevertedTx event], reverts := reverts h @ [event]\<rparr>"

text \<open>The loop over the reversed timeline, with its \<^verbatim>\<open>break\<close> at the first confirmed pair.\<close>

fun count_reverts :: "nat \<Rightarrow> HistoryEntry list \<Rightarrow> nat" where
  "count_reverts count [] = count"
| "count_reverts count (RevertedTx e # es) = count_reverts (count + 1) es"
| "count_reverts count (ConfirmedPair p r # es) = count"

definition consecutive_reverts :: "ReconcileHistory \<Rightarrow> nat" where
  "consecutive_reverts h = count_reverts 0 (rev (timeline h))"

definition revert_gas_cost :: "profile \<Rightarrow> RevertEvent \<Rightarrow> u128 option" where
  "revert_gas_cost pf e = u_mul pf (ucast (rv_gas_used e)) (rv_effective_gas_price e)"

fun revert_events :: "HistoryEntry list \<Rightarrow> RevertEvent list" where
  "revert_events [] = []"
| "revert_events (RevertedTx e # es) = e # revert_events es"
| "revert_events (ConfirmedPair p r # es) = revert_events es"

definition recent_revert_gas_burned :: "profile \<Rightarrow> ReconcileHistory \<Rightarrow> nat \<Rightarrow> u128 option" where
  "recent_revert_gas_burned pf h window =
     do { costs \<leftarrow> map_run (revert_gas_cost pf) (revert_events (take window (rev (timeline h))));
          u_sum pf costs }"

definition positive_prediction :: "PredictedProfit \<times> RealizedProfit \<Rightarrow> bool" where
  "positive_prediction pr = (0 < sint (predicted_wei (fst pr)))"

definition pair_ratio :: "PredictedProfit \<times> RealizedProfit \<Rightarrow> f64" where
  "pair_ratio pr =
     f64_div (f64_of_int (sint (realized_wei (snd pr)))) (f64_of_int (sint (predicted_wei (fst pr))))"

definition recent_ratios :: "ReconcileHistory \<Rightarrow> nat \<Rightarrow> f64 list" where
  "recent_ratios h n = rev (map pair_ratio (take n (filter positive_prediction (rev (pairs h)))))"

section \<open>The timeline determines the history\<close>

text \<open>
  The contract of \<^verbatim>\<open>ReconcileHistory\<close>: the two pools are the projections of the timeline. A
  history is therefore the abstract list of its entries, and the operations append to it.
\<close>

fun confirmed_pairs :: "HistoryEntry list \<Rightarrow> (PredictedProfit \<times> RealizedProfit) list" where
  "confirmed_pairs [] = []"
| "confirmed_pairs (ConfirmedPair p r # es) = (p, r) # confirmed_pairs es"
| "confirmed_pairs (RevertedTx e # es) = confirmed_pairs es"

definition history_of :: "HistoryEntry list \<Rightarrow> ReconcileHistory" where
  "history_of es = \<lparr>timeline = es, pairs = confirmed_pairs es, reverts = revert_events es\<rparr>"

definition history_ok :: "ReconcileHistory \<Rightarrow> bool" where
  "history_ok h \<longleftrightarrow> pairs h = confirmed_pairs (timeline h) \<and> reverts h = revert_events (timeline h)"

primrec history_push :: "ReconcileHistory \<Rightarrow> HistoryEntry \<Rightarrow> ReconcileHistory" where
  "history_push h (ConfirmedPair p r) = history_append h p r"
| "history_push h (RevertedTx e) = history_record_revert h e"

lemma confirmed_pairs_append [simp]:
  "confirmed_pairs (xs @ ys) = confirmed_pairs xs @ confirmed_pairs ys"
  by (induction xs rule: confirmed_pairs.induct) auto

lemma revert_events_append [simp]: "revert_events (xs @ ys) = revert_events xs @ revert_events ys"
  by (induction xs rule: revert_events.induct) auto

lemma history_ok_iff: "history_ok h \<longleftrightarrow> h = history_of (timeline h)"
  by (cases h) (auto simp: history_ok_def history_of_def)

lemma timeline_simps [simp]:
  "timeline history_new = []"
  "timeline (history_append h p r) = timeline h @ [ConfirmedPair p r]"
  "timeline (history_record_revert h e) = timeline h @ [RevertedTx e]"
  "pairs history_new = []"
  "pairs (history_append h p r) = pairs h @ [(p, r)]"
  "pairs (history_record_revert h e) = pairs h"
  "reverts history_new = []"
  "reverts (history_append h p r) = reverts h"
  "reverts (history_record_revert h e) = reverts h @ [e]"
  "timeline (history_of es) = es"
  "pairs (history_of es) = confirmed_pairs es"
  "reverts (history_of es) = revert_events es"
  by (simp_all add: history_new_def history_append_def history_record_revert_def history_of_def)

lemma history_of_Nil: "history_of [] = history_new"
  by (simp add: history_of_def history_new_def)

lemma history_of_snoc: "history_of (es @ [e]) = history_push (history_of es) e"
  by (cases e) (simp_all add: history_of_def history_append_def history_record_revert_def)

lemma history_ok_ops [intro]:
  "history_ok history_new"
  "history_ok h \<Longrightarrow> history_ok (history_append h p r)"
  "history_ok h \<Longrightarrow> history_ok (history_record_revert h e)"
  by (auto simp: history_ok_def)

lemma history_ok_push: "history_ok h \<Longrightarrow> history_ok (history_push h e)"
  by (cases e) auto

lemma history_of_ok [simp]: "history_ok (history_of es)"
  by (simp add: history_ok_def)

lemma fold_history_push: "foldl history_push (history_of es) fs = history_of (es @ fs)"
  by (induction fs arbitrary: es) (simp_all flip: history_of_snoc)

section \<open>Consecutive reverts\<close>

primrec is_revert :: "HistoryEntry \<Rightarrow> bool" where
  "is_revert (ConfirmedPair p r) = False"
| "is_revert (RevertedTx e) = True"

lemma count_reverts_takeWhile: "count_reverts n es = n + length (takeWhile is_revert es)"
  by (induction n es rule: count_reverts.induct) auto

lemma consecutive_reverts_eq:
  "consecutive_reverts h = length (takeWhile is_revert (rev (timeline h)))"
  by (simp add: consecutive_reverts_def count_reverts_takeWhile)

lemma consecutive_reverts_cong:
  assumes "map is_revert (timeline h) = map is_revert (timeline h')"
  shows "consecutive_reverts h = consecutive_reverts h'"
proof -
  have "length (takeWhile is_revert es) = length (takeWhile id (map is_revert es))" for es
    by (simp add: takeWhile_map)
  moreover have "map is_revert (rev (timeline h)) = map is_revert (rev (timeline h'))"
    using assms by (simp flip: rev_map)
  ultimately show ?thesis by (simp only: consecutive_reverts_eq)
qed

lemma consecutive_reverts_ops [simp]:
  "consecutive_reverts history_new = 0"
  "consecutive_reverts (history_append h p r) = 0"
  "consecutive_reverts (history_record_revert h e) = Suc (consecutive_reverts h)"
  by (simp_all add: consecutive_reverts_eq)

text \<open>The count is the length of the longest run of reverts that ends the timeline.\<close>

lemma consecutive_reverts_ge_iff:
  "k \<le> consecutive_reverts h \<longleftrightarrow>
     k \<le> length (timeline h) \<and> list_all is_revert (drop (length (timeline h) - k) (timeline h))"
proof -
  have "k \<le> length (takeWhile is_revert xs) \<longleftrightarrow> k \<le> length xs \<and> list_all is_revert (take k xs)" for xs
  proof (induction xs arbitrary: k)
    case (Cons x xs)
    then show ?case by (cases k) auto
  qed simp
  from this [of "rev (timeline h)"] show ?thesis
    by (simp add: consecutive_reverts_eq take_rev list_all_rev)
qed

section \<open>Gas burned on reverts\<close>

definition gas_cost_exact :: "RevertEvent \<Rightarrow> nat" where
  "gas_cost_exact e = unat (rv_gas_used e) * unat (rv_effective_gas_price e)"

definition gas_burned_exact :: "ReconcileHistory \<Rightarrow> nat \<Rightarrow> nat" where
  "gas_burned_exact h window =
     sum_list (map gas_cost_exact (revert_events (take window (rev (timeline h)))))"

lemma u_mul_gas:
  "revert_gas_cost pf e =
     (if pf = Debug \<and> 2 ^ 128 \<le> gas_cost_exact e then panic else Some (word_of_nat (gas_cost_exact e)))"
proof -
  let ?g = "ucast (rv_gas_used e) :: u128" and ?p = "rv_effective_gas_price e"
  have "unat (rv_gas_used e) < 2 ^ 64" using unsigned_less [of "rv_gas_used e"] by simp
  then have g: "unat ?g = unat (rv_gas_used e)"
    by (simp add: unsigned_ucast_eq take_bit_nat_eq_self_iff)
  have w: "?g * ?p = word_of_nat (gas_cost_exact e)"
    by (simp add: gas_cost_exact_def flip: g)
  have "unat (?g * ?p) = unat ?g * unat ?p \<longleftrightarrow> gas_cost_exact e < 2 ^ 128"
    using unat_mult_lem [of ?g ?p] by (simp add: gas_cost_exact_def g)
  then show ?thesis by (simp add: revert_gas_cost_def u_mul_def w not_less)
qed


lemma sum_word_of_nat: "sum_list (map (\<lambda>x. word_of_nat (f x) :: 'a::len word) xs) = word_of_nat (sum_list (map f xs))"
  by (induction xs) auto

text \<open>
  The queue of costs is evaluated exactly up to the first overflow: a debug build panics exactly
  when the true total does not fit, a release build returns the total modulo \<open>2 ^ 128\<close>.
\<close>

lemma recent_revert_gas_burned_eq:
  "recent_revert_gas_burned pf h window =
     (if pf = Debug \<and> 2 ^ 128 \<le> gas_burned_exact h window then panic
      else Some (word_of_nat (gas_burned_exact h window)))"
proof -
  let ?es = "revert_events (take window (rev (timeline h)))"
  let ?c = "\<lambda>e. word_of_nat (gas_cost_exact e) :: u128"
  have T: "gas_burned_exact h window = sum_list (map gas_cost_exact ?es)"
    by (simp add: gas_burned_exact_def)
  show ?thesis
  proof (cases "pf = Debug \<and> (\<exists>e \<in> set ?es. 2 ^ 128 \<le> gas_cost_exact e)")
    case True
    then have "map_run (revert_gas_cost pf) ?es = None"
      unfolding map_run_None_iff by (auto simp: u_mul_gas)
    moreover have "2 ^ 128 \<le> gas_burned_exact h window"
      using True unfolding T by (auto intro: order.trans [OF _ member_le_sum_list])
    ultimately show ?thesis using True by (simp add: recent_revert_gas_burned_def)
  next
    case False
    then have r: "map_run (revert_gas_cost pf) ?es = Some (map ?c ?es)"
      by (intro map_run_total) (auto simp: u_mul_gas)
    have "pf = Debug \<Longrightarrow> sum_list (map (unat \<circ> ?c) ?es) = sum_list (map gas_cost_exact ?es)"
      using False by (intro arg_cong [where f = sum_list] map_cong) (auto simp: unat_of_nat not_le)
    then show ?thesis
      by (simp add: recent_revert_gas_burned_def r u_sum_eq T sum_word_of_nat cong: conj_cong)
  qed
qed

section \<open>Ratios\<close>

lemma recent_ratios_lastn:
  "recent_ratios h n =
     (let rs = map pair_ratio (filter positive_prediction (pairs h)) in drop (length rs - n) rs)"
  by (simp add: recent_ratios_def Let_def rev_filter rev_map take_rev drop_map flip: rev_filter)

lemma length_recent_ratios:
  "length (recent_ratios h n) = min n (length (filter positive_prediction (pairs h)))"
  by (simp add: recent_ratios_lastn Let_def)

lemma recent_ratios_revert [simp]: "recent_ratios (history_record_revert h e) n = recent_ratios h n"
  by (simp add: recent_ratios_def)

lemma recent_ratios_nonpositive:
  "\<not> 0 < sint (predicted_wei p) \<Longrightarrow> recent_ratios (history_append h p r) n = recent_ratios h n"
  by (simp add: recent_ratios_def positive_prediction_def)

lemma recent_ratios_append:
  "0 < sint (predicted_wei p) \<Longrightarrow>
   recent_ratios (history_append h p r) (Suc n) = recent_ratios h n @ [pair_ratio (p, r)]"
  by (simp add: recent_ratios_def positive_prediction_def)

lemma recent_ratios_mem:
  "x \<in> set (recent_ratios h n) \<Longrightarrow>
   \<exists>pr \<in> set (pairs h). positive_prediction pr \<and> x = pair_ratio pr"
  by (auto simp: recent_ratios_def dest!: in_set_takeD)

text \<open>A 128-bit integer is far inside the range of \<^verbatim>\<open>f64\<close>, so no cast overflows.\<close>

lemma i128_bounds: "\<bar>of_int (sint (x :: i128))\<bar> \<le> (2::rat) powi 127"
proof -
  have "- (2 ^ 127) \<le> sint x" "sint x < 2 ^ 127"
    using sint_greater_eq [of x] sint_less [of x] by simp_all
  then have "\<bar>sint x\<bar> \<le> 2 ^ 127" by simp
  then have "(of_int \<bar>sint x\<bar> :: rat) \<le> of_int (2 ^ 127)" by (simp only: of_int_le_iff)
  then show ?thesis by simp
qed

lemma i128_as_f64:
  "is_finite (f64_of_int (sint (x :: i128)))"
  "f64_val (f64_of_int (sint x)) = rnd (of_int (sint x))"
proof -
  have "\<bar>of_int (sint x)\<bar> \<le> (2::rat) powi 1023"
    using i128_bounds [of x] p2_le_iff [of 127 1023] by (auto simp del: power_int_numeral)
  then show "is_finite (f64_of_int (sint x))" "f64_val (f64_of_int (sint x)) = rnd (of_int (sint x))"
    using f64_of_rat_small by (auto simp: f64_of_int_def)
qed

lemma rnd_positive_int: "0 < k \<Longrightarrow> 1 \<le> rnd (of_int k)"
  using rnd_mono [of 1 "of_int k"] by simp

text \<open>
  The cast quotient of two 128-bit integers, the divisor positive: a finite number, the rounding
  of the quotient of the rounded operands.
\<close>

lemma i128_quotient:
  fixes r p :: i128
  assumes "0 < sint p"
  shows "is_finite (f64_div (f64_of_int (sint r)) (f64_of_int (sint p)))"
    and "f64_val (f64_div (f64_of_int (sint r)) (f64_of_int (sint p)))
           = rnd (rnd (of_int (sint r)) / rnd (of_int (sint p)))"
proof -
  let ?x = "f64_of_int (sint r)" and ?y = "f64_of_int (sint p)"
  have y: "1 \<le> f64_val ?y" using assms by (simp add: i128_as_f64 rnd_positive_int)
  have "\<bar>f64_val ?x\<bar> \<le> 2 powi 127"
    using i128_bounds [of r] by (auto simp: i128_as_f64 intro!: abs_rnd_le_p2 simp del: power_int_numeral)
  moreover have "\<bar>f64_val ?x / f64_val ?y\<bar> \<le> \<bar>f64_val ?x\<bar>"
    using y by (auto simp: abs_divide divide_le_eq mult_le_cancel_left1)
  moreover have "(2::rat) powi 127 \<le> 2 powi 1023" by (simp add: p2_le_iff del: power_int_numeral)
  ultimately have "\<bar>f64_val ?x / f64_val ?y\<bar> \<le> 2 powi 1023" by linarith
  then have "is_finite (f64_div ?x ?y) \<and> f64_val (f64_div ?x ?y) = rnd (f64_val ?x / f64_val ?y)"
    using y by (intro f64_div_small) (auto simp: i128_as_f64)
  then show "is_finite (f64_div ?x ?y)"
    and "f64_val (f64_div ?x ?y) = rnd (rnd (of_int (sint r)) / rnd (of_int (sint p)))"
    by (auto simp: i128_as_f64)
qed

text \<open>It grows with the dividend.\<close>

lemma i128_quotient_mono:
  fixes r r' p :: i128
  assumes "0 < sint p" "sint r' \<le> sint r"
  shows "f64_le (f64_div (f64_of_int (sint r')) (f64_of_int (sint p)))
                (f64_div (f64_of_int (sint r)) (f64_of_int (sint p)))"
proof -
  have "rnd (of_int (sint r')) \<le> rnd (of_int (sint r))" using assms(2) by (intro rnd_mono) simp
  then have "rnd (rnd (of_int (sint r')) / rnd (of_int (sint p))) \<le> rnd (rnd (of_int (sint r)) / rnd (of_int (sint p)))"
    using rnd_positive_int [OF assms(1)] by (intro rnd_mono [OF divide_right_mono]) linarith+
  then show ?thesis using i128_quotient [OF assms(1)] by (simp add: f64_le_finite)
qed

lemma pair_ratio_finite: "positive_prediction pr \<Longrightarrow> is_finite (pair_ratio pr)"
  unfolding positive_prediction_def pair_ratio_def by (rule i128_quotient(1))

lemma pair_ratio_val:
  "positive_prediction (p, r) \<Longrightarrow>
   f64_val (pair_ratio (p, r))
     = rnd (rnd (of_int (sint (realized_wei r))) / rnd (of_int (sint (predicted_wei p))))"
  unfolding positive_prediction_def pair_ratio_def by (simp add: i128_quotient(2))

definition f64_one :: f64 where "f64_one = Fin False 1"

text \<open>The direction of the ratio survives both roundings.\<close>

lemma pair_ratio_ge_one:
  assumes "positive_prediction (p, r)" "sint (predicted_wei p) \<le> sint (realized_wei r)"
  shows "f64_le f64_one (pair_ratio (p, r))"
proof -
  let ?p = "rnd (of_int (sint (predicted_wei p)))" and ?r = "rnd (of_int (sint (realized_wei r)))"
  have "1 \<le> ?p" using assms(1) by (simp add: positive_prediction_def rnd_positive_int)
  moreover have "?p \<le> ?r" using assms(2) by (intro rnd_mono) simp
  ultimately have "1 \<le> rnd (?r / ?p)" using rnd_mono [of 1 "?r / ?p"] by simp
  then show ?thesis
    using pair_ratio_finite [OF assms(1)] by (simp add: f64_one_def f64_le_finite pair_ratio_val [OF assms(1)])
qed

lemma pair_ratio_le_one:
  assumes "positive_prediction (p, r)" "sint (realized_wei r) \<le> sint (predicted_wei p)"
  shows "f64_le (pair_ratio (p, r)) f64_one"
proof -
  let ?p = "rnd (of_int (sint (predicted_wei p)))" and ?r = "rnd (of_int (sint (realized_wei r)))"
  have "1 \<le> ?p" using assms(1) by (simp add: positive_prediction_def rnd_positive_int)
  moreover have "?r \<le> ?p" using assms(2) by (intro rnd_mono) simp
  ultimately have "rnd (?r / ?p) \<le> 1" using rnd_mono [of "?r / ?p" 1] by simp
  then show ?thesis
    using pair_ratio_finite [OF assms(1)] by (simp add: f64_one_def f64_le_finite pair_ratio_val [OF assms(1)])
qed

section \<open>Properties\<close>

lemma last_n_snoc:
  "drop (length (xs @ [x]) - n) (xs @ [x])
     = (let ys = drop (length xs - n) xs @ [x] in drop (length ys - n) ys)"
proof (cases "n \<le> length xs")
  case True
  then show ?thesis by (cases n) (simp_all add: Let_def Suc_diff_le Suc_diff_Suc less_eq_Suc_le)
next
  case False
  then show ?thesis by (simp add: Let_def)
qed

text \<open>
  C16. Whatever is appended and recorded, in any order, the two pools of a \<^verbatim>\<open>ReconcileHistory\<close> are
  the projections of its timeline: no entry is lost, duplicated or reordered, and a revert never
  reaches the pairs.
\<close>

theorem history_is_projection_of_timeline:
  "foldl history_push history_new es
     = \<lparr>timeline = es, pairs = confirmed_pairs es, reverts = revert_events es\<rparr>"
  using fold_history_push [of "[]" es] unfolding history_of_Nil by (simp add: history_of_def)

text \<open>
  \<^verbatim>\<open>recent_ratios(n)\<close> returns, oldest first, the last \<open>n\<close> ratios of the pairs whose prediction
  is positive, and all of them when there are fewer.
\<close>

theorem recent_ratios_are_last_n:
  "recent_ratios h n =
     (let rs = map pair_ratio (filter positive_prediction (pairs h)) in drop (length rs - n) rs)"
  by (rule recent_ratios_lastn)

text \<open>
  C35. Revert separation and zero-division immunity: one more entry changes the window of ratios
  only when it is a confirmed pair with a positive prediction, and then by sliding it by one ratio.
\<close>

theorem ratio_pool_separation:
  "recent_ratios (history_push h e) n =
     (case e of
        RevertedTx ev \<Rightarrow> recent_ratios h n
      | ConfirmedPair p r \<Rightarrow>
          if 0 < sint (predicted_wei p)
          then let rs = recent_ratios h n @ [pair_ratio (p, r)] in drop (length rs - n) rs
          else recent_ratios h n)"
proof (cases e)
  case (ConfirmedPair p r)
  show ?thesis
  proof (cases "0 < sint (predicted_wei p)")
    case True
    have "positive_prediction (p, r)" using True by (simp add: positive_prediction_def)
    then show ?thesis
      using True last_n_snoc [of "map pair_ratio (filter positive_prediction (pairs h))" "pair_ratio (p, r)" n]
      by (simp only: recent_ratios_lastn ConfirmedPair history_push.simps timeline_simps filter_append
          filter.simps if_True map_append list.map HistoryEntry.case Let_def)
  qed (simp add: ConfirmedPair recent_ratios_nonpositive)
qed simp

text \<open>
  No ratio is NaN or infinite: every ratio the guards read is a finite \<^verbatim>\<open>f64\<close>, whatever the two
  128-bit amounts are.
\<close>

theorem ratios_always_finite: "list_all is_finite (recent_ratios h n)"
  using pair_ratio_finite by (auto simp: list_all_iff dest!: recent_ratios_mem)

text \<open>
  Ratio direction: the ratio of the code is realized over predicted, so it is at least one for
  an over-performing pair and at most one for an under-performing pair, also after the two casts
  and the division have been rounded.
\<close>

theorem ratio_direction:
  assumes "0 < sint (predicted_wei p)"
  shows "if sint (predicted_wei p) \<le> sint (realized_wei r)
     then f64_le f64_one (pair_ratio (p, r))
     else f64_le (pair_ratio (p, r)) f64_one"
  using assms pair_ratio_ge_one [of p r] pair_ratio_le_one [of p r] by (simp add: positive_prediction_def)

theorem ratio_direction_witness:
  "f64_le f64_one (pair_ratio (PredictedProfit 100, RealizedProfit 238)) \<and>
   f64_le (pair_ratio (PredictedProfit 100, RealizedProfit 42)) f64_one"
  using ratio_direction [of "PredictedProfit 100" "RealizedProfit 238"]
    ratio_direction [of "PredictedProfit 100" "RealizedProfit 42"] by simp

text \<open>
  The gas burned on reverts in the last \<open>window\<close> timeline entries is the sum of gas used times
  effective gas price. A debug build panics exactly when the total does not fit 128 bits, a release
  build returns it modulo \<open>2 ^ 128\<close>.
\<close>

theorem gas_burned_on_reverts:
  "recent_revert_gas_burned pf h window =
     (let total = (\<Sum>e\<leftarrow>revert_events (take window (rev (timeline h))).
                     unat (rv_gas_used e) * unat (rv_effective_gas_price e))
      in if pf = Debug \<and> 2 ^ 128 \<le> total then panic else Some (word_of_nat total))"
proof -
  have "gas_cost_exact = (\<lambda>e. unat (rv_gas_used e) * unat (rv_effective_gas_price e))"
    by (simp add: gas_cost_exact_def fun_eq_iff)
  then show ?thesis by (simp add: recent_revert_gas_burned_eq gas_burned_exact_def Let_def)
qed

text \<open>
  \<^verbatim>\<open>consecutive_reverts\<close> counts the longest run of reverts at the end of the timeline: it is at
  least \<open>k\<close> exactly when the last \<open>k\<close> entries exist and are all reverts.
\<close>

theorem consecutive_reverts_counts_tail:
  "k \<le> consecutive_reverts h \<longleftrightarrow>
     k \<le> length (timeline h) \<and> list_all is_revert (drop (length (timeline h) - k) (timeline h))"
  by (rule consecutive_reverts_ge_iff)

section \<open>The HaltPolicy trait\<close>

text \<open>
  What \<^verbatim>\<open>core/src/traits.rs\<close> asks of an implementation: \<open>evaluate\<close> takes the policy mutably and
  the whole history; it must not panic on an empty history, where it returns \<^const>\<open>Continue\<close>,
  and must keep no state that the history does not determine: the state it leaves behind decides
  every history as the state before did.
\<close>

type_synonym 's halt_evaluator = "'s \<Rightarrow> ReconcileHistory \<Rightarrow> (HaltDecision \<times> 's) option"

locale halt_policy =
  fixes evaluate :: "'s halt_evaluator"
    and policy_ok :: "'s \<Rightarrow> bool"
  assumes empty_continues: "policy_ok s \<Longrightarrow> \<exists>s'. evaluate s history_new = Some (Continue, s')"
    and evaluate_ok: "policy_ok s \<Longrightarrow> evaluate s h = Some (d, s') \<Longrightarrow> policy_ok s'"
    and stateless: "policy_ok s \<Longrightarrow> evaluate s h = Some (d, s') \<Longrightarrow>
      map_option fst (evaluate s' h') = map_option fst (evaluate s h')"
begin

definition decides :: "'s \<Rightarrow> ReconcileHistory \<Rightarrow> HaltDecision option" where
  "decides s h = map_option fst (evaluate s h)"

lemma decides_empty: "policy_ok s \<Longrightarrow> decides s history_new = Some Continue"
  using empty_continues [of s] by (auto simp: decides_def)

lemma decides_after: "policy_ok s \<Longrightarrow> evaluate s h = Some (d, s') \<Longrightarrow> decides s' = decides s"
  using stateless by (fastforce simp: decides_def)

end

section \<open>The decoder traits\<close>

text \<open>
  \<^verbatim>\<open>ProfitDecoder\<close> is a function of the raw output. \<^verbatim>\<open>RealizedProfitDecoder\<close> takes \<^verbatim>\<open>&self\<close>, but an
  implementation may hold atomics (the drift injector of the example does), so a decoder carries a
  state; \<^term>\<open>None\<close> is a panic. The contracts are those the traits state: a reverted simulation is
  the error \<^const>\<open>DecodeReverted\<close>, and a receipt that is not confirmed is an error, never a profit.
\<close>

type_synonym profit_decoder = "RawSimOutput \<Rightarrow> DecodeError + PredictedProfit"

type_synonym 'd realized_decoder =
  "TxReceipt \<Rightarrow> Log list \<Rightarrow> 'd \<Rightarrow> ((DecodeError + RealizedProfit) \<times> 'd) option"

locale sound_profit_decoder =
  fixes decode_predicted :: profit_decoder
  assumes reverted_is_error: "so_revert_reason raw \<noteq> None \<Longrightarrow> decode_predicted raw = Inl DecodeReverted"

locale sound_realized_decoder =
  fixes decode_realized :: "'d realized_decoder"
  assumes unconfirmed_is_error:
    "rc_status receipt \<noteq> TxConfirmed \<Longrightarrow> decode_realized receipt logs d = Some (res, d') \<Longrightarrow> isl res"

end
