(* ===== verification/Reconcile.thy ===== *)
theory Reconcile
  imports Core_Types
begin

text \<open>
  The crate \<^verbatim>\<open>driftbrake-reconcile\<close> (\<^verbatim>\<open>reconcile/src/lib.rs\<close>): the guard configurations, the
  constructors of \<^verbatim>\<open>ReconcilePolicy\<close> with their assertions, the six guards and \<^verbatim>\<open>evaluate\<close>,
  which runs them in the order of the code. A guard is a run (it can panic) whose result is the
  reason it trips with, if it trips.
\<close>

section \<open>Configuration\<close>

record FastGuardConfig =
  fg_threshold :: f64
  fg_window :: nat

record SlowGuardConfig =
  sg_threshold :: f64
  sg_window :: nat

record RevertBurstConfig =
  rb_limit :: nat

record RevertGasConfig =
  rg_budget_limit :: u128
  rg_window :: nat

record VolumeWeightedConfig =
  vw_threshold :: f64
  vw_window :: nat

record DrawdownConfig =
  dd_max_drawdown_limit :: i128
  dd_window :: nat

definition fast_guard_default :: FastGuardConfig where
  "fast_guard_default = \<lparr>fg_threshold = f64_of_rat (50 / 100), fg_window = 3\<rparr>"

definition slow_guard_default :: SlowGuardConfig where
  "slow_guard_default = \<lparr>sg_threshold = f64_of_rat (70 / 100), sg_window = 20\<rparr>"

definition revert_burst_default :: RevertBurstConfig where
  "revert_burst_default = \<lparr>rb_limit = 3\<rparr>"

definition volume_weighted_default :: VolumeWeightedConfig where
  "volume_weighted_default = \<lparr>vw_threshold = f64_of_rat (75 / 100), vw_window = 20\<rparr>"

record ReconcilePolicy =
  rp_fast :: FastGuardConfig
  rp_slow :: SlowGuardConfig
  rp_revert_burst :: "RevertBurstConfig option"
  rp_revert_gas :: "RevertGasConfig option"
  rp_volume_weighted :: "VolumeWeightedConfig option"
  rp_drawdown :: "DrawdownConfig option"

definition policy_new :: "profile \<Rightarrow> FastGuardConfig \<Rightarrow> SlowGuardConfig \<Rightarrow> ReconcilePolicy option" where
  "policy_new pf fast slow =
     do { assert_that (0 < fg_window fast);
          assert_that (0 < sg_window slow);
          debug_assert pf (f64_lt (fg_threshold fast) (sg_threshold slow));
          Some \<lparr>rp_fast = fast, rp_slow = slow, rp_revert_burst = None, rp_revert_gas = None,
                rp_volume_weighted = None, rp_drawdown = None\<rparr> }"

definition with_revert_burst :: "ReconcilePolicy \<Rightarrow> RevertBurstConfig \<Rightarrow> ReconcilePolicy option" where
  "with_revert_burst P config =
     do { assert_that (0 < rb_limit config); Some (P\<lparr>rp_revert_burst := Some config\<rparr>) }"

definition with_revert_gas :: "ReconcilePolicy \<Rightarrow> RevertGasConfig \<Rightarrow> ReconcilePolicy option" where
  "with_revert_gas P config =
     do { assert_that (0 < rg_window config); Some (P\<lparr>rp_revert_gas := Some config\<rparr>) }"

definition with_volume_weighted ::
  "ReconcilePolicy \<Rightarrow> VolumeWeightedConfig \<Rightarrow> ReconcilePolicy option" where
  "with_volume_weighted P config =
     do { assert_that (0 < vw_window config); Some (P\<lparr>rp_volume_weighted := Some config\<rparr>) }"

definition with_drawdown :: "ReconcilePolicy \<Rightarrow> DrawdownConfig \<Rightarrow> ReconcilePolicy option" where
  "with_drawdown P config =
     do { assert_that (0 < dd_window config); Some (P\<lparr>rp_drawdown := Some config\<rparr>) }"

definition default_dual_guard :: "profile \<Rightarrow> ReconcilePolicy option" where
  "default_dual_guard pf = policy_new pf fast_guard_default slow_guard_default"

definition institutional_default :: "profile \<Rightarrow> ReconcilePolicy option" where
  "institutional_default pf =
     do { P \<leftarrow> default_dual_guard pf;
          P \<leftarrow> with_revert_burst P revert_burst_default;
          with_volume_weighted P volume_weighted_default }"

definition policy_default :: "profile \<Rightarrow> ReconcilePolicy option" where
  "policy_default pf = default_dual_guard pf"

text \<open>The accessors.\<close>

definition fast_guard_config :: "ReconcilePolicy \<Rightarrow> FastGuardConfig" where
  "fast_guard_config P = rp_fast P"

definition slow_guard_config :: "ReconcilePolicy \<Rightarrow> SlowGuardConfig" where
  "slow_guard_config P = rp_slow P"

definition revert_burst_config :: "ReconcilePolicy \<Rightarrow> RevertBurstConfig option" where
  "revert_burst_config P = rp_revert_burst P"

definition revert_gas_config :: "ReconcilePolicy \<Rightarrow> RevertGasConfig option" where
  "revert_gas_config P = rp_revert_gas P"

definition volume_weighted_config :: "ReconcilePolicy \<Rightarrow> VolumeWeightedConfig option" where
  "volume_weighted_config P = rp_volume_weighted P"

definition drawdown_config :: "ReconcilePolicy \<Rightarrow> DrawdownConfig option" where
  "drawdown_config P = rp_drawdown P"

section \<open>The guards\<close>

definition revert_burst_guard :: "ReconcilePolicy \<Rightarrow> ReconcileHistory \<Rightarrow> HaltReason option" where
  "revert_burst_guard P h =
     (case rp_revert_burst P of
        None \<Rightarrow> None
      | Some burst \<Rightarrow>
          let consecutive = consecutive_reverts h
          in if rb_limit burst \<le> consecutive then Some (RevertBurst consecutive (rb_limit burst))
             else None)"

definition revert_gas_guard ::
  "profile \<Rightarrow> ReconcilePolicy \<Rightarrow> ReconcileHistory \<Rightarrow> HaltReason option option" where
  "revert_gas_guard pf P h =
     (case rp_revert_gas P of
        None \<Rightarrow> Some None
      | Some gas_cfg \<Rightarrow>
          do { burned \<leftarrow> recent_revert_gas_burned pf h (rg_window gas_cfg);
               Some (if rg_budget_limit gas_cfg < burned
                     then Some (RevertGasBudgetExceeded burned (rg_budget_limit gas_cfg) (rg_window gas_cfg))
                     else None) })"

definition fast_guard :: "ReconcilePolicy \<Rightarrow> ReconcileHistory \<Rightarrow> HaltReason option" where
  "fast_guard P h =
     (let fast_window = recent_ratios h (fg_window (rp_fast P))
      in if length fast_window = fg_window (rp_fast P) \<and>
            list_all (\<lambda>ratio. f64_lt ratio (fg_threshold (rp_fast P))) fast_window
         then Some (FastGuard fast_window (fg_threshold (rp_fast P))) else None)"

definition slippage :: "profile \<Rightarrow> PredictedProfit \<times> RealizedProfit \<Rightarrow> i128 option" where
  "slippage pf pr = s_sub pf (predicted_wei (fst pr)) (realized_wei (snd pr))"

definition drawdown_guard ::
  "profile \<Rightarrow> ReconcilePolicy \<Rightarrow> ReconcileHistory \<Rightarrow> HaltReason option option" where
  "drawdown_guard pf P h =
     (case rp_drawdown P of
        None \<Rightarrow> Some None
      | Some dd_cfg \<Rightarrow>
          let pairs_in_window = take (dd_window dd_cfg) (rev (pairs h))
          in if length pairs_in_window = dd_window dd_cfg
             then do { gaps \<leftarrow> map_run (slippage pf) pairs_in_window;
                       net_slippage_loss \<leftarrow> s_sum pf gaps;
                       Some (if sint (dd_max_drawdown_limit dd_cfg) < sint net_slippage_loss
                             then Some (NetDrawdownExceeded net_slippage_loss
                                          (dd_max_drawdown_limit dd_cfg) (dd_window dd_cfg))
                             else None) }
             else Some None)"

definition volume_weighted_guard ::
  "profile \<Rightarrow> ReconcilePolicy \<Rightarrow> ReconcileHistory \<Rightarrow> HaltReason option option" where
  "volume_weighted_guard pf P h =
     (case rp_volume_weighted P of
        None \<Rightarrow> Some None
      | Some vw_cfg \<Rightarrow>
          let valid_pairs = take (vw_window vw_cfg) (filter positive_prediction (rev (pairs h)))
          in if length valid_pairs = vw_window vw_cfg
             then do { total_predicted \<leftarrow> s_sum pf (map (\<lambda>pr. predicted_wei (fst pr)) valid_pairs);
                       total_realized \<leftarrow> s_sum pf (map (\<lambda>pr. realized_wei (snd pr)) valid_pairs);
                       Some (if 0 < sint total_predicted
                             then let weighted_ratio =
                                        f64_div (f64_of_int (sint total_realized))
                                                (f64_of_int (sint total_predicted))
                                  in if f64_lt weighted_ratio (vw_threshold vw_cfg)
                                     then Some (VolumeWeightedDrift weighted_ratio
                                                  (vw_threshold vw_cfg) (vw_window vw_cfg))
                                     else None
                             else None) }
             else Some None)"

definition mean_ratio :: "f64 list \<Rightarrow> f64" where
  "mean_ratio ratios = f64_div (f64_sum ratios) (f64_of_int (int (length ratios)))"

definition slow_guard :: "ReconcilePolicy \<Rightarrow> ReconcileHistory \<Rightarrow> HaltReason option" where
  "slow_guard P h =
     (let slow_window = recent_ratios h (sg_window (rp_slow P))
      in if length slow_window = sg_window (rp_slow P)
         then if f64_lt (mean_ratio slow_window) (sg_threshold (rp_slow P))
              then Some (SlowGuard (mean_ratio slow_window) (sg_window (rp_slow P)) (sg_threshold (rp_slow P)))
              else None
         else None)"

text \<open>One guard, and what to do when it does not trip: the early return of the code.\<close>

definition guard_or :: "HaltReason option option \<Rightarrow> HaltDecision option \<Rightarrow> HaltDecision option" where
  "guard_or g k = do { tripped \<leftarrow> g; case tripped of Some reason \<Rightarrow> Some (Halt reason) | None \<Rightarrow> k }"

definition run_guards :: "profile \<Rightarrow> ReconcilePolicy \<Rightarrow> ReconcileHistory \<Rightarrow> HaltDecision option" where
  "run_guards pf P h =
     guard_or (Some (revert_burst_guard P h))
    (guard_or (revert_gas_guard pf P h)
    (guard_or (Some (fast_guard P h))
    (guard_or (drawdown_guard pf P h)
    (guard_or (volume_weighted_guard pf P h)
    (guard_or (Some (slow_guard P h))
     (Some Continue))))))"

definition policy_evaluate :: "profile \<Rightarrow> ReconcilePolicy halt_evaluator" where
  "policy_evaluate pf P h = do { decision \<leftarrow> run_guards pf P h; Some (decision, P) }"

section \<open>Constructors establish the configuration invariant\<close>

definition policy_ok :: "ReconcilePolicy \<Rightarrow> bool" where
  "policy_ok P \<longleftrightarrow>
     0 < fg_window (rp_fast P) \<and> 0 < sg_window (rp_slow P) \<and>
     pred_option (\<lambda>c. 0 < rb_limit c) (rp_revert_burst P) \<and>
     pred_option (\<lambda>c. 0 < rg_window c) (rp_revert_gas P) \<and>
     pred_option (\<lambda>c. 0 < vw_window c) (rp_volume_weighted P) \<and>
     pred_option (\<lambda>c. 0 < dd_window c) (rp_drawdown P)"

lemma policy_new_ok: "policy_new pf f s = Some P \<Longrightarrow> policy_ok P"
  by (auto simp: policy_new_def policy_ok_def bind_eq_Some_conv)

lemma policy_with_ok:
  "policy_ok P \<Longrightarrow> with_revert_burst P c1 = Some P' \<Longrightarrow> policy_ok P'"
  "policy_ok P \<Longrightarrow> with_revert_gas P c2 = Some P' \<Longrightarrow> policy_ok P'"
  "policy_ok P \<Longrightarrow> with_volume_weighted P c3 = Some P' \<Longrightarrow> policy_ok P'"
  "policy_ok P \<Longrightarrow> with_drawdown P c4 = Some P' \<Longrightarrow> policy_ok P'"
  by (auto simp: policy_ok_def with_revert_burst_def with_revert_gas_def with_volume_weighted_def
      with_drawdown_def bind_eq_Some_conv)

section \<open>The guards one by one\<close>

named_theorems guard_defs \<open>definitions of the guards and of their composition\<close>

lemmas [guard_defs] = run_guards_def guard_or_def revert_burst_guard_def revert_gas_guard_def
  fast_guard_def drawdown_guard_def volume_weighted_guard_def slow_guard_def

lemma fast_guard_iff:
  "fast_guard P h \<noteq> None \<longleftrightarrow>
     fg_window (rp_fast P) \<le> length (filter positive_prediction (pairs h)) \<and>
     (\<forall>x \<in> set (recent_ratios h (fg_window (rp_fast P))). f64_lt x (fg_threshold (rp_fast P)))"
  by (auto simp: fast_guard_def Let_def length_recent_ratios list_all_iff min_def)

text \<open>A guard that needs a full window does not trip before the window is full.\<close>

lemma guards_on_empty:
  assumes "policy_ok P"
  shows "revert_burst_guard P history_new = None" "revert_gas_guard pf P history_new = Some None"
    "fast_guard P history_new = None" "drawdown_guard pf P history_new = Some None"
    "volume_weighted_guard pf P history_new = Some None" "slow_guard P history_new = None"
  using assms
  by (auto simp: guard_defs policy_ok_def Let_def recent_ratios_def recent_revert_gas_burned_def u_sum_def
      split: option.splits)

lemma run_guards_empty: "policy_ok P \<Longrightarrow> run_guards pf P history_new = Some Continue"
  by (simp add: run_guards_def guard_or_def guards_on_empty)

interpretation reconcile: halt_policy "policy_evaluate pf" policy_ok for pf
proof
  fix s assume "policy_ok s"
  then show "\<exists>s'. policy_evaluate pf s history_new = Some (Continue, s')"
    by (simp add: policy_evaluate_def run_guards_empty)
qed (auto simp: policy_evaluate_def bind_eq_Some_conv)

text \<open>
  The composition: a halting reason is that of the first guard that trips, and the policy
  continues exactly when every guard ran and none tripped.
\<close>

lemma run_guards_Continue:
  "run_guards pf P h = Some Continue \<longleftrightarrow>
     revert_burst_guard P h = None \<and> revert_gas_guard pf P h = Some None \<and> fast_guard P h = None \<and>
     drawdown_guard pf P h = Some None \<and> volume_weighted_guard pf P h = Some None \<and>
     slow_guard P h = None"
  by (auto simp: run_guards_def guard_or_def bind_eq_Some_conv split: option.splits)

lemma run_guards_Halt:
  "run_guards pf P h = Some (Halt r) \<longleftrightarrow>
     revert_burst_guard P h = Some r \<or>
     revert_burst_guard P h = None \<and>
      (revert_gas_guard pf P h = Some (Some r) \<or>
       revert_gas_guard pf P h = Some None \<and>
        (fast_guard P h = Some r \<or>
         fast_guard P h = None \<and>
          (drawdown_guard pf P h = Some (Some r) \<or>
           drawdown_guard pf P h = Some None \<and>
            (volume_weighted_guard pf P h = Some (Some r) \<or>
             volume_weighted_guard pf P h = Some None \<and> slow_guard P h = Some r))))"
  by (auto simp: run_guards_def guard_or_def bind_eq_Some_conv split: option.splits)

section \<open>No panic\<close>

lemma map_run_slippage_Release: "map_run (slippage Release) xs = Some (map (\<lambda>pr. predicted_wei (fst pr) - realized_wei (snd pr)) xs)"
  by (intro map_run_total) (simp add: slippage_def rust_arith)

lemma fold_s_add_Release: "fold_run (s_add Release) acc xs = Some (acc + sum_list xs)"
  by (induction xs arbitrary: acc) (simp_all add: rust_arith add.assoc)

lemma run_guards_Release: "run_guards Release P h \<noteq> None"
  by (auto simp: run_guards_def guard_or_def revert_gas_guard_def drawdown_guard_def
      volume_weighted_guard_def recent_revert_gas_burned_eq map_run_slippage_Release s_sum_def
      fold_s_add_Release Let_def bind_eq_None_conv split: option.splits)

section \<open>Histories on which the integer arithmetic is exact\<close>

text \<open>
  Wei amounts are far below \<open>2 ^ 127\<close>. On a history whose amounts add up to less than that, and
  whose revert costs to less than \<open>2 ^ 128\<close>, no operation of a guard overflows, and each guard
  compares the ideal integer totals.
\<close>

definition pair_mass :: "PredictedProfit \<times> RealizedProfit \<Rightarrow> int" where
  "pair_mass pr = \<bar>sint (predicted_wei (fst pr))\<bar> + \<bar>sint (realized_wei (snd pr))\<bar>"

definition arithmetic_bounded :: "ReconcileHistory \<Rightarrow> bool" where
  "arithmetic_bounded h \<longleftrightarrow>
     (\<Sum>pr\<leftarrow>pairs h. pair_mass pr) < 2 ^ 127 \<and>
     gas_burned_exact h (length (timeline h)) < 2 ^ 128"

lemma pair_mass_nonneg [simp]: "0 \<le> pair_mass pr"
  by (simp add: pair_mass_def)

lemma gas_burned_exact_le: "gas_burned_exact h w \<le> gas_burned_exact h (length (timeline h))"
proof -
  have "revert_events (rev (timeline h)) =
      revert_events (take w (rev (timeline h))) @ revert_events (drop w (rev (timeline h)))"
    by (simp flip: revert_events_append)
  then show ?thesis by (simp add: gas_burned_exact_def)
qed

lemma gas_burned_bounded:
  "arithmetic_bounded h \<Longrightarrow>
   recent_revert_gas_burned pf h w = Some (word_of_nat (gas_burned_exact h w)) \<and>
   unat (word_of_nat (gas_burned_exact h w) :: u128) = gas_burned_exact h w"
  using gas_burned_exact_le [of h w]
  by (simp add: arithmetic_bounded_def recent_revert_gas_burned_eq unat_of_nat)

definition net_slippage_exact :: "ReconcileHistory \<Rightarrow> nat \<Rightarrow> int" where
  "net_slippage_exact h k =
     (\<Sum>pr\<leftarrow>take k (rev (pairs h)). sint (predicted_wei (fst pr)) - sint (realized_wei (snd pr)))"

lemma net_slippage_bounded:
  assumes "arithmetic_bounded h"
  obtains gaps where "map_run (slippage pf) (take k (rev (pairs h))) = Some gaps"
    "s_sum pf gaps = Some (sum_list gaps)" "sint (sum_list gaps) = net_slippage_exact h k"
proof -
  let ?w = "take k (rev (pairs h))"
  let ?gap = "\<lambda>pr. predicted_wei (fst pr) - realized_wei (snd pr)"
  have mass: "(\<Sum>pr\<leftarrow>?w. pair_mass pr) < 2 ^ 127"
    using assms sum_list_take_rev_le [of pair_mass k "pairs h"] by (simp add: arithmetic_bounded_def)
  have each: "s_sub pf (predicted_wei (fst pr)) (realized_wei (snd pr)) = Some (?gap pr)
      \<and> sint (?gap pr) = sint (predicted_wei (fst pr)) - sint (realized_wei (snd pr))"
    if "pr \<in> set ?w" for pr
  proof -
    have "pair_mass pr \<le> (\<Sum>pr\<leftarrow>?w. pair_mass pr)"
      using that by (intro member_le_sum_list) auto
    then have "pair_mass pr < 2 ^ 127" using mass by linarith
    then have "in_srange TYPE(128) (sint (predicted_wei (fst pr)) - sint (realized_wei (snd pr)))"
      by (auto simp: in_srange_def pair_mass_def)
    then show ?thesis using s_sub_exact by blast
  qed
  have run: "map_run (slippage pf) ?w = Some (map ?gap ?w)"
    using each by (intro map_run_total) (simp add: slippage_def)
  have "(\<Sum>x\<leftarrow>map ?gap ?w. \<bar>sint x\<bar>) \<le> (\<Sum>pr\<leftarrow>?w. pair_mass pr)"
    unfolding map_map by (intro sum_list_mono) (auto simp: each pair_mass_def)
  then have le: "(\<Sum>x\<leftarrow>map ?gap ?w. \<bar>sint x\<bar>) < 2 ^ (LENGTH(128) - 1)" using mass by simp
  have "(\<Sum>x\<leftarrow>map ?gap ?w. sint x) = net_slippage_exact h k"
    unfolding net_slippage_exact_def map_map
    by (intro arg_cong [where f = sum_list] map_cong) (auto simp: each)
  then show ?thesis using that [OF run] s_sum_exact [OF le] by simp
qed

definition window_total :: "(PredictedProfit \<times> RealizedProfit \<Rightarrow> i128) \<Rightarrow> ReconcileHistory \<Rightarrow> nat \<Rightarrow> int" where
  "window_total f h k = (\<Sum>pr\<leftarrow>take k (filter positive_prediction (rev (pairs h))). sint (f pr))"

lemma window_total_bounded:
  assumes "arithmetic_bounded h" "\<And>pr. \<bar>sint (f pr)\<bar> \<le> pair_mass pr"
  shows "s_sum pf (map f (take k (filter positive_prediction (rev (pairs h)))))
           = Some (sum_list (map f (take k (filter positive_prediction (rev (pairs h))))))"
    and "sint (sum_list (map f (take k (filter positive_prediction (rev (pairs h)))))) = window_total f h k"
proof -
  let ?w = "take k (filter positive_prediction (rev (pairs h)))"
  have "(\<Sum>x\<leftarrow>map f ?w. \<bar>sint x\<bar>) \<le> (\<Sum>pr\<leftarrow>?w. pair_mass pr)"
    unfolding map_map by (intro sum_list_mono) (auto simp: assms)
  also have "\<dots> \<le> (\<Sum>pr\<leftarrow>filter positive_prediction (pairs h). pair_mass pr)"
    using sum_list_take_rev_le [of pair_mass k "filter positive_prediction (pairs h)"]
    by (simp add: rev_filter)
  also have "\<dots> \<le> (\<Sum>pr\<leftarrow>pairs h. pair_mass pr)" by (intro sum_list_filter_le) simp
  finally have le: "(\<Sum>x\<leftarrow>map f ?w. \<bar>sint x\<bar>) < 2 ^ (LENGTH(128) - 1)"
    using assms(1) by (simp add: arithmetic_bounded_def)
  show "s_sum pf (map f ?w) = Some (sum_list (map f ?w))" by (rule s_sum_exact(1) [OF le])
  show "sint (sum_list (map f ?w)) = window_total f h k"
    using s_sum_exact(2) [OF le] by (simp add: window_total_def o_def)
qed

end
