(* ===== verification/Reconcile_Spec.thy ===== *)
theory Reconcile_Spec
  imports Reconcile
begin

text \<open>
  What \<^verbatim>\<open>ReconcilePolicy::evaluate\<close> promises: a specification over ideal integers (the first
  condition of a table that holds), the refinement of the code to it, and the properties of
  \<^verbatim>\<open>docs/whitepaper.md\<close>: direction of the ratio, independence and monotonicity of the guards,
  detection, and the absence of panics and of NaN.
\<close>

section \<open>The specification: the first condition that holds, over ideal numbers\<close>

definition total_predicted_exact :: "ReconcileHistory \<Rightarrow> nat \<Rightarrow> int" where
  "total_predicted_exact = window_total (\<lambda>pr. predicted_wei (fst pr))"

definition total_realized_exact :: "ReconcileHistory \<Rightarrow> nat \<Rightarrow> int" where
  "total_realized_exact = window_total (\<lambda>pr. realized_wei (snd pr))"

type_synonym guard_row = "bool \<times> HaltReason"

definition burst_rows :: "ReconcilePolicy \<Rightarrow> ReconcileHistory \<Rightarrow> guard_row list" where
  "burst_rows P h =
     (case rp_revert_burst P of None \<Rightarrow> []
      | Some c \<Rightarrow> [(rb_limit c \<le> consecutive_reverts h, RevertBurst (consecutive_reverts h) (rb_limit c))])"

definition gas_rows :: "ReconcilePolicy \<Rightarrow> ReconcileHistory \<Rightarrow> guard_row list" where
  "gas_rows P h =
     (case rp_revert_gas P of None \<Rightarrow> []
      | Some c \<Rightarrow>
          let burned = gas_burned_exact h (rg_window c)
          in [(unat (rg_budget_limit c) < burned,
               RevertGasBudgetExceeded (word_of_nat burned) (rg_budget_limit c) (rg_window c))])"

definition fast_rows :: "ReconcilePolicy \<Rightarrow> ReconcileHistory \<Rightarrow> guard_row list" where
  "fast_rows P h =
     (let c = rp_fast P; ratios = recent_ratios h (fg_window c)
      in [(fg_window c \<le> length (filter positive_prediction (pairs h)) \<and>
           list_all (\<lambda>x. f64_lt x (fg_threshold c)) ratios,
           FastGuard ratios (fg_threshold c))])"

definition drawdown_rows :: "ReconcilePolicy \<Rightarrow> ReconcileHistory \<Rightarrow> guard_row list" where
  "drawdown_rows P h =
     (case rp_drawdown P of None \<Rightarrow> []
      | Some c \<Rightarrow>
          let loss = net_slippage_exact h (dd_window c)
          in [(dd_window c \<le> length (pairs h) \<and> sint (dd_max_drawdown_limit c) < loss,
               NetDrawdownExceeded (word_of_int loss) (dd_max_drawdown_limit c) (dd_window c))])"

definition volume_weighted_rows :: "ReconcilePolicy \<Rightarrow> ReconcileHistory \<Rightarrow> guard_row list" where
  "volume_weighted_rows P h =
     (case rp_volume_weighted P of None \<Rightarrow> []
      | Some c \<Rightarrow>
          let ratio = f64_div (f64_of_int (total_realized_exact h (vw_window c)))
                              (f64_of_int (total_predicted_exact h (vw_window c)))
          in [(vw_window c \<le> length (filter positive_prediction (pairs h)) \<and>
               f64_lt ratio (vw_threshold c),
               VolumeWeightedDrift ratio (vw_threshold c) (vw_window c))])"

definition slow_rows :: "ReconcilePolicy \<Rightarrow> ReconcileHistory \<Rightarrow> guard_row list" where
  "slow_rows P h =
     (let c = rp_slow P; mean = mean_ratio (recent_ratios h (sg_window c))
      in [(sg_window c \<le> length (filter positive_prediction (pairs h)) \<and> f64_lt mean (sg_threshold c),
           SlowGuard mean (sg_window c) (sg_threshold c))])"

definition first_row :: "guard_row list \<Rightarrow> HaltDecision" where
  "first_row rows = (case List.find fst rows of None \<Rightarrow> Continue | Some row \<Rightarrow> Halt (snd row))"

definition spec_decide :: "ReconcilePolicy \<Rightarrow> ReconcileHistory \<Rightarrow> HaltDecision" where
  "spec_decide P h =
     first_row (burst_rows P h @ gas_rows P h @ fast_rows P h @ drawdown_rows P h
                @ volume_weighted_rows P h @ slow_rows P h)"

definition rows_reason :: "guard_row list \<Rightarrow> HaltReason option" where
  "rows_reason rows = map_option snd (List.find fst rows)"

lemma rows_reason_simps [simp]:
  "rows_reason [] = None" "rows_reason [(b, r)] = (if b then Some r else None)"
  by (simp_all add: rows_reason_def)

lemma guard_or_rows: "guard_or (Some (rows_reason xs)) (Some (first_row ys)) = Some (first_row (xs @ ys))"
  by (induction xs) (auto simp: guard_or_def rows_reason_def first_row_def)

lemma first_row_Nil: "first_row [] = Continue"
  by (simp add: first_row_def)

text \<open>Each guard of the code against its rows.\<close>

lemma window_full_iff: "length (take k xs) = k \<longleftrightarrow> k \<le> length xs"
  by (auto simp: min_def)

lemma total_predicted_pos:
  assumes "0 < k" "k \<le> length (filter positive_prediction (pairs h))"
  shows "0 < total_predicted_exact h k"
proof -
  let ?w = "take k (filter positive_prediction (rev (pairs h)))"
  have "length ?w = k" using assms(2) by (simp add: rev_filter [symmetric])
  then obtain x xs where w: "?w = x # xs" using assms(1) by (cases ?w) auto
  have pos: "0 < sint (predicted_wei (fst pr))" if "pr \<in> set ?w" for pr
    using that by (auto dest!: in_set_takeD simp: positive_prediction_def)
  have "0 \<le> (\<Sum>pr\<leftarrow>xs. sint (predicted_wei (fst pr)))"
    using pos w by (intro sum_list_nonneg) (auto intro: less_imp_le)
  then show ?thesis using pos [of x] w by (simp add: total_predicted_exact_def window_total_def)
qed

lemma burst_guard_rows: "revert_burst_guard P h = rows_reason (burst_rows P h)"
  by (simp add: revert_burst_guard_def burst_rows_def Let_def split: option.splits)

lemma gas_guard_rows:
  assumes "arithmetic_bounded h"
  shows "revert_gas_guard pf P h = Some (rows_reason (gas_rows P h))"
  using gas_burned_bounded [OF assms, of pf]
  by (auto simp: revert_gas_guard_def gas_rows_def word_less_nat_alt Let_def split: option.splits)

lemma fast_guard_rows: "fast_guard P h = rows_reason (fast_rows P h)"
  by (auto simp: fast_guard_def fast_rows_def Let_def length_recent_ratios min_def)

lemma drawdown_guard_rows:
  assumes "arithmetic_bounded h"
  shows "drawdown_guard pf P h = Some (rows_reason (drawdown_rows P h))"
proof (cases "rp_drawdown P")
  case (Some c)
  obtain gaps where g: "map_run (slippage pf) (take (dd_window c) (rev (pairs h))) = Some gaps"
    "s_sum pf gaps = Some (sum_list gaps)" "sint (sum_list gaps) = net_slippage_exact h (dd_window c)"
    using net_slippage_bounded [OF assms] by metis
  then show ?thesis
    by (auto simp: drawdown_guard_def drawdown_rows_def Some Let_def window_full_iff of_int_sint simp flip: g(3))
qed (simp add: drawdown_guard_def drawdown_rows_def)

lemma volume_weighted_guard_rows:
  assumes "arithmetic_bounded h" "policy_ok P"
  shows "volume_weighted_guard pf P h = Some (rows_reason (volume_weighted_rows P h))"
proof (cases "rp_volume_weighted P")
  case (Some c)
  note p = window_total_bounded [OF assms(1), of "\<lambda>pr. predicted_wei (fst pr)"]
  note r = window_total_bounded [OF assms(1), of "\<lambda>pr. realized_wei (snd pr)"]
  have pos: "0 < vw_window c" using assms(2) Some by (simp add: policy_ok_def)
  have len: "length (filter positive_prediction (rev (pairs h))) = length (filter positive_prediction (pairs h))"
    by (simp add: rev_filter [symmetric])
  show ?thesis
    using total_predicted_pos [OF pos, of h]
    by (simp add: volume_weighted_guard_def volume_weighted_rows_def Some Let_def window_full_iff len p r
        pair_mass_def total_realized_exact_def total_predicted_exact_def)
qed (simp add: volume_weighted_guard_def volume_weighted_rows_def)

lemma slow_guard_rows: "slow_guard P h = rows_reason (slow_rows P h)"
  by (auto simp: slow_guard_def slow_rows_def Let_def length_recent_ratios min_def)

lemma run_guards_spec:
  assumes "policy_ok P" "arithmetic_bounded h"
  shows "run_guards pf P h = Some (spec_decide P h)"
  unfolding run_guards_def spec_decide_def burst_guard_rows fast_guard_rows slow_guard_rows
    gas_guard_rows [OF assms(2)] drawdown_guard_rows [OF assms(2)]
    volume_weighted_guard_rows [OF assms(2,1)]
  by (simp add: guard_or_rows flip: first_row_Nil)

lemma mean_ratio_ge_one:
  assumes "list_all (f64_le f64_one) xs" "list_all f64_wf xs" "0 < length xs" "length xs \<le> 2 ^ 53"
  shows "f64_le f64_one (mean_ratio xs)"
proof -
  let ?n = "of_nat (length xs) :: rat"
  have s: "f64_le (Fin False ?n) (f64_sum xs)"
    using foldl_f64_add_ge [of 0 "Fin True 0" xs] assms by (simp add: f64_sum_def f64_one_def)
  have n: "f64_of_int (int (length xs)) = Fin False ?n"
    using assms(4) f64_of_int_exact [of "int (length xs)"] by simp
  show ?thesis
  proof (cases "f64_sum xs")
    case (Fin t q)
    then have q: "0 \<le> q" using f64_wf_sum [OF assms(2)] by simp
    have n0: "0 < ?n" using assms(3) by simp
    have le: "?n \<le> (if t then - q else q)" using s by (simp add: Fin)
    have "\<not> t"
    proof
      assume t
      then have "?n \<le> - q" using le by (simp only: if_True)
      then show False using q n0 by linarith
    qed
    moreover from this have "?n \<le> q" using le by (simp only: if_False)
    moreover have "round_mag 1 = 1" using round_mag_of_int [of 1] by simp
    ultimately show ?thesis
      using assms(3) by (simp add: mean_ratio_def n Fin f64_one_def f64_le_pack)
  qed (use s in \<open>auto simp: mean_ratio_def n f64_one_def\<close>)
qed

section \<open>Property 1: over-performance never halts\<close>

definition over_performing :: "ReconcileHistory \<Rightarrow> bool" where
  "over_performing h \<longleftrightarrow>
     list_all (\<lambda>pr. sint (predicted_wei (fst pr)) \<le> sint (realized_wei (snd pr))) (pairs h)"

definition tolerant :: "ReconcilePolicy \<Rightarrow> bool" where
  "tolerant P \<longleftrightarrow>
     f64_le (fg_threshold (rp_fast P)) f64_one \<and> f64_le (sg_threshold (rp_slow P)) f64_one \<and>
     sg_window (rp_slow P) \<le> 2 ^ 53 \<and>
     pred_option (\<lambda>c. f64_le (vw_threshold c) f64_one) (rp_volume_weighted P) \<and>
     pred_option (\<lambda>c. 0 \<le> sint (dd_max_drawdown_limit c)) (rp_drawdown P)"

definition reverts_tolerated :: "ReconcilePolicy \<Rightarrow> ReconcileHistory \<Rightarrow> bool" where
  "reverts_tolerated P h \<longleftrightarrow>
     pred_option (\<lambda>c. consecutive_reverts h < rb_limit c) (rp_revert_burst P) \<and>
     pred_option (\<lambda>c. gas_burned_exact h (rg_window c) \<le> unat (rg_budget_limit c)) (rp_revert_gas P)"

lemma over_performing_ratios:
  assumes "over_performing h"
  shows "list_all (f64_le f64_one) (recent_ratios h n)"
proof -
  have "f64_le f64_one x" if x: "x \<in> set (recent_ratios h n)" for x
  proof -
    obtain p r where pr: "(p, r) \<in> set (pairs h)" "positive_prediction (p, r)" "x = pair_ratio (p, r)"
      using recent_ratios_mem [OF x] by (metis surj_pair)
    then have "sint (predicted_wei p) \<le> sint (realized_wei r)"
      using assms by (auto simp: over_performing_def list_all_iff)
    then show ?thesis using pair_ratio_ge_one pr by simp
  qed
  then show ?thesis by (simp add: list_all_iff)
qed

lemma recent_ratios_wf: "list_all f64_wf (recent_ratios h n)"
  by (auto simp: list_all_iff pair_ratio_def intro!: f64_wf_ops dest!: recent_ratios_mem)

lemma over_performing_fast:
  assumes "over_performing h" "tolerant P" "policy_ok P"
  shows "fast_guard P h = None"
proof -
  let ?rs = "recent_ratios h (fg_window (rp_fast P))"
  have "\<not> f64_lt x (fg_threshold (rp_fast P))" if "x \<in> set ?rs" for x
    using over_performing_ratios [OF assms(1)] that assms(2) f64_not_lt_via
    by (fastforce simp: list_all_iff tolerant_def)
  moreover have "?rs \<noteq> []" if "length ?rs = fg_window (rp_fast P)"
    using that assms(3) by (auto simp: policy_ok_def)
  ultimately show ?thesis
    by (auto simp: fast_guard_def Let_def list_all_iff neq_Nil_conv)
qed

lemma over_performing_slow:
  assumes "over_performing h" "tolerant P" "policy_ok P"
  shows "slow_guard P h = None"
proof -
  let ?rs = "recent_ratios h (sg_window (rp_slow P))"
  have "f64_le f64_one (mean_ratio ?rs)" if "length ?rs = sg_window (rp_slow P)"
    using that assms by (intro mean_ratio_ge_one over_performing_ratios recent_ratios_wf) (auto simp: tolerant_def policy_ok_def)
  then show ?thesis
    using assms(2) f64_not_lt_via by (auto simp: slow_guard_def Let_def tolerant_def)
qed

lemma i128_quotient_ge_one:
  assumes "0 < sint (p :: i128)" "sint p \<le> sint (r :: i128)"
  shows "f64_le f64_one (f64_div (f64_of_int (sint r)) (f64_of_int (sint p)))"
  using pair_ratio_ge_one [of "PredictedProfit p" "RealizedProfit r"] assms
  by (simp add: pair_ratio_def positive_prediction_def)

lemma over_performing_volume_weighted:
  assumes "over_performing h" "tolerant P" "policy_ok P" "arithmetic_bounded h"
  shows "volume_weighted_guard pf P h = Some None"
proof (cases "rp_volume_weighted P")
  case (Some c)
  let ?w = "take (vw_window c) (filter positive_prediction (rev (pairs h)))"
  let ?p = "sum_list (map (\<lambda>pr. predicted_wei (fst pr)) ?w)"
  let ?r = "sum_list (map (\<lambda>pr. realized_wei (snd pr)) ?w)"
  note p = window_total_bounded [OF assms(4), of "\<lambda>pr. predicted_wei (fst pr)"]
  note r = window_total_bounded [OF assms(4), of "\<lambda>pr. realized_wei (snd pr)"]
  have "\<forall>pr \<in> set ?w. sint (predicted_wei (fst pr)) \<le> sint (realized_wei (snd pr))"
    using assms(1) by (auto simp: over_performing_def list_all_iff dest!: in_set_takeD)
  then have "window_total (\<lambda>pr. predicted_wei (fst pr)) h (vw_window c)
      \<le> window_total (\<lambda>pr. realized_wei (snd pr)) h (vw_window c)"
    unfolding window_total_def by (intro sum_list_mono) auto
  then have le: "sint ?p \<le> sint ?r" by (simp add: p(2) r(2) pair_mass_def)
  have "\<not> f64_lt (f64_div (f64_of_int (sint ?r)) (f64_of_int (sint ?p))) (vw_threshold c)"
    if "0 < sint ?p"
    using that le assms(2) Some by (intro f64_not_lt_via [OF i128_quotient_ge_one])
      (auto simp: tolerant_def)
  then show ?thesis
    by (simp add: volume_weighted_guard_def Some Let_def p(1) r(1) pair_mass_def)
qed (simp add: volume_weighted_guard_def)

lemma over_performing_drawdown:
  assumes "over_performing h" "tolerant P" "arithmetic_bounded h"
  shows "drawdown_guard pf P h = Some None"
proof -
  have "net_slippage_exact h k \<le> 0" for k
    using assms(1) unfolding net_slippage_exact_def over_performing_def list_all_iff
    by (intro sum_list_nonpos) (force dest!: in_set_takeD)
  then have "rows_reason (drawdown_rows P h) = None"
    using assms(2) by (fastforce simp: drawdown_rows_def Let_def tolerant_def not_less split: option.splits
        dest: less_le_trans order.strict_trans2)
  then show ?thesis by (simp add: drawdown_guard_rows [OF assms(3)])
qed

lemma over_performance_continues:
  assumes "over_performing h" "tolerant P" "policy_ok P" "arithmetic_bounded h" "reverts_tolerated P h"
  shows "run_guards pf P h = Some Continue"
proof -
  have "revert_burst_guard P h = None"
    using assms(5) by (auto simp: revert_burst_guard_def reverts_tolerated_def Let_def split: option.splits)
  moreover have "rows_reason (gas_rows P h) = None"
    using assms(5) by (auto simp: gas_rows_def reverts_tolerated_def Let_def split: option.splits)
  ultimately show ?thesis
    using over_performing_fast [OF assms(1-3)] over_performing_slow [OF assms(1-3)]
      over_performing_drawdown [OF assms(1,2,4)] over_performing_volume_weighted [OF assms(1-4)]
    by (simp add: run_guards_Continue gas_guard_rows [OF assms(4)])
qed

lemma mean_ratio_grid:
  assumes "sum_list ks \<le> 2 ^ 53" "length ks \<le> 2 ^ 53" "- 1074 \<le> e" "e \<le> 970" "ks \<noteq> []"
  shows "mean_ratio (map (\<lambda>k. Fin False (of_nat k * 2 powi e)) ks)
       = pack False (of_nat (sum_list ks) * 2 powi e / of_nat (length ks))"
  using assms(2,5) f64_of_int_exact [of "int (length ks)"]
  by (simp add: mean_ratio_def f64_sum_grid [OF assms(1,3,4,5)])

section \<open>Property 2: the two ratio guards are independent\<close>

definition steady_pairs :: "nat \<Rightarrow> i128 \<Rightarrow> i128 \<Rightarrow> HistoryEntry list" where
  "steady_pairs n p r = replicate n (ConfirmedPair (PredictedProfit p) (RealizedProfit r))"

definition slow_bleed :: ReconcileHistory where
  "slow_bleed = history_of (steady_pairs 20 8 5)"

definition sudden_break :: ReconcileHistory where
  "sudden_break = history_of (steady_pairs 17 1 1 @ steady_pairs 3 100 0)"

definition dual_guard :: ReconcilePolicy where
  "dual_guard = \<lparr>rp_fast = fast_guard_default, rp_slow = slow_guard_default, rp_revert_burst = None,
     rp_revert_gas = None, rp_volume_weighted = None, rp_drawdown = None\<rparr>"

lemma seventy_val: "11 / 16 \<le> rnd (70 / 100)" "rnd (70 / 100) \<le> 3 / 4"
  by (rule rnd_ge_exact; simp add: small_fractions) (rule rnd_le_exact; simp add: small_fractions)

lemma default_dual_guard_eq: "default_dual_guard pf = Some dual_guard"
proof -
  have "f64_lt (fg_threshold fast_guard_default) (sg_threshold slow_guard_default)"
    using f64_val_literal [of "70 / 100"] seventy_val
    by (simp add: fast_guard_default_def slow_guard_default_def literal_half f64_lt_finite)
  then show ?thesis
    by (simp add: default_dual_guard_def policy_new_def dual_guard_def fast_guard_default_def slow_guard_default_def)
qed

lemma filter_replicate: "filter P (replicate n x) = (if P x then replicate n x else [])"
  by (induction n) auto

lemma confirmed_steady [simp]:
  "confirmed_pairs (steady_pairs n p r) = replicate n (PredictedProfit p, RealizedProfit r)"
  by (induction n) (simp_all add: steady_pairs_def)

lemma pair_ratio_small:
  assumes "0 < sint p" "sint p \<le> 2 ^ 53" "0 \<le> sint r" "sint r \<le> 2 ^ 53"
  shows "pair_ratio (PredictedProfit p, RealizedProfit r) = pack False (of_int (sint r) / of_int (sint p))"
  using assms by (simp add: pair_ratio_def f64_of_int_exact)

lemma slow_bleed_ratios:
  "0 < n \<Longrightarrow> n \<le> 20 \<Longrightarrow> recent_ratios slow_bleed n = replicate n (Fin False (5 / 8))"
  using pack_grid [of 5 "- 3" False]
  by (simp add: recent_ratios_def slow_bleed_def filter_replicate positive_prediction_def pair_ratio_small
      power_int_def field_simps)

lemma slow_bleed_fast: "fast_guard dual_guard slow_bleed = None"
  by (simp add: fast_guard_def Let_def dual_guard_def fast_guard_default_def slow_bleed_ratios literal_half list_all_iff)

lemma slow_bleed_slow: "slow_guard dual_guard slow_bleed \<noteq> None"
proof -
  have m: "mean_ratio (replicate 20 (Fin False (5 / 8))) = Fin False (5 / 8)"
    using mean_ratio_grid [of "replicate 20 5" "- 3"] pack_grid [of 5 "- 3" False]
    by (simp add: power_int_def field_simps sum_list_replicate)
  have "f64_lt (Fin False (5 / 8)) (f64_of_rat (70 / 100))"
    using f64_val_literal [of "70 / 100"] seventy_val by (simp add: f64_lt_finite)
  then show ?thesis
    by (simp add: slow_guard_def dual_guard_def slow_guard_default_def slow_bleed_ratios m)
qed

lemma sudden_break_ratios:
  "recent_ratios sudden_break 3 = replicate 3 (Fin False 0)"
  "recent_ratios sudden_break 20 = replicate 17 (Fin False 1) @ replicate 3 (Fin False 0)"
  using pack_grid [of 0 "0" False] pack_grid [of 1 "0" False]
  by (simp_all add: recent_ratios_def sudden_break_def filter_replicate positive_prediction_def pair_ratio_small)

lemma sudden_break_fast: "fast_guard dual_guard sudden_break \<noteq> None"
  by (simp add: fast_guard_def Let_def dual_guard_def fast_guard_default_def sudden_break_ratios literal_half list_all_iff)

lemma sudden_break_slow: "slow_guard dual_guard sudden_break = None"
proof -
  have m: "mean_ratio (replicate 17 (Fin False 1) @ replicate 3 (Fin False 0)) = pack False (17 / 20)"
    using mean_ratio_grid [of "replicate 17 1 @ replicate 3 0" 0] by (simp add: sum_list_replicate)
  have "f64_le (Fin False (3 / 4)) (pack False (17 / 20))"
    by (rule f64_le_pack) (simp_all add: small_fractions)
  moreover have "f64_le (f64_of_rat (70 / 100)) (Fin False (3 / 4))"
    using f64_val_literal [of "70 / 100"] seventy_val by (simp add: f64_le_finite)
  ultimately have "\<not> f64_lt (pack False (17 / 20)) (f64_of_rat (70 / 100))"
    by (rule f64_not_lt_via)
  then show ?thesis
    by (simp add: slow_guard_def dual_guard_def slow_guard_default_def sudden_break_ratios m)
qed

section \<open>No NaN: means of ratios are finite\<close>

lemma mean_ratio_val:
  assumes "list_all ratio_sized xs" "0 < length xs" "length xs \<le> 2 ^ 53"
  shows "is_finite (mean_ratio xs) \<and> f64_val (mean_ratio xs) = rnd (f64_val (f64_sum xs) / of_nat (length xs))"
proof -
  let ?n = "of_nat (length xs) :: rat" and ?s = "f64_sum xs"
  have s: "is_finite ?s" "\<bar>f64_val ?s\<bar> \<le> ?n * 2 powi 127" using f64_sum_finite assms by auto
  have wf: "f64_wf ?s" using assms(1) by (intro f64_wf_sum) (auto simp: ratio_sized_def list_all_iff)
  have n: "f64_of_int (int (length xs)) = Fin False ?n"
    using assms(3) f64_of_int_exact [of "int (length xs)"] by simp
  have "\<bar>f64_val ?s / ?n\<bar> \<le> 2 powi 127"
    using s(2) assms(2) by (simp add: abs_divide divide_le_eq mult.commute del: power_int_numeral)
  moreover have "(2::rat) powi 127 \<le> 2 powi 1023" by (simp add: p2_le_iff del: power_int_numeral)
  ultimately have "\<bar>f64_val ?s / f64_val (Fin False ?n)\<bar> \<le> 2 powi 1023" by (simp del: power_int_numeral)
  moreover have "f64_wf (Fin False ?n)" unfolding n [symmetric] by simp
  ultimately have "is_finite (f64_div ?s (Fin False ?n)) \<and>
      f64_val (f64_div ?s (Fin False ?n)) = rnd (f64_val ?s / f64_val (Fin False ?n))"
    using s wf assms(2) by (intro f64_div_small) auto
  then show ?thesis by (simp add: mean_ratio_def n)
qed

lemma mean_ratio_sized:
  assumes "list_all ratio_sized xs" "0 < length xs" "length xs \<le> 2 ^ 53"
  shows "ratio_sized (mean_ratio xs)"
proof -
  let ?s = "f64_sum xs" and ?n = "of_nat (length xs) :: rat"
  have "\<bar>f64_val ?s / ?n\<bar> \<le> 2 powi 127"
    using f64_sum_finite [OF assms(1,3)] assms(2)
    by (simp add: abs_divide divide_le_eq mult.commute del: power_int_numeral)
  then have "\<bar>rnd (f64_val ?s / ?n)\<bar> \<le> 2 powi 127" by (rule abs_rnd_le_p2) simp
  moreover have "f64_wf (mean_ratio xs)"
    using assms(1) by (auto simp: mean_ratio_def ratio_sized_def list_all_iff intro!: f64_wf_ops f64_wf_sum)
  ultimately show ?thesis using mean_ratio_val [OF assms] by (simp add: ratio_sized_def)
qed

lemma mean_ratio_mono:
  assumes "list_all2 f64_le xs ys" "list_all ratio_sized xs" "list_all ratio_sized ys"
    "0 < length xs" "length xs \<le> 2 ^ 53"
  shows "f64_le (mean_ratio xs) (mean_ratio ys)"
proof -
  have len: "length ys = length xs" using list_all2_lengthD [OF assms(1)] by simp
  have v: "is_finite (mean_ratio zs) \<and> f64_val (mean_ratio zs) = rnd (f64_val (f64_sum zs) / of_nat (length zs))"
    if "list_all ratio_sized zs" "0 < length zs" "length zs \<le> 2 ^ 53" for zs
    using mean_ratio_val [OF that] .
  have "f64_le (f64_sum xs) (f64_sum ys)" using f64_sum_mono assms by blast
  moreover have "is_finite (f64_sum xs)" "is_finite (f64_sum ys)"
    using f64_sum_finite assms len by auto
  ultimately have "rnd (f64_val (f64_sum xs) / of_nat (length xs)) \<le> rnd (f64_val (f64_sum ys) / of_nat (length xs))"
    by (intro rnd_mono divide_right_mono) (auto simp: f64_le_finite)
  then show ?thesis using v [of xs] v [of ys] assms len by (simp add: f64_le_finite)
qed

lemma pair_ratio_sized: "positive_prediction pr \<Longrightarrow> ratio_sized (pair_ratio pr)"
proof -
  assume pos: "positive_prediction pr"
  obtain p r where pr: "pr = (p, r)" by (cases pr)
  have p1: "1 \<le> rnd (of_int (sint (predicted_wei p)))"
    using pos by (simp add: pr positive_prediction_def rnd_positive_int)
  have "\<bar>rnd (of_int (sint (realized_wei r)))\<bar> \<le> 2 powi 127"
    by (rule abs_rnd_le_p2 [OF i128_bounds]) simp
  moreover have "\<bar>rnd (of_int (sint (realized_wei r))) / rnd (of_int (sint (predicted_wei p)))\<bar>
      \<le> \<bar>rnd (of_int (sint (realized_wei r)))\<bar>"
    using p1 by (auto simp: abs_divide divide_le_eq mult_le_cancel_left1)
  ultimately have "\<bar>rnd (of_int (sint (realized_wei r))) / rnd (of_int (sint (predicted_wei p)))\<bar> \<le> 2 powi 127"
    by (rule order.trans [rotated])
  then have "\<bar>f64_val (pair_ratio pr)\<bar> \<le> 2 powi 127"
    using pair_ratio_val [of p r] pos pr abs_rnd_le_p2 [of _ 127] by (simp del: power_int_numeral)
  moreover have "f64_wf (pair_ratio pr)" by (simp add: pair_ratio_def f64_wf_ops)
  ultimately show ?thesis using pair_ratio_finite [OF pos] by (simp add: ratio_sized_def)
qed

lemma recent_ratios_sized: "list_all ratio_sized (recent_ratios h n)"
  using pair_ratio_sized by (auto simp: list_all_iff dest!: recent_ratios_mem)

section \<open>Property 3: stricter policies halt more\<close>

definition refines_option :: "('a \<Rightarrow> 'a \<Rightarrow> bool) \<Rightarrow> 'a option \<Rightarrow> 'a option \<Rightarrow> bool" where
  "refines_option R a b = (case a of None \<Rightarrow> True | Some c \<Rightarrow> (case b of None \<Rightarrow> False | Some d \<Rightarrow> R c d))"

text \<open>\<open>stricter P P'\<close>: every guard of \<open>P\<close> is one of \<open>P'\<close>, and trips no later there.\<close>

definition stricter :: "ReconcilePolicy \<Rightarrow> ReconcilePolicy \<Rightarrow> bool" where
  "stricter P P' \<longleftrightarrow>
     fg_window (rp_fast P') \<le> fg_window (rp_fast P) \<and>
     f64_le (fg_threshold (rp_fast P)) (fg_threshold (rp_fast P')) \<and>
     sg_window (rp_slow P') = sg_window (rp_slow P) \<and>
     f64_le (sg_threshold (rp_slow P)) (sg_threshold (rp_slow P')) \<and>
     refines_option (\<lambda>c d. rb_limit d \<le> rb_limit c) (rp_revert_burst P) (rp_revert_burst P') \<and>
     refines_option (\<lambda>c d. rg_window c \<le> rg_window d \<and> rg_budget_limit d \<le> rg_budget_limit c)
       (rp_revert_gas P) (rp_revert_gas P') \<and>
     refines_option (\<lambda>c d. vw_window c = vw_window d \<and> f64_le (vw_threshold c) (vw_threshold d))
       (rp_volume_weighted P) (rp_volume_weighted P') \<and>
     refines_option (\<lambda>c d. dd_window c = dd_window d \<and>
        sint (dd_max_drawdown_limit d) \<le> sint (dd_max_drawdown_limit c)) (rp_drawdown P) (rp_drawdown P')"

definition some_row :: "guard_row list \<Rightarrow> bool" where
  "some_row rows \<longleftrightarrow> (\<exists>row \<in> set rows. fst row)"

lemma first_row_Continue: "first_row rows = Continue \<longleftrightarrow> \<not> some_row rows"
  by (induction rows) (auto simp: first_row_def some_row_def)

lemma some_row_simps [simp]:
  "\<not> some_row []" "some_row (row # rows) \<longleftrightarrow> fst row \<or> some_row rows"
  "some_row (xs @ ys) \<longleftrightarrow> some_row xs \<or> some_row ys"
  by (auto simp: some_row_def)

lemma gas_burned_window_mono: "v \<le> w \<Longrightarrow> gas_burned_exact h v \<le> gas_burned_exact h w"
proof -
  assume "v \<le> w"
  then have "take w (rev (timeline h)) = take v (rev (timeline h)) @ take (w - v) (drop v (rev (timeline h)))"
    by (simp flip: take_add)
  then show ?thesis by (simp add: gas_burned_exact_def)
qed

lemma recent_ratios_window: "n \<le> m \<Longrightarrow> set (recent_ratios h n) \<subseteq> set (recent_ratios h m)"
  by (auto simp: recent_ratios_def intro!: image_mono set_take_subset_set_take)

lemma stricter_rows:
  assumes "stricter P P'"
  shows "some_row (burst_rows P h) \<Longrightarrow> some_row (burst_rows P' h)"
    and "some_row (gas_rows P h) \<Longrightarrow> some_row (gas_rows P' h)"
    and "some_row (fast_rows P h) \<Longrightarrow> some_row (fast_rows P' h)"
    and "some_row (drawdown_rows P h) \<Longrightarrow> some_row (drawdown_rows P' h)"
    and "some_row (volume_weighted_rows P h) \<Longrightarrow> some_row (volume_weighted_rows P' h)"
    and "some_row (slow_rows P h) \<Longrightarrow> some_row (slow_rows P' h)"
proof -
  note s = assms [unfolded stricter_def refines_option_def]
  show "some_row (burst_rows P' h)" if "some_row (burst_rows P h)"
    using that s by (cases "rp_revert_burst P"; cases "rp_revert_burst P'") (simp_all add: burst_rows_def)
  show "some_row (gas_rows P' h)" if gas: "some_row (gas_rows P h)"
  proof (cases "rp_revert_gas P"; cases "rp_revert_gas P'")
    fix c d assume cd: "rp_revert_gas P = Some c" "rp_revert_gas P' = Some d"
    then have "gas_burned_exact h (rg_window c) \<le> gas_burned_exact h (rg_window d)"
      "unat (rg_budget_limit d) \<le> unat (rg_budget_limit c)"
      using s gas_burned_window_mono by (simp_all add: word_le_nat_alt)
    then show ?thesis using gas cd by (simp add: gas_rows_def Let_def)
  qed (use gas s in \<open>simp_all add: gas_rows_def\<close>)
  have fw: "set (recent_ratios h (fg_window (rp_fast P'))) \<subseteq> set (recent_ratios h (fg_window (rp_fast P)))"
    using s by (intro recent_ratios_window) simp
  have ft: "f64_lt x (fg_threshold (rp_fast P))  \<Longrightarrow> f64_lt x (fg_threshold (rp_fast P'))" for x
    using s f64_lt_le_trans by blast
  show "some_row (fast_rows P' h)" if "some_row (fast_rows P h)"
    using that s fw ft by (auto simp: fast_rows_def Let_def list_all_iff)
  show "some_row (drawdown_rows P' h)" if "some_row (drawdown_rows P h)"
    using that s by (cases "rp_drawdown P"; cases "rp_drawdown P'") (auto simp: drawdown_rows_def Let_def)
  show "some_row (volume_weighted_rows P' h)" if "some_row (volume_weighted_rows P h)"
    using that s
    by (cases "rp_volume_weighted P"; cases "rp_volume_weighted P'")
      (auto simp: volume_weighted_rows_def Let_def elim: f64_lt_le_trans)
  show "some_row (slow_rows P' h)" if "some_row (slow_rows P h)"
    using that s by (auto simp: slow_rows_def Let_def elim: f64_lt_le_trans)
qed

lemma stricter_halts:
  assumes "stricter P P'" "policy_ok P" "policy_ok P'" "arithmetic_bounded h" "run_guards pf P h \<noteq> Some Continue"
  shows "run_guards pf P' h \<noteq> Some Continue"
  using assms(5) stricter_rows [OF assms(1), of h]
  by (auto simp: run_guards_spec [OF assms(2,4)] run_guards_spec [OF assms(3,4)] spec_decide_def first_row_Continue)

section \<open>Detection: a full window of bad pairs halts\<close>

definition bad_streak :: "ReconcilePolicy \<Rightarrow> HistoryEntry list \<Rightarrow> bool" where
  "bad_streak P es \<longleftrightarrow>
     (let counted = filter positive_prediction (confirmed_pairs es)
      in fg_window (rp_fast P) \<le> length counted \<and>
         list_all (\<lambda>pr. f64_lt (pair_ratio pr) (fg_threshold (rp_fast P))) counted)"

lemma bad_streak_fast:
  assumes "bad_streak P es" "history_ok h"
  shows "fast_guard P (foldl history_push h es) \<noteq> None"
proof -
  have h: "foldl history_push h es = history_of (timeline h @ es)"
    using assms(2) fold_history_push by (metis history_ok_iff)
  let ?k = "fg_window (rp_fast P)"
  let ?new = "filter positive_prediction (confirmed_pairs es)"
  have "take ?k (filter positive_prediction (rev (confirmed_pairs (timeline h @ es)))) = take ?k (rev ?new)"
    using assms(1) by (simp add: bad_streak_def Let_def flip: rev_filter)
  then have r: "recent_ratios (foldl history_push h es) ?k = rev (map pair_ratio (take ?k (rev ?new)))"
    by (simp add: recent_ratios_def h)
  show ?thesis
    unfolding fast_guard_iff r using assms(1)
    by (auto simp: h bad_streak_def Let_def list_all_iff dest!: in_set_takeD)
qed

lemma bad_streak_halts:
  assumes "bad_streak P es" "history_ok h"
  shows "run_guards pf P (foldl history_push h es) \<noteq> Some Continue"
  using bad_streak_fast [OF assms] by (simp add: run_guards_Continue)

section \<open>The default fast guard is an integer comparison\<close>

lemma default_ratio_iff:
  assumes "0 < p" "p \<le> 2 ^ 53" "\<bar>r\<bar> \<le> 2 ^ 53"
  shows "rnd (of_int r / of_int p) < 1 / 2 \<longleftrightarrow> 2 * r < p"
proof
  assume "rnd (of_int r / of_int p) < 1 / 2"
  then have "\<not> (1::rat) / 2 \<le> of_int r / of_int p"
    using rnd_mono [of "1 / 2" "of_int r / of_int p"] rnd_p2 [of "- 1"] by (auto simp: power_int_def field_simps)
  then have "(of_int (2 * r) :: rat) < of_int p" using assms(1) by (simp add: field_simps)
  then show "2 * r < p" by (simp only: of_int_less_iff)
next
  assume "2 * r < p"
  then have "(of_int (2 * r + 1) :: rat) \<le> of_int p" by (simp only: of_int_le_iff)
  then have "of_int r / of_int p \<le> (1::rat) / 2 - 1 / (2 * of_int p)" using assms(1) by (simp add: field_simps)
  also have "\<dots> \<le> 1 / 2 - 1 / 2 ^ 54"
  proof -
    have "(of_int p :: rat) \<le> of_int (2 ^ 53)" using assms(2) by (simp only: of_int_le_iff)
    then have "2 * (of_int p :: rat) \<le> 2 ^ 54" by simp
    then have "1 / (2 ^ 54 :: rat) \<le> 1 / (2 * of_int p)"
      using assms(1) by (intro divide_left_mono) auto
    then show ?thesis by simp
  qed
  finally have "rnd (of_int r / of_int p) \<le> rnd (1 / 2 - 1 / 2 ^ 54)" by (rule rnd_mono)
  also have "rnd (1 / 2 - 1 / 2 ^ 54) = 1 / 2 - 1 / 2 ^ 54"
    using round_mag_grid [of "2 ^ 53 - 1" "- 54"] by (simp add: rnd_def power_int_def field_simps)
  finally show "rnd (of_int r / of_int p) < 1 / 2" by simp
qed

definition modest :: "PredictedProfit \<times> RealizedProfit \<Rightarrow> bool" where
  "modest pr \<longleftrightarrow> \<bar>sint (predicted_wei (fst pr))\<bar> \<le> 2 ^ 53 \<and> \<bar>sint (realized_wei (snd pr))\<bar> \<le> 2 ^ 53"

lemma default_fast_pair:
  assumes "positive_prediction pr" "modest pr"
  shows "f64_lt (pair_ratio pr) (fg_threshold fast_guard_default)
     \<longleftrightarrow> 2 * sint (realized_wei (snd pr)) < sint (predicted_wei (fst pr))"
proof -
  obtain p r where pr: "pr = (p, r)" by (cases pr)
  have "f64_lt (pair_ratio pr) (Fin False (1 / 2)) \<longleftrightarrow> f64_val (pair_ratio pr) < 1 / 2"
    using pair_ratio_finite [OF assms(1)] by (simp add: f64_lt_finite)
  then show ?thesis
    using assms default_ratio_iff [of "sint (predicted_wei p)" "sint (realized_wei r)"]
    by (simp add: pair_ratio_val pr modest_def positive_prediction_def rnd_of_int fast_guard_default_def literal_half)
qed

text \<open>
  Beyond the range in which every amount is a float: a realization short of half of the prediction by
  one part in a trillion is below one half after all roundings.
\<close>

lemma wide_ratio:
  assumes "0 < p" "10 ^ 12 * (2 * r) \<le> (10 ^ 12 - 1) * p"
  shows "rnd (rnd (of_int r) / rnd (of_int p)) < 1 / 2"
proof (cases "r \<le> 0")
  case True
  have "rnd (of_int r) \<le> 0" using rnd_mono [of "of_int r" 0] True by simp
  moreover have "0 \<le> rnd (of_int p)" using rnd_mono [of 0 "of_int p"] assms(1) by simp
  ultimately have "rnd (of_int r) / rnd (of_int p) \<le> 0" by (rule divide_nonpos_nonneg)
  then have "rnd (rnd (of_int r) / rnd (of_int p)) \<le> rnd 0" by (rule rnd_mono)
  then show ?thesis by (rule le_less_trans) simp
next
  case False
  let ?R = "rnd (of_int r)" and ?P = "rnd (of_int p)" and ?h = "1 / 2 - 1 / 2 ^ 54 :: rat"
  have R: "\<bar>?R - of_int r\<bar> \<le> of_int r / 2 ^ 53" and P: "\<bar>?P - of_int p\<bar> \<le> of_int p / 2 ^ 53"
    using round_mag_int_error [of r] round_mag_int_error [of p] False assms(1) by (simp_all add: rnd_nonneg_form)
  have p: "(1 :: rat) \<le> of_int p" "(1 :: rat) \<le> of_int r" using assms(1) False by simp_all
  have rp: "10 ^ 12 * (2 * of_int r) \<le> (10 ^ 12 - 1) * (of_int p :: rat)"
  proof -
    have "(of_int (10 ^ 12 * (2 * r)) :: rat) \<le> of_int ((10 ^ 12 - 1) * p)" using assms(2) by (simp only: of_int_le_iff)
    then show ?thesis by simp
  qed
  have "?R \<le> of_int r * (1 + 1 / 2 ^ 53)" using abs_le_D1 [OF R] by (simp add: algebra_simps)
  moreover have "of_int p * (1 - 1 / 2 ^ 53) \<le> ?P" using abs_le_D2 [OF P] by (simp add: algebra_simps)
  moreover have "of_int r * (1 + 1 / 2 ^ 53) \<le> of_int p * (1 - 1 / 2 ^ 53) * ?h" using rp p by simp
  ultimately have "?R \<le> ?P * ?h" by simp
  moreover have "0 < ?P" using abs_le_D2 [OF P] p by simp
  ultimately have "?R / ?P \<le> ?h" by (simp add: pos_divide_le_eq mult.commute)
  then have "rnd (?R / ?P) \<le> rnd ?h" by (rule rnd_mono)
  also have "rnd ?h = ?h"
    using round_mag_grid [of "2 ^ 53 - 1" "- 54"] by (simp add: rnd_def power_int_def field_simps)
  finally show ?thesis by simp
qed

lemma default_fast_pair_wide:
  assumes "positive_prediction (p, r)"
    "10 ^ 12 * (2 * sint (realized_wei r)) \<le> (10 ^ 12 - 1) * sint (predicted_wei p)"
  shows "f64_lt (pair_ratio (p, r)) (fg_threshold fast_guard_default)"
proof -
  have "0 < sint (predicted_wei p)" using assms(1) by (simp add: positive_prediction_def)
  then have "f64_val (pair_ratio (p, r)) < 1 / 2"
    using wide_ratio [OF _ assms(2)] by (simp add: pair_ratio_val [OF assms(1)])
  then show ?thesis
    using pair_ratio_finite [OF assms(1)] by (simp add: f64_lt_finite fast_guard_default_def literal_half)
qed

section \<open>Properties\<close>

text \<open>
  C1. Refinement: on every history whose amounts do not overflow, in both build profiles, \<^verbatim>\<open>evaluate\<close>
  returns (it does not panic), leaves the policy as it was, and decides what the specification over
  ideal integers decides: the first condition of the table that holds, in the order revert burst,
  revert gas, fast, drawdown, volume weighted, slow.
\<close>

theorem evaluate_refines_spec:
  assumes "policy_ok P" "arithmetic_bounded h"
  shows "policy_evaluate pf P h = Some (spec_decide P h, P)"
  by (simp add: policy_evaluate_def run_guards_spec [OF assms])

lemma dual_guard_ok: "policy_ok dual_guard"
  by (simp add: policy_ok_def dual_guard_def fast_guard_default_def slow_guard_default_def)

lemma revert_events_rev: "revert_events (rev es) = rev (revert_events es)"
  by (induction es rule: revert_events.induct) auto

lemma consecutive_le_reverts: "consecutive_reverts h \<le> length (revert_events (timeline h))"
proof -
  have "length (takeWhile is_revert es) \<le> length (revert_events es)" for es
    by (induction es rule: revert_events.induct) auto
  from this [of "rev (timeline h)"] show ?thesis by (simp add: consecutive_reverts_eq revert_events_rev)
qed

lemma gas_burned_no_reverts: "revert_events (timeline h) = [] \<Longrightarrow> gas_burned_exact h w = 0"
  using gas_burned_exact_le [of h w] by (simp add: gas_burned_exact_def revert_events_rev)

lemma revert_events_steady [simp]: "revert_events (steady_pairs n p r) = []"
  by (induction n) (simp_all add: steady_pairs_def)

lemma slow_bleed_bounded: "arithmetic_bounded slow_bleed"
  by (simp add: arithmetic_bounded_def gas_burned_no_reverts slow_bleed_def pair_mass_def sum_list_replicate)

theorem evaluate_refines_spec_witness:
  "policy_evaluate Debug dual_guard slow_bleed = Some (spec_decide dual_guard slow_bleed, dual_guard)"
  using dual_guard_ok slow_bleed_bounded by (rule evaluate_refines_spec)

text \<open>
  A release build never panics: \<^verbatim>\<open>evaluate\<close> returns a decision for every policy and every
  history, of any size and with any amounts, and does not change the policy.
\<close>

theorem evaluate_release_total: "\<exists>d. policy_evaluate Release P h = Some (d, P)"
  using run_guards_Release [of P h] by (auto simp: policy_evaluate_def)

definition drawdown_policy :: ReconcilePolicy where
  "drawdown_policy = dual_guard\<lparr>rp_drawdown := Some \<lparr>dd_max_drawdown_limit = 1000, dd_window = 1\<rparr>\<rparr>"

definition overflowing_history :: ReconcileHistory where
  "overflowing_history = history_append history_new (PredictedProfit (2 ^ 127 - 1)) (RealizedProfit (- 1))"

text \<open>
  C29. A debug build can panic inside \<^verbatim>\<open>evaluate\<close>: with a drawdown guard over a window of one, a
  single pair whose prediction and loss are each representable, but not their difference, aborts
  the evaluation; the same history in a release build wraps to a negative loss and continues.
\<close>

theorem drawdown_overflow:
  "policy_evaluate Debug drawdown_policy overflowing_history = panic \<and>
   policy_evaluate Release drawdown_policy overflowing_history = Some (Continue, drawdown_policy)"
proof -
  let ?P = drawdown_policy and ?h = overflowing_history
  note defs = drawdown_policy_def overflowing_history_def dual_guard_def
  have "length (recent_ratios ?h n) \<le> 1" for n
    by (simp add: length_recent_ratios overflowing_history_def)
  from this [of 3] this [of 20] have ratio_guards: "fast_guard ?P ?h = None" "slow_guard ?P ?h = None"
    by (auto simp: fast_guard_def slow_guard_def Let_def defs fast_guard_default_def slow_guard_default_def)
  have others: "revert_burst_guard ?P ?h = None" "revert_gas_guard pf ?P ?h = Some None"
    "volume_weighted_guard pf ?P ?h = Some None" for pf
    by (simp_all add: revert_burst_guard_def revert_gas_guard_def volume_weighted_guard_def defs)
  have "drawdown_guard Debug ?P ?h = None" "drawdown_guard Release ?P ?h = Some None"
    by (simp_all add: drawdown_guard_def Let_def slippage_def s_sub_def s_sum_def s_add_def defs)
  then show ?thesis by (simp add: policy_evaluate_def run_guards_def guard_or_def ratio_guards others)
qed

text \<open>
  C28. Over-performance never halts (whitepaper, Property 1): when every pair realizes at least what
  was predicted, the thresholds are at most one, the slow window is of at most \<open>2 ^ 53\<close> ratios, the
  drawdown limit is not negative, and the revert limits are kept, \<^verbatim>\<open>evaluate\<close> returns \<^verbatim>\<open>Continue\<close>, in both profiles, as long as the sums over the
  history fit their types.
\<close>

theorem over_performance_never_halts:
  assumes "over_performing h" "tolerant P" "policy_ok P" "arithmetic_bounded h" "reverts_tolerated P h"
  shows "policy_evaluate pf P h = Some (Continue, P)"
  by (simp add: policy_evaluate_def over_performance_continues [OF assms])

definition windfall :: ReconcileHistory where
  "windfall = history_of (steady_pairs 30 100 238)"

lemma dual_guard_tolerant: "tolerant dual_guard"
proof -
  have "f64_le (f64_of_rat (7 / 10)) f64_one"
    using f64_val_literal [of "7 / 10"] seventy_val by (simp add: f64_le_finite f64_one_def)
  then show ?thesis
    by (simp add: tolerant_def dual_guard_def fast_guard_default_def slow_guard_default_def literal_half f64_one_def)
qed

theorem over_performance_never_halts_witness:
  "policy_evaluate Debug dual_guard windfall = Some (Continue, dual_guard)"
  using dual_guard_tolerant dual_guard_ok
  by (intro over_performance_never_halts)
    (simp_all add: over_performing_def list_all_iff windfall_def arithmetic_bounded_def pair_mass_def
      gas_burned_no_reverts reverts_tolerated_def dual_guard_def sum_list_replicate)

text \<open>
  C10. Detection: once \<open>k_f\<close> counted pairs below the fast threshold have arrived since any history,
  with any reverts and any uncounted pairs between them, \<^verbatim>\<open>evaluate\<close> no longer continues: it halts,
  whatever came before and whatever other guards are configured, as long as the sums over the history
  fit their types (\<open>arithmetic_bounded\<close>).
\<close>

theorem bad_streak_is_detected:
  assumes "policy_ok P" "history_ok h" "bad_streak P es" "arithmetic_bounded (foldl history_push h es)"
  shows "\<exists>reason. policy_evaluate pf P (foldl history_push h es) = Some (Halt reason, P)"
proof -
  have "run_guards pf P (foldl history_push h es) \<noteq> Some Continue"
    by (rule bad_streak_halts [OF assms(3,2)])
  then show ?thesis
    unfolding policy_evaluate_def run_guards_spec [OF assms(1,4)]
    by (cases "spec_decide P (foldl history_push h es)") auto
qed

theorem bad_streak_is_detected_witness:
  "\<exists>reason. policy_evaluate Debug dual_guard
      (foldl history_push (history_of (steady_pairs 17 1 1)) (steady_pairs 3 100 0)) = Some (Halt reason, dual_guard)"
proof (rule bad_streak_is_detected [OF dual_guard_ok])
  have "pair_ratio (PredictedProfit 100, RealizedProfit 0) = Fin False 0"
    using pack_grid [of 0 0 False] by (simp add: pair_ratio_small)
  then show "bad_streak dual_guard (steady_pairs 3 100 0)"
    by (simp add: bad_streak_def filter_replicate positive_prediction_def Let_def dual_guard_def
        fast_guard_default_def literal_half list_all_iff)
  show "arithmetic_bounded (foldl history_push (history_of (steady_pairs 17 1 1)) (steady_pairs 3 100 0))"
    by (simp add: fold_history_push arithmetic_bounded_def gas_burned_no_reverts pair_mass_def sum_list_replicate)
qed simp

text \<open>
  C20. Monotonicity (whitepaper, Property 3, for all guards together): a policy with higher ratio
  thresholds, lower limits and budgets, a shorter fast window or additional guards halts on every
  history on which the laxer policy halts, as long as the sums over the history fit their types.
\<close>

theorem stricter_policy_halts:
  assumes "stricter P P'" "policy_ok P" "policy_ok P'" "arithmetic_bounded h"
    and "policy_evaluate pf P h \<noteq> Some (Continue, P)"
  shows "policy_evaluate pf P' h \<noteq> Some (Continue, P')"
proof -
  have "run_guards pf P h \<noteq> Some Continue" using assms(5) by (auto simp: policy_evaluate_def)
  from stricter_halts [OF assms(1-4) this] show ?thesis
    by (auto simp: policy_evaluate_def bind_eq_Some_conv)
qed

definition wary_policy :: ReconcilePolicy where
  "wary_policy = dual_guard\<lparr>rp_revert_burst := Some revert_burst_default\<rparr>"

theorem stricter_policy_halts_witness:
  "policy_evaluate Debug wary_policy slow_bleed \<noteq> Some (Continue, wary_policy)"
proof (rule stricter_policy_halts [OF _ dual_guard_ok _ slow_bleed_bounded])
  have "f64_le (f64_of_rat q) (f64_of_rat q)" if "\<bar>q\<bar> \<le> 1" for q
    using f64_val_literal [OF that] by (simp add: f64_le_finite)
  from this [of "1 / 2"] this [of "7 / 10"] show "stricter dual_guard wary_policy"
    by (simp add: stricter_def wary_policy_def dual_guard_def refines_option_def fast_guard_default_def
        slow_guard_default_def)
  show "policy_ok wary_policy"
    using dual_guard_ok by (simp add: policy_ok_def wary_policy_def revert_burst_default_def)
  have "run_guards Debug dual_guard slow_bleed \<noteq> Some Continue"
    using slow_bleed_slow by (simp add: run_guards_Continue)
  then show "policy_evaluate Debug dual_guard slow_bleed \<noteq> Some (Continue, dual_guard)"
    by (auto simp: policy_evaluate_def bind_eq_Some_conv)
qed

text \<open>
  Guard independence (whitepaper, Property 2), with the default thresholds: twenty pairs at a
  ratio of 0.625 trip the slow guard alone, and three total losses after seventeen exact pairs trip
  the fast guard alone.
\<close>

theorem guards_independent:
  "\<exists>P. default_dual_guard pf = Some P \<and>
     fast_guard P slow_bleed = None \<and> slow_guard P slow_bleed \<noteq> None \<and>
     fast_guard P sudden_break \<noteq> None \<and> slow_guard P sudden_break = None"
  using default_dual_guard_eq slow_bleed_fast slow_bleed_slow sudden_break_fast sudden_break_slow by blast

text \<open>
  The mean the slow guard compares is a finite number: for a window of up to \<open>2 ^ 53\<close> ratios, of
  any 128-bit amounts, neither the running sum nor the quotient becomes infinite or NaN.
\<close>

theorem slow_mean_finite:
  assumes "0 < length (recent_ratios h n)" "length (recent_ratios h n) \<le> 2 ^ 53"
  shows "is_finite (mean_ratio (recent_ratios h n))"
  using mean_ratio_sized [OF recent_ratios_sized assms] by (simp add: ratio_sized_def)

theorem slow_mean_finite_witness: "is_finite (mean_ratio (recent_ratios slow_bleed 20))"
  by (rule slow_mean_finite) (simp_all add: slow_bleed_ratios)

text \<open>
  The default fast guard is an exact integer test: while the amounts are at most \<open>2 ^ 53\<close> in
  magnitude, it trips exactly when three counted pairs exist and each of the last three realized
  less than half of its prediction. No rounding can move a pair across the threshold.
\<close>

theorem default_fast_guard_exact:
  assumes "list_all modest (pairs h)" "rp_fast P = fast_guard_default"
  shows "(\<exists>reason. fast_guard P h = Some reason) \<longleftrightarrow>
     (let last3 = take 3 (filter positive_prediction (rev (pairs h)))
      in length last3 = 3 \<and>
         list_all (\<lambda>pr. 2 * sint (realized_wei (snd pr)) < sint (predicted_wei (fst pr))) last3)"
proof -
  let ?last3 = "take 3 (filter positive_prediction (rev (pairs h)))"
  have len: "length (filter positive_prediction (rev (pairs h))) = length (filter positive_prediction (pairs h))"
    by (simp flip: rev_filter)
  have sub: "positive_prediction pr \<and> modest pr" if "pr \<in> set ?last3" for pr
    using in_set_takeD [OF that] assms(1) unfolding list_all_iff by simp
  have each: "f64_lt (pair_ratio pr) (fg_threshold (rp_fast P)) \<longleftrightarrow>
      2 * sint (realized_wei (snd pr)) < sint (predicted_wei (fst pr))" if "pr \<in> set ?last3" for pr
    unfolding assms(2) using sub [OF that] by (intro default_fast_pair) blast+
  have w: "fg_window (rp_fast P) = 3" by (simp add: assms(2) fast_guard_default_def)
  have "(\<exists>reason. fast_guard P h = Some reason) \<longleftrightarrow>
      3 \<le> length (filter positive_prediction (pairs h)) \<and>
      (\<forall>pr \<in> set ?last3. f64_lt (pair_ratio pr) (fg_threshold (rp_fast P)))"
    using fast_guard_iff [of P h] unfolding w not_None_eq recent_ratios_def by simp
  also have "(\<forall>pr \<in> set ?last3. f64_lt (pair_ratio pr) (fg_threshold (rp_fast P))) \<longleftrightarrow>
      (\<forall>pr \<in> set ?last3. 2 * sint (realized_wei (snd pr)) < sint (predicted_wei (fst pr)))"
    using each by blast
  also have "3 \<le> length (filter positive_prediction (pairs h)) \<longleftrightarrow> length ?last3 = 3"
    unfolding window_full_iff len ..
  finally show ?thesis by (simp add: Let_def list_all_iff)
qed

theorem default_fast_guard_exact_witness:
  "(\<exists>reason. fast_guard dual_guard sudden_break = Some reason) \<longleftrightarrow>
     (let last3 = take 3 (filter positive_prediction (rev (pairs sudden_break)))
      in length last3 = 3 \<and>
         list_all (\<lambda>pr. 2 * sint (realized_wei (snd pr)) < sint (predicted_wei (fst pr))) last3)"
  by (rule default_fast_guard_exact)
    (simp_all add: sudden_break_def modest_def list_all_iff dual_guard_def)

text \<open>
  A short history continues (whitepaper, Property 4): while there are fewer pairs than every
  window and no revert, no guard trips and none panics, in both profiles.
\<close>

theorem insufficient_history_continues:
  assumes "policy_ok P" "reverts h = []" "history_ok h"
    and "length (pairs h) < min (fg_window (rp_fast P)) (sg_window (rp_slow P))"
    and "pred_option (\<lambda>c. length (pairs h) < vw_window c) (rp_volume_weighted P)"
    and "pred_option (\<lambda>c. length (pairs h) < dd_window c) (rp_drawdown P)"
  shows "policy_evaluate pf P h = Some (Continue, P)"
proof -
  have no_rev: "revert_events (timeline h) = []" using assms(2,3) by (simp add: history_ok_def)
  have short: "length (filter positive_prediction (pairs h)) < k \<and>
      length (filter positive_prediction (rev (pairs h))) < k" if "length (pairs h) < k" for k
    using that length_filter_le [of positive_prediction "pairs h"]
      length_filter_le [of positive_prediction "rev (pairs h)"]
    unfolding length_rev by linarith
  have "consecutive_reverts h \<le> length (revert_events (timeline h))"
    by (rule consecutive_le_reverts)
  then have "revert_burst_guard P h = None"
    using assms(1) no_rev
    by (auto simp: revert_burst_guard_def policy_ok_def Let_def split: option.splits)
  moreover have "revert_gas_guard pf P h = Some None"
    using gas_burned_no_reverts [OF no_rev]
    by (auto simp: revert_gas_guard_def recent_revert_gas_burned_eq split: option.splits)
  moreover have "fast_guard P h = None" "slow_guard P h = None"
    using assms(4) short [of "fg_window (rp_fast P)"] short [of "sg_window (rp_slow P)"]
    by (auto simp: fast_guard_def slow_guard_def Let_def length_recent_ratios)
  moreover have "drawdown_guard pf P h = Some None"
    using assms(6) by (auto simp: drawdown_guard_def Let_def split: option.splits)
  moreover have "volume_weighted_guard pf P h = Some None"
    using assms(5) short by (force simp: volume_weighted_guard_def Let_def split: option.splits)
  ultimately have "run_guards pf P h = Some Continue" by (simp add: run_guards_Continue)
  then show ?thesis by (simp add: policy_evaluate_def)
qed

theorem insufficient_history_continues_witness:
  "policy_evaluate Debug dual_guard (history_of (steady_pairs 2 100 0)) = Some (Continue, dual_guard)"
  by (rule insufficient_history_continues [OF dual_guard_ok])
    (simp_all add: dual_guard_def fast_guard_default_def slow_guard_default_def)

end
