(* ===== verification/Reconcile_Order.thy ===== *)
theory Reconcile_Order
  imports Reconcile_Spec
begin

text \<open>
  The halt policy is monotone in the outcomes: what is worse for the trader never makes it continue.
  A history is worse than another when the same transactions were confirmed and reverted, with the
  same predictions, and each realized no more, or burned no less gas. Every guard is followed through
  its arithmetic, the roundings of binary64 included.
\<close>

section \<open>Worse histories\<close>

fun worse_entry :: "HistoryEntry \<Rightarrow> HistoryEntry \<Rightarrow> bool" where
  "worse_entry (ConfirmedPair p r) (ConfirmedPair p' r') \<longleftrightarrow> p' = p \<and> r' \<le> r"
| "worse_entry (RevertedTx e) (RevertedTx e') \<longleftrightarrow> gas_cost_exact e \<le> gas_cost_exact e'"
| "worse_entry _ _ \<longleftrightarrow> False"

definition worse_history :: "ReconcileHistory \<Rightarrow> ReconcileHistory \<Rightarrow> bool" where
  "worse_history h h' \<longleftrightarrow> list_all2 worse_entry (timeline h) (timeline h')"

definition worse_pair :: "PredictedProfit \<times> RealizedProfit \<Rightarrow> PredictedProfit \<times> RealizedProfit \<Rightarrow> bool" where
  "worse_pair pr pr' \<longleftrightarrow> fst pr' = fst pr \<and> snd pr' \<le> snd pr"

lemma worse_entries:
  assumes "list_all2 worse_entry es es'"
  shows "list_all2 worse_pair (confirmed_pairs es) (confirmed_pairs es')"
    and "list_all2 (\<lambda>e e'. gas_cost_exact e \<le> gas_cost_exact e') (revert_events es) (revert_events es')"
    and "map is_revert es = map is_revert es'"
  using assms by (induction es es' rule: list_all2_induct)
    (auto elim!: worse_entry.elims simp: worse_pair_def)

lemma worse_reverts: "worse_history h h' \<Longrightarrow> consecutive_reverts h' = consecutive_reverts h"
  unfolding worse_history_def by (rule consecutive_reverts_cong [symmetric]) (rule worse_entries(3))

lemma worse_gas: "worse_history h h' \<Longrightarrow> gas_burned_exact h w \<le> gas_burned_exact h' w"
  unfolding gas_burned_exact_def worse_history_def
  by (rule list_all2_sum_mono, rule worse_entries(2)) (simp_all add: list_all2_takeI)

text \<open>Windows of pairs correspond.\<close>

lemma worse_pairs:
  assumes "worse_history h h'" "history_ok h" "history_ok h'"
  shows "list_all2 worse_pair (pairs h) (pairs h')"
  using worse_entries(1) assms by (simp add: worse_history_def history_ok_def)

lemma worse_window:
  assumes "worse_history h h'" "history_ok h" "history_ok h'"
  shows "list_all2 worse_pair (take k (rev (pairs h))) (take k (rev (pairs h')))"
    and "list_all2 worse_pair (take k (filter positive_prediction (rev (pairs h))))
           (take k (filter positive_prediction (rev (pairs h'))))"
    and "length (pairs h') = length (pairs h)"
    and "length (filter positive_prediction (pairs h')) = length (filter positive_prediction (pairs h))"
proof -
  note w = worse_pairs [OF assms]
  have f: "list_all2 worse_pair xs ys \<Longrightarrow>
      list_all2 worse_pair (filter positive_prediction xs) (filter positive_prediction ys)" for xs ys
    by (erule list_all2_filter) (simp add: worse_pair_def positive_prediction_def)
  show "list_all2 worse_pair (take k (rev (pairs h))) (take k (rev (pairs h')))"
    using w by (simp add: list_all2_takeI)
  show "list_all2 worse_pair (take k (filter positive_prediction (rev (pairs h))))
           (take k (filter positive_prediction (rev (pairs h'))))"
    using w by (intro list_all2_takeI f) simp
  show "length (pairs h') = length (pairs h)" using w by (simp add: list_all2_lengthD)
  show "length (filter positive_prediction (pairs h')) = length (filter positive_prediction (pairs h))"
    using list_all2_lengthD [OF f [OF w]] by simp
qed

lemma worse_pair_ratio:
  "worse_pair pr pr' \<Longrightarrow> positive_prediction pr \<Longrightarrow> f64_le (pair_ratio pr') (pair_ratio pr)"
  by (auto simp: pair_ratio_def worse_pair_def positive_prediction_def less_eq_RealizedProfit_def
      intro!: i128_quotient_mono)

lemma worse_ratios:
  assumes "worse_history h h'" "history_ok h" "history_ok h'"
  shows "list_all2 f64_le (recent_ratios h' n) (recent_ratios h n)"
proof -
  let ?w = "\<lambda>h. take n (filter positive_prediction (rev (pairs h)))"
  have *: "list_all2 worse_pair xs ys \<Longrightarrow> list_all positive_prediction xs \<Longrightarrow>
      list_all2 f64_le (map pair_ratio ys) (map pair_ratio xs)" for xs ys
    by (induction rule: list_all2_induct) (auto intro: worse_pair_ratio)
  have "list_all positive_prediction (?w h)" by (auto simp: list_all_iff dest!: in_set_takeD)
  from * [OF worse_window(2) [OF assms] this] show ?thesis by (simp add: recent_ratios_def)
qed

lemma worse_slippage:
  assumes "worse_history h h'" "history_ok h" "history_ok h'"
  shows "net_slippage_exact h k \<le> net_slippage_exact h' k"
  unfolding net_slippage_exact_def
  by (rule list_all2_sum_mono [OF worse_window(1) [OF assms]])
    (simp add: worse_pair_def less_eq_RealizedProfit_def)

lemma worse_totals:
  assumes "worse_history h h'" "history_ok h" "history_ok h'"
  shows "total_predicted_exact h' k = total_predicted_exact h k"
    and "total_realized_exact h' k \<le> total_realized_exact h k"
proof -
  let ?w = "\<lambda>h. take k (filter positive_prediction (rev (pairs h)))"
  have w: "list_all2 worse_pair (?w h) (?w h')" by (rule worse_window(2) [OF assms])
  then have "map (\<lambda>pr. sint (predicted_wei (fst pr))) (?w h) = map (\<lambda>pr. sint (predicted_wei (fst pr))) (?w h')"
    by (induction rule: list_all2_induct) (auto simp: worse_pair_def)
  then show "total_predicted_exact h' k = total_predicted_exact h k"
    by (simp add: total_predicted_exact_def window_total_def)
  have "list_all2 (\<lambda>x y. worse_pair y x) (?w h') (?w h)"
    using w by (induction rule: list_all2_induct) auto
  then show "total_realized_exact h' k \<le> total_realized_exact h k"
    unfolding total_realized_exact_def window_total_def
    by (rule list_all2_sum_mono) (simp add: worse_pair_def less_eq_RealizedProfit_def)
qed

lemma worse_weighted:
  assumes "worse_history h h'" "history_ok h" "history_ok h'" "policy_ok P" "arithmetic_bounded h"
    "arithmetic_bounded h'"
    and "0 < k" "k \<le> length (filter positive_prediction (pairs h))"
  shows "f64_le (f64_div (f64_of_int (total_realized_exact h' k)) (f64_of_int (total_predicted_exact h' k)))
     (f64_div (f64_of_int (total_realized_exact h k)) (f64_of_int (total_predicted_exact h k)))"
proof -
  have ex: "\<exists>x :: i128. sint x = total_realized_exact g k" "\<exists>x :: i128. sint x = total_predicted_exact g k"
    if "arithmetic_bounded g" for g
    unfolding total_realized_exact_def total_predicted_exact_def
    by (rule exI, rule window_total_bounded(2) [OF that], simp add: pair_mass_def)+
  obtain r r' p :: i128 where w: "sint r = total_realized_exact h k" "sint r' = total_realized_exact h' k"
    "sint p = total_predicted_exact h k"
    using ex(1) [OF assms(5)] ex(1) [OF assms(6)] ex(2) [OF assms(5)] by blast
  have "0 < sint p" using total_predicted_pos [OF assms(7,8)] by (simp add: w)
  moreover have "sint r' \<le> sint r" using worse_totals(2) [OF assms(1-3)] by (simp add: w)
  ultimately show ?thesis
    using i128_quotient_mono by (simp add: worse_totals(1) [OF assms(1-3)] flip: w)
qed

section \<open>Every guard is monotone\<close>

lemma worse_rows:
  assumes "worse_history h h'" "history_ok h" "history_ok h'" "policy_ok P" "arithmetic_bounded h"
    "arithmetic_bounded h'" "sg_window (rp_slow P) \<le> 2 ^ 53"
  shows "some_row (burst_rows P h) \<Longrightarrow> some_row (burst_rows P h')"
    and "some_row (gas_rows P h) \<Longrightarrow> some_row (gas_rows P h')"
    and "some_row (fast_rows P h) \<Longrightarrow> some_row (fast_rows P h')"
    and "some_row (drawdown_rows P h) \<Longrightarrow> some_row (drawdown_rows P h')"
    and "some_row (volume_weighted_rows P h) \<Longrightarrow> some_row (volume_weighted_rows P h')"
    and "some_row (slow_rows P h) \<Longrightarrow> some_row (slow_rows P h')"
proof -
  note len = worse_window(3,4) [OF assms(1-3)]
  note ratios = worse_ratios [OF assms(1-3)]
  show "some_row (burst_rows P h')" if "some_row (burst_rows P h)"
    using that worse_reverts [OF assms(1)] by (auto simp: burst_rows_def split: option.splits)
  show "some_row (gas_rows P h')" if "some_row (gas_rows P h)"
    using that by (auto simp: gas_rows_def Let_def split: option.splits
        intro: less_le_trans [OF _ worse_gas [OF assms(1)]])
  have "list_all2 f64_le xs ys \<Longrightarrow> list_all (\<lambda>x. f64_lt x t) ys \<Longrightarrow> list_all (\<lambda>x. f64_lt x t) xs" for xs ys t
    by (induction rule: list_all2_induct) (auto intro: f64_le_lt_trans)
  with ratios show "some_row (fast_rows P h')" if "some_row (fast_rows P h)"
    using that len by (auto simp: fast_rows_def Let_def)
  show "some_row (drawdown_rows P h')" if "some_row (drawdown_rows P h)"
    using that len by (auto simp: drawdown_rows_def Let_def split: option.splits
        intro: less_le_trans [OF _ worse_slippage [OF assms(1-3)]])
  show "some_row (volume_weighted_rows P h')" if vw: "some_row (volume_weighted_rows P h)"
  proof (cases "rp_volume_weighted P")
    case (Some c)
    then have "0 < vw_window c" using assms(4) by (simp add: policy_ok_def)
    from worse_weighted [OF assms(1-6) this] show ?thesis
      using vw len Some by (auto simp: volume_weighted_rows_def Let_def intro: f64_le_lt_trans)
  qed (use vw in \<open>simp add: volume_weighted_rows_def\<close>)
  show "some_row (slow_rows P h')" if slow: "some_row (slow_rows P h)"
  proof -
    let ?n = "sg_window (rp_slow P)"
    have "length (recent_ratios h ?n) = ?n"
      using slow by (simp add: slow_rows_def Let_def length_recent_ratios)
    moreover from this have "length (recent_ratios h' ?n) = ?n" using list_all2_lengthD [OF ratios] by metis
    ultimately have "f64_le (mean_ratio (recent_ratios h' ?n)) (mean_ratio (recent_ratios h ?n))"
      using assms(4,7) by (intro mean_ratio_mono [OF ratios] recent_ratios_sized) (auto simp: policy_ok_def)
    then show ?thesis using slow len by (auto simp: slow_rows_def Let_def intro: f64_le_lt_trans)
  qed
qed

section \<open>Properties\<close>

text \<open>
  C9. Monotonicity of the kill switch: when a policy does not continue on a history, it halts on every
  worse one, in both build profiles and whatever guards it has: lowering what any confirmed trade
  realized or raising the gas any revert burned never makes it continue, through all the roundings of
  the ratios, of their sum and of their mean (for amounts that do not overflow, and a slow window of
  at most \<open>2 ^ 53\<close>).
\<close>

theorem worse_history_halts:
  assumes "policy_ok P" "sg_window (rp_slow P) \<le> 2 ^ 53"
    and "history_ok h" "history_ok h'" "arithmetic_bounded h" "arithmetic_bounded h'"
    and "worse_history h h'" "policy_evaluate pf P h \<noteq> Some (Continue, P)"
  shows "\<exists>r. policy_evaluate pf P h' = Some (Halt r, P)"
proof -
  have "spec_decide P h \<noteq> Continue"
    using assms(8) by (auto simp: policy_evaluate_def run_guards_spec [OF assms(1,5)])
  then have "spec_decide P h' \<noteq> Continue"
    using worse_rows [OF assms(7,3,4,1,5,6,2)]
    by (auto simp: spec_decide_def first_row_Continue)
  then show ?thesis
    by (cases "spec_decide P h'") (auto simp: policy_evaluate_def run_guards_spec [OF assms(1,6)])
qed

definition worse_bleed :: ReconcileHistory where
  "worse_bleed = history_of (ConfirmedPair (PredictedProfit 8) (RealizedProfit (- 7)) # steady_pairs 19 8 5)"

theorem worse_history_halts_witness:
  "\<exists>r. policy_evaluate Debug dual_guard worse_bleed = Some (Halt r, dual_guard)"
proof (rule worse_history_halts [OF dual_guard_ok _ _ _ slow_bleed_bounded])
  show "sg_window (rp_slow dual_guard) \<le> 2 ^ 53" by (simp add: dual_guard_def slow_guard_default_def)
  show "history_ok slow_bleed" "history_ok worse_bleed"
    by (simp_all add: slow_bleed_def worse_bleed_def history_ok_def)
  show "arithmetic_bounded worse_bleed"
    by (simp add: arithmetic_bounded_def gas_burned_no_reverts worse_bleed_def pair_mass_def sum_list_replicate)
  show "worse_history slow_bleed worse_bleed"
    by (simp add: worse_history_def slow_bleed_def worse_bleed_def steady_pairs_def eval_nat_numeral
        less_eq_RealizedProfit_def)
  have "run_guards Debug dual_guard slow_bleed \<noteq> Some Continue"
    using slow_bleed_slow by (simp add: run_guards_Continue)
  then show "policy_evaluate Debug dual_guard slow_bleed \<noteq> Some (Continue, dual_guard)"
    by (auto simp: policy_evaluate_def bind_eq_Some_conv)
qed

end
