(* ===== verification/Crc32.thy ===== *)
theory Crc32
  imports DB_Prelude
begin

text \<open>
  The function \<^verbatim>\<open>crc32\<close> of \<^verbatim>\<open>journal/src/lib.rs\<close>: the bitwise IEEE 802.3 checksum, and what it is
  there for. It is linear over exclusive or, its step is a bijection of the register, and any
  corruption confined to four consecutive bytes changes it.
\<close>

definition crc_bit :: "u32 \<Rightarrow> u32" where
  "crc_bit crc = (if crc AND 1 \<noteq> 0 then drop_bit 1 crc XOR 0xEDB88320 else drop_bit 1 crc)"

definition crc_byte :: "u32 \<Rightarrow> u8 \<Rightarrow> u32" where
  "crc_byte crc byte = (crc_bit ^^ 8) (crc XOR ucast byte)"

definition crc32 :: "bytes \<Rightarrow> u32" where
  "crc32 data = NOT (foldl crc_byte 0xFFFFFFFF data)"

section \<open>The step is linear and injective\<close>

lemma and_one_bit: "(c AND 1 \<noteq> 0) = bit c 0" for c :: u32
  by (simp add: and_one_eq odd_iff_mod_2_eq_one bit_0)

lemma xor_cancel [simp]: "c XOR x = c XOR y \<longleftrightarrow> x = y" "x XOR c = y XOR c \<longleftrightarrow> x = y" for c :: u32
  by (auto simp: bit_eq_iff bit_xor_iff)

lemma xor_eq_0: "x XOR y = 0 \<longleftrightarrow> x = y" for x :: u32
  by (auto simp: bit_eq_iff bit_xor_iff)

lemma no_bit_beyond: "LENGTH('a) \<le> n \<Longrightarrow> \<not> bit (w :: 'a::len word) n"
  using bit_imp_le_length [of w n] by auto

lemma crc_bit_xor: "crc_bit (a XOR b) = crc_bit a XOR crc_bit b"
  unfolding crc_bit_def and_one_bit
  by (auto simp: bit_xor_iff drop_bit_xor xor.assoc xor.left_commute xor.commute)

lemma crc_bit_0: "crc_bit 0 = 0"
  by (simp add: crc_bit_def)

lemma crc_bit_eq_0: "crc_bit c = 0 \<Longrightarrow> c = 0"
proof (rule bit_word_eqI)
  fix n assume z: "crc_bit c = 0" and n: "n < LENGTH(32)"
  show "bit c n = bit (0::u32) n"
  proof (cases "bit c 0")
    case True
    then have "drop_bit 1 c XOR 0xEDB88320 = 0" using z by (simp add: crc_bit_def and_one_bit)
    then have "bit (drop_bit 1 c XOR 0xEDB88320) 31 = bit (0::u32) 31" by (simp only:)
    then show ?thesis by (simp add: bit_xor_iff bit_drop_bit_eq no_bit_beyond)
  next
    case False
    then have "drop_bit 1 c = 0" using z by (simp add: crc_bit_def and_one_bit)
    then have "bit (drop_bit 1 c) (n - 1) = False" by simp
    then show ?thesis using False n by (cases n) (simp_all add: bit_drop_bit_eq)
  qed
qed

lemma crc_bits_xor: "(crc_bit ^^ n) (a XOR b) = (crc_bit ^^ n) a XOR (crc_bit ^^ n) b"
  by (induction n) (simp_all add: crc_bit_xor)

lemma crc_bits_inj: "(crc_bit ^^ n) a = (crc_bit ^^ n) b \<longleftrightarrow> a = b"
proof
  have z: "(crc_bit ^^ n) c = 0 \<Longrightarrow> c = 0" for c by (induction n) (auto dest: crc_bit_eq_0)
  assume "(crc_bit ^^ n) a = (crc_bit ^^ n) b"
  then have "(crc_bit ^^ n) (a XOR b) = 0" by (simp add: crc_bits_xor)
  then show "a = b" using z xor_eq_0 by blast
qed simp

lemma crc_byte_inj: "crc_byte c x = crc_byte d x \<longleftrightarrow> c = d"
  unfolding crc_byte_def crc_bits_inj by simp

lemma crc_bytes_inj: "foldl crc_byte c xs = foldl crc_byte d xs \<longleftrightarrow> c = d"
  by (induction xs arbitrary: c d) (simp_all add: crc_byte_inj)

section \<open>Four bytes at a time\<close>

text \<open>Bits high in the register only move down until they reach its end.\<close>

lemma crc_bits_high:
  assumes "n \<le> 32" "drop_bit (32 - n) d = 0"
  shows "(crc_bit ^^ n) (push_bit n d) = d"
  using assms
proof (induction n)
  case (Suc n)
  have low: "\<not> bit (push_bit (Suc n) d) 0" by (simp add: bit_push_bit_iff del: push_bit_Suc)
  have "drop_bit (32 - n) d = drop_bit 1 (drop_bit (32 - Suc n) d)"
  proof -
    have "32 - n = 1 + (32 - Suc n)" using Suc.prems(1) by simp
    then show ?thesis by (simp only: drop_bit_drop_bit)
  qed
  then have dn: "drop_bit (32 - n) d = 0" by (simp only: Suc.prems(2) drop_bit_of_0)
  have "drop_bit 1 (push_bit (Suc n) d) = push_bit n d"
  proof (rule bit_word_eqI)
    fix k assume "k < LENGTH(32)"
    show "bit (drop_bit 1 (push_bit (Suc n) d)) k = bit (push_bit n d) k"
    proof (cases "k = 31")
      case True
      have "bit (drop_bit (32 - Suc n) d) 0 = False" using Suc.prems(2) by simp
      then have "bit d (31 - n) = False" by (simp add: bit_drop_bit_eq)
      with True show ?thesis by (simp add: bit_drop_bit_eq bit_push_bit_iff no_bit_beyond del: push_bit_Suc)
    next
      case False
      with \<open>k < LENGTH(32)\<close> show ?thesis
        by (auto simp: bit_drop_bit_eq bit_push_bit_iff simp del: push_bit_Suc)
    qed
  qed
  then have "crc_bit (push_bit (Suc n) d) = push_bit n d"
    using low by (simp add: crc_bit_def and_one_bit)
  then show ?case using Suc.IH dn Suc.prems(1) by (simp only: funpow_Suc_right o_apply)
qed simp

text \<open>The register after up to four bytes is the bit step applied to their little-endian word.\<close>

fun le_word :: "bytes \<Rightarrow> u32" where
  "le_word [] = 0"
| "le_word (b # bs) = ucast b XOR push_bit 8 (le_word bs)"

lemma drop_ucast_u8: "8 \<le> n \<Longrightarrow> drop_bit n (ucast b :: u32) = 0" for b :: u8
  by (rule bit_word_eqI) (auto simp: bit_drop_bit_eq bit_ucast_iff dest: bit_imp_le_length)

lemma le_word_high: "8 * length bs \<le> n \<Longrightarrow> drop_bit n (le_word bs) = 0"
proof (induction bs arbitrary: n)
  case (Cons b bs)
  have "drop_bit n (push_bit 8 (le_word bs)) = 0"
  proof (rule bit_word_eqI)
    fix k assume "k < LENGTH(32)"
    have "drop_bit (n - 8) (le_word bs) = 0" using Cons by simp
    then have "bit (drop_bit (n - 8) (le_word bs)) k = False" by simp
    then show "bit (drop_bit n (push_bit 8 (le_word bs))) k = bit (0::u32) k"
      using Cons.prems by (auto simp: bit_drop_bit_eq bit_push_bit_iff)
  qed
  then show ?case using Cons.prems by (simp add: drop_bit_xor drop_ucast_u8)
qed simp

lemma crc_bytes_le_word:
  assumes "length bs \<le> 4"
  shows "foldl crc_byte c bs = (crc_bit ^^ (8 * length bs)) (c XOR le_word bs)"
  using assms
proof (induction bs arbitrary: c)
  case (Cons b bs)
  have "drop_bit (32 - 8) (le_word bs) = 0" using Cons.prems by (intro le_word_high) simp
  then have h: "(crc_bit ^^ 8) (push_bit 8 (le_word bs)) = le_word bs"
    by (intro crc_bits_high) simp_all
  have "crc_byte c b XOR le_word bs = (crc_bit ^^ 8) (c XOR le_word (b # bs))"
    by (simp only: crc_byte_def le_word.simps crc_bits_xor h xor.assoc)
  then show ?case
    using Cons funpow_add [of "8 * length bs" 8 crc_bit] by (simp add: add.commute)
qed simp

lemma le_word_inj:
  assumes "length as = length bs" "length as \<le> 4" "le_word as = le_word bs"
  shows "as = bs"
  using assms
proof (induction as bs rule: list_induct2)
  case (Cons a as b bs)
  have bits: "bit (le_word (a # as)) k = bit (le_word (b # bs)) k" for k
    using Cons.prems(2) by simp
  have "a = b"
  proof (rule bit_word_eqI)
    fix k assume "k < LENGTH(8)"
    then show "bit a k = bit b k" using bits [of k] by (simp add: bit_xor_iff bit_push_bit_iff bit_ucast_iff)
  qed
  moreover have "le_word as = le_word bs"
  proof (rule bit_word_eqI)
    fix k assume k: "k < LENGTH(32)"
    show "bit (le_word as) k = bit (le_word bs) k"
    proof (cases "k < 24")
      case True
      then show ?thesis using bits [of "k + 8"] \<open>a = b\<close> k
        by (auto simp: bit_xor_iff bit_push_bit_iff)
    next
      case False
      have "drop_bit 24 (le_word as) = 0" "drop_bit 24 (le_word bs) = 0"
        using Cons by (auto intro: le_word_high)
      then have "bit (drop_bit 24 (le_word as)) (k - 24) = bit (drop_bit 24 (le_word bs)) (k - 24)" by simp
      with False show ?thesis by (simp add: bit_drop_bit_eq)
    qed
  qed
  ultimately show ?case using Cons by simp
qed simp

lemma crc32_burst:
  assumes "length as = length bs" "length as \<le> 4"
  shows "crc32 (xs @ as @ ys) = crc32 (xs @ bs @ ys) \<longleftrightarrow> as = bs"
proof
  assume "crc32 (xs @ as @ ys) = crc32 (xs @ bs @ ys)"
  then have "foldl crc_byte (foldl crc_byte 0xFFFFFFFF xs) as = foldl crc_byte (foldl crc_byte 0xFFFFFFFF xs) bs"
    by (simp add: crc32_def crc_bytes_inj)
  then have "le_word as = le_word bs"
    using assms by (simp add: crc_bytes_le_word crc_bits_inj)
  then show "as = bs" using assms le_word_inj by blast
qed simp

text \<open>Evaluation: one step at a time, the argument a numeral.\<close>

lemma crc_byte_unroll:
  "crc_byte crc byte =
     crc_bit (crc_bit (crc_bit (crc_bit (crc_bit (crc_bit (crc_bit (crc_bit (crc XOR ucast byte))))))))"
  by (simp add: crc_byte_def numeral_eq_Suc)

lemma crc_bit_if:
  "bit c 0 \<Longrightarrow> crc_bit c = drop_bit 1 c XOR 0xEDB88320"
  "\<not> bit c 0 \<Longrightarrow> crc_bit c = drop_bit 1 c"
  by (simp_all add: crc_bit_def and_one_bit)

lemma crc32_check: "crc32 [0x31, 0x32, 0x33, 0x34, 0x35, 0x36, 0x37, 0x38, 0x39] = 0xCBF43926"
  by (simp add: crc32_def crc_byte_unroll crc_bit_if)

end
