(* ===== verification/Journal_Codec.thy ===== *)
theory Journal_Codec
  imports Core_Types Crc32
begin

text \<open>
  The on-disk format of \<^verbatim>\<open>driftbrake-journal\<close> (\<^verbatim>\<open>journal/src/lib.rs\<close>): header, frames and payloads as
  \<^verbatim>\<open>append\<close>, \<^verbatim>\<open>record_revert\<close> and \<^verbatim>\<open>compact\<close> write them and as \<^verbatim>\<open>open_or_create\<close> reads them, and the
  locale \<open>torn_log\<close>: any self-delimiting frame format recovers the complete frames of a log
  whose last write was torn.
\<close>

section \<open>Constants and errors\<close>

definition MAGIC :: bytes where "MAGIC = [0x44, 0x52, 0x46, 0x54]"
definition CURRENT_VERSION :: u16 where "CURRENT_VERSION = 1"
definition HEADER_SIZE :: nat where "HEADER_SIZE = 16"
definition TAG_PAIR :: u8 where "TAG_PAIR = 1"
definition TAG_REVERT :: u8 where "TAG_REVERT = 2"

lemmas journal_consts = MAGIC_def CURRENT_VERSION_def HEADER_SIZE_def TAG_PAIR_def TAG_REVERT_def

section \<open>Writing\<close>

definition header_bytes :: "u64 \<Rightarrow> bytes" where
  "header_bytes now =
     MAGIC @ to_be_bytes CURRENT_VERSION @ to_be_bytes (0 :: u16) @ to_be_bytes now"

definition frame_header :: "u8 \<Rightarrow> bytes \<Rightarrow> bytes" where
  "frame_header tag payload =
     tag # to_be_bytes (word_of_nat (length payload) :: u32) @ to_be_bytes (crc32 payload)"

definition frame_bytes :: "u8 \<Rightarrow> bytes \<Rightarrow> bytes" where
  "frame_bytes tag payload = frame_header tag payload @ payload"

definition pair_payload :: "PredictedProfit \<Rightarrow> RealizedProfit \<Rightarrow> u64 \<Rightarrow> bytes" where
  "pair_payload predicted realized timestamp_ms =
     to_be_bytes (predicted_wei predicted) @ to_be_bytes (realized_wei realized)
     @ to_be_bytes timestamp_ms"

definition reason_bytes :: "RevertEvent \<Rightarrow> bytes" where
  "reason_bytes event = (case rv_reason event of None \<Rightarrow> [] | Some s \<Rightarrow> s)"

definition reason_len :: "RevertEvent \<Rightarrow> u16" where
  "reason_len event = word_of_nat (min (length (reason_bytes event)) 65535)"

definition revert_payload :: "RevertEvent \<Rightarrow> u64 \<Rightarrow> bytes" where
  "revert_payload event timestamp_ms =
     to_be_bytes (rv_tx_hash event) @ to_be_bytes (rv_block_number event)
     @ to_be_bytes (rv_gas_used event) @ to_be_bytes (rv_effective_gas_price event)
     @ to_be_bytes timestamp_ms @ to_be_bytes (reason_len event)
     @ take (unat (reason_len event)) (reason_bytes event)"

primrec entry_frame :: "HistoryEntry \<Rightarrow> u64 \<Rightarrow> bytes" where
  "entry_frame (ConfirmedPair p r) now = frame_bytes TAG_PAIR (pair_payload p r now)"
| "entry_frame (RevertedTx e) now = frame_bytes TAG_REVERT (revert_payload e now)"

section \<open>Reading\<close>

definition sub_bytes :: "nat \<Rightarrow> nat \<Rightarrow> bytes \<Rightarrow> bytes" where
  "sub_bytes a b bs = take (b - a) (drop a bs)"

definition parse_pair :: "bytes \<Rightarrow> HistoryEntry" where
  "parse_pair payload =
     ConfirmedPair (PredictedProfit (from_be_bytes (sub_bytes 0 16 payload)))
                   (RealizedProfit (from_be_bytes (sub_bytes 16 32 payload)))"

definition parse_revert :: "bytes \<Rightarrow> HistoryEntry" where
  "parse_revert payload =
     (let rlen = unat (from_be_bytes (sub_bytes 72 74 payload) :: u16);
          reason = (if 0 < rlen \<and> 74 + rlen \<le> length payload
                    then string_from_utf8 (sub_bytes 74 (74 + rlen) payload) else None)
      in RevertedTx \<lparr>rv_tx_hash = from_be_bytes (sub_bytes 0 32 payload),
           rv_block_number = from_be_bytes (sub_bytes 32 40 payload), rv_reason = reason,
           rv_gas_used = from_be_bytes (sub_bytes 40 48 payload),
           rv_effective_gas_price = from_be_bytes (sub_bytes 48 64 payload)\<rparr>)"

text \<open>The match on the tag, with its guards; \<^term>\<open>None\<close> is the catch-all arm.\<close>

definition parse_record :: "u8 \<Rightarrow> bytes \<Rightarrow> HistoryEntry option" where
  "parse_record tag payload =
     (if tag = TAG_PAIR \<and> length payload = 40 then Some (parse_pair payload)
      else if tag = TAG_REVERT \<and> 74 \<le> length payload then Some (parse_revert payload)
      else None)"

text \<open>
  One turn of the recovery loop on the bytes that are left: the entry and the rest, or nothing,
  for a clean end, a torn frame, a bad checksum and an unknown record alike.
\<close>

definition next_record :: "bytes \<Rightarrow> (HistoryEntry \<times> bytes) option" where
  "next_record bs =
     (if length bs < 9 then None
      else let tag = bs ! 0;
               payload_len = unat (from_be_bytes (sub_bytes 1 5 bs) :: u32);
               expected_crc = from_be_bytes (sub_bytes 5 9 bs) :: u32;
               rest = drop 9 bs
           in if length rest < payload_len then None
              else let payload = take payload_len rest
                   in if crc32 payload \<noteq> expected_crc then None
                      else map_option (\<lambda>e. (e, drop payload_len rest)) (parse_record tag payload))"

section \<open>A log with a torn tail\<close>

locale torn_log =
  fixes enc :: "'a \<Rightarrow> 'b list"
    and dec :: "'b list \<Rightarrow> ('c \<times> 'b list) option"
    and norm :: "'a \<Rightarrow> 'c"
    and ok :: "'a \<Rightarrow> bool"
  assumes dec_enc: "ok x \<Longrightarrow> dec (enc x @ rest) = Some (norm x, rest)"
    and dec_torn: "ok x \<Longrightarrow> strict_prefix t (enc x) \<Longrightarrow> dec t = None"
    and dec_shorter: "dec bs = Some (y, rest) \<Longrightarrow> length rest < length bs"
begin

text \<open>Read records until none can be read; the bytes that are left are the torn tail.\<close>

function read_all :: "'b list \<Rightarrow> 'c list \<times> 'b list" where
  "read_all bs =
     (case dec bs of None \<Rightarrow> ([], bs)
      | Some (y, rest) \<Rightarrow> (let (ys, t) = read_all rest in (y # ys, t)))"
  by pat_completeness auto
termination by (relation "measure length") (auto dest: dec_shorter)

declare read_all.simps [simp del]

lemma read_all_None: "dec bs = None \<Longrightarrow> read_all bs = ([], bs)"
  by (simp add: read_all.simps)

lemma read_all_Some:
  "dec bs = Some (y, rest) \<Longrightarrow> read_all bs = (y # fst (read_all rest), snd (read_all rest))"
  by (subst read_all.simps) (simp add: case_prod_beta Let_def)

lemma read_all_frames:
  "list_all ok xs \<Longrightarrow> read_all (concat (map enc xs) @ bs) = (map norm xs @ fst (read_all bs), snd (read_all bs))"
  by (induction xs) (simp_all add: read_all_Some dec_enc)

text \<open>Every tail that the next write can leave behind is recognised and cut off.\<close>

lemma recover_torn:
  assumes "list_all ok xs" "ok x" "strict_prefix t (enc x)"
  shows "read_all (concat (map enc xs) @ t) = (map norm xs, t)"
  using read_all_frames [OF assms(1), of t] read_all_None [OF dec_torn [OF assms(2,3)]] by simp

text \<open>A log cut anywhere yields the records that are complete.\<close>

lemma recover_cut:
  assumes "list_all ok xs" "dec [] = None"
  shows "\<exists>k t. k \<le> length xs \<and> read_all (take n (concat (map enc xs))) = (map norm (take k xs), t) \<and>
     take n (concat (map enc xs)) = concat (map enc (take k xs)) @ t \<and>
     (k < length xs \<longrightarrow> strict_prefix t (enc (xs ! k)))"
  using assms(1)
proof (induction xs arbitrary: n)
  case Nil
  show ?case using assms(2) by (auto intro!: exI [of _ 0] read_all_None)
next
  case (Cons x xs)
  show ?case
  proof (cases "length (enc x) \<le> n")
    case True
    let ?m = "n - length (enc x)"
    have "list_all ok xs" using Cons.prems by simp
    from Cons.IH [OF this, of ?m] obtain k t where k: "k \<le> length xs"
      "read_all (take ?m (concat (map enc xs))) = (map norm (take k xs), t)"
      "take ?m (concat (map enc xs)) = concat (map enc (take k xs)) @ t"
      "k < length xs \<longrightarrow> strict_prefix t (enc (xs ! k))"
      by blast
    have "take n (concat (map enc (x # xs))) = enc x @ take ?m (concat (map enc xs))"
      using True by simp
    moreover have "read_all (enc x @ take ?m (concat (map enc xs))) = (norm x # map norm (take k xs), t)"
      using Cons.prems k(2) read_all_Some dec_enc by simp
    ultimately show ?thesis using k(1,3,4) by (intro exI [of _ "Suc k"] exI [of _ t]) auto
  next
    case False
    then have cut: "take n (concat (map enc (x # xs))) = take n (enc x)" by simp
    moreover have "strict_prefix (take n (enc x)) (enc x)"
      using False by (metis append_take_drop_id drop_eq_Nil prefix_def strict_prefixI' strict_prefix_def take_is_prefix
          nat_le_linear not_le append_self_conv)
    moreover from this have "dec (take n (enc x)) = None" using Cons.prems by (auto intro: dec_torn)
    ultimately show ?thesis
      unfolding cut by (intro exI [of _ 0] exI [of _ "take n (enc x)"]) (simp add: read_all_None)
  qed
qed

end

section \<open>The format is such a log\<close>

text \<open>
  What survives the round trip: an absent and an empty reason are the same on disk, and a reason is
  cut to 65535 bytes and lost when the cut splits a character.
\<close>

definition norm_reason :: "RevertEvent \<Rightarrow> bytes option" where
  "norm_reason event =
     (let s = take 65535 (reason_bytes event) in if s = [] then None else string_from_utf8 s)"

primrec norm_entry :: "HistoryEntry \<Rightarrow> HistoryEntry" where
  "norm_entry (ConfirmedPair p r) = ConfirmedPair p r"
| "norm_entry (RevertedTx e) = RevertedTx (e\<lparr>rv_reason := norm_reason e\<rparr>)"

lemma length_bytes [simp]:
  "length (to_be_bytes (a :: u16)) = 2" "length (to_be_bytes (b :: u32)) = 4"
  "length (to_be_bytes (c :: u64)) = 8" "length (to_be_bytes (d :: u128)) = 16"
  "length (to_be_bytes (e :: hash32)) = 32"
  by (simp_all add: length_to_be_bytes)

lemma from_to_bytes [simp]:
  "from_be_bytes (to_be_bytes a) = (a :: u16)" "from_be_bytes (to_be_bytes b) = (b :: u32)"
  "from_be_bytes (to_be_bytes c) = (c :: u64)" "from_be_bytes (to_be_bytes d) = (d :: u128)"
  "from_be_bytes (to_be_bytes e) = (e :: hash32)"
  by (simp_all add: from_to_be_bytes)

lemma sub_bytes_at: "length xs = a \<Longrightarrow> length ys = b - a \<Longrightarrow> sub_bytes a b (xs @ ys @ zs) = ys"
  by (simp add: sub_bytes_def)

lemma unat_reason_len: "unat (reason_len e) = min (length (reason_bytes e)) 65535"
  by (simp add: reason_len_def unat_of_nat)

lemma length_pair_payload [simp]: "length (pair_payload p r now) = 40"
  by (simp add: pair_payload_def)

lemma length_revert_payload: "length (revert_payload e now) = 74 + min (length (reason_bytes e)) 65535"
  by (simp add: revert_payload_def unat_reason_len)

lemma parse_pair_payload: "parse_record TAG_PAIR (pair_payload p r now) = Some (ConfirmedPair p r)"
  by (cases p; cases r) (simp add: parse_record_def parse_pair_def pair_payload_def sub_bytes_def)

lemma sub_bytes_take: "b \<le> n \<Longrightarrow> sub_bytes a b (take n bs) = sub_bytes a b bs"
  by (simp add: sub_bytes_def drop_take min_def)

lemma parse_revert_payload:
  "parse_record TAG_REVERT (revert_payload e now) = Some (norm_entry (RevertedTx e))"
proof -
  let ?r = "take (unat (reason_len e)) (reason_bytes e)"
  have r: "?r = take 65535 (reason_bytes e)" by (simp add: unat_reason_len min_def)
  have len: "length ?r = unat (reason_len e)" by (simp add: unat_reason_len)
  have nil: "unat (reason_len e) = 0 \<longleftrightarrow> take 65535 (reason_bytes e) = []"
    by (auto simp: unat_reason_len min_def)
  have parts: "sub_bytes 0 32 (revert_payload e now) = to_be_bytes (rv_tx_hash e)"
    "sub_bytes 32 40 (revert_payload e now) = to_be_bytes (rv_block_number e)"
    "sub_bytes 40 48 (revert_payload e now) = to_be_bytes (rv_gas_used e)"
    "sub_bytes 48 64 (revert_payload e now) = to_be_bytes (rv_effective_gas_price e)"
    "sub_bytes 72 74 (revert_payload e now) = to_be_bytes (reason_len e)"
    "sub_bytes 74 (74 + unat (reason_len e)) (revert_payload e now) = ?r"
    by (simp_all add: revert_payload_def sub_bytes_def)
  have rlen: "length (revert_payload e now) = 74 + unat (reason_len e)"
    by (simp add: length_revert_payload unat_reason_len)
  have "(if 0 < unat (reason_len e) then string_from_utf8 ?r else None) = norm_reason e"
    using nil by (auto simp: norm_reason_def Let_def r simp del: take_eq_Nil)
  then show ?thesis
    by (auto simp: parse_record_def parse_revert_def parts rlen TAG_REVERT_def TAG_PAIR_def Let_def
        intro!: RevertEvent.equality split: if_splits)
qed

lemma next_record_frame:
  assumes "length payload < 2 ^ 32"
  shows "next_record (frame_bytes tag payload @ rest)
    = map_option (\<lambda>e. (e, rest)) (parse_record tag payload)"
proof -
  have "unat (word_of_nat (length payload) :: u32) = length payload"
    using assms by (simp add: unat_of_nat)
  then show ?thesis
    by (simp add: next_record_def frame_bytes_def frame_header_def sub_bytes_def Let_def)
qed

lemma entry_payload_bound: "length (pair_payload p r now) < 2 ^ 32" "length (revert_payload e now) < 2 ^ 32"
  by (simp_all add: length_revert_payload)

lemma next_record_entry: "next_record (entry_frame e now @ rest) = Some (norm_entry e, rest)"
proof (cases e)
  case (ConfirmedPair p r)
  then show ?thesis by (simp add: next_record_frame parse_pair_payload)
next
  case (RevertedTx ev)
  then show ?thesis
    using next_record_frame [OF entry_payload_bound(2)] by (simp add: parse_revert_payload)
qed

lemma next_record_torn_frame:
  assumes "length payload < 2 ^ 32" "strict_prefix t (frame_bytes tag payload)"
  shows "next_record t = None"
proof -
  obtain u where u: "frame_bytes tag payload = t @ u" "u \<noteq> []"
    using assms(2) by (auto simp: strict_prefix_def prefix_def)
  have t: "t = take (length t) (frame_bytes tag payload)" by (simp add: u(1))
  have lt: "length t < length (frame_bytes tag payload)" using u by simp
  show ?thesis
  proof (cases "length t < 9")
    case False
    have "sub_bytes 1 5 t = sub_bytes 1 5 (frame_bytes tag payload)"
      using False by (subst t) (simp add: sub_bytes_take)
    also have "\<dots> = to_be_bytes (word_of_nat (length payload) :: u32)"
      by (simp add: sub_bytes_def frame_bytes_def frame_header_def)
    finally have "unat (from_be_bytes (sub_bytes 1 5 t) :: u32) = length payload"
      using assms(1) by (simp add: unat_of_nat)
    moreover have "length (drop 9 t) < length payload"
      using lt False by (simp add: frame_bytes_def frame_header_def)
    ultimately show ?thesis by (simp add: next_record_def Let_def)
  qed (simp add: next_record_def)
qed

lemma next_record_torn: "strict_prefix t (entry_frame e now) \<Longrightarrow> next_record t = None"
  by (cases e) (auto intro: next_record_torn_frame entry_payload_bound)

lemma next_record_shorter: "next_record bs = Some (e, rest) \<Longrightarrow> length rest < length bs"
  by (auto simp: next_record_def Let_def split: if_splits)

text \<open>A write of the journal is an entry with the clock reading at that moment.\<close>

type_synonym stamped = "HistoryEntry \<times> u64"

definition stamped_frame :: "stamped \<Rightarrow> bytes" where
  "stamped_frame s = entry_frame (fst s) (snd s)"

interpretation wal: torn_log stamped_frame next_record "\<lambda>s. norm_entry (fst s)" "\<lambda>s. True"
  by unfold_locales
    (auto simp: stamped_frame_def next_record_entry dest: next_record_torn next_record_shorter)

declare wal.read_all.simps [simp del]

end
