(* ===== verification/Journal.thy ===== *)
theory Journal
  imports Journal_Codec
begin

text \<open>
  The crate \<^verbatim>\<open>driftbrake-journal\<close> (\<^verbatim>\<open>journal/src/lib.rs\<close>) over a file system: directory, inodes, open
  files with their positions. Every call that can fail consults a list of faults, so a theorem
  without an assumption on the list holds under every pattern of I/O errors, and one that assumes
  the empty list describes a disk that works. A write that fails leaves a prefix of its bytes.
  Seeking a regular file, reading its position and \<^verbatim>\<open>flush\<close> on it do not fail. The clock reading of
  an operation is its argument \<open>now\<close>.
\<close>

section \<open>The file system\<close>

record path =
  p_parent :: bytes
  p_stem :: bytes
  p_ext :: "bytes option"

definition with_extension :: "path \<Rightarrow> bytes \<Rightarrow> path" where
  "with_extension p x = p\<lparr>p_ext := Some x\<rparr>"

datatype io_error = IoAlreadyExists | IoUnexpectedEof | IoOther

datatype io_fault = Works | Fails io_error nat

record open_file =
  of_inode :: nat
  of_pos :: nat

record world =
  w_dir :: "path \<rightharpoonup> nat"
  w_data :: "nat \<Rightarrow> bytes"
  w_files :: "nat \<Rightarrow> open_file"
  w_next :: nat
  w_faults :: "io_fault list"

type_synonym ('e, 'a) io = "world \<Rightarrow> ('e + 'a) \<times> world"

text \<open>The operator \<^verbatim>\<open>?\<close>: go on with the result, or return the error.\<close>

definition try_do :: "('e, 'a) io \<Rightarrow> ('a \<Rightarrow> ('e, 'b) io) \<Rightarrow> ('e, 'b) io" where
  "try_do act k w = (case act w of (Inl e, w') \<Rightarrow> (Inl e, w') | (Inr x, w') \<Rightarrow> k x w')"

definition next_fault :: "world \<Rightarrow> io_fault \<times> world" where
  "next_fault w = (case w_faults w of [] \<Rightarrow> (Works, w) | f # fs \<Rightarrow> (f, w\<lparr>w_faults := fs\<rparr>))"

definition syscall :: "(io_error, 'a) io \<Rightarrow> (io_error, 'a) io" where
  "syscall act w = (case next_fault w of (Works, w') \<Rightarrow> act w' | (Fails e n, w') \<Rightarrow> (Inl e, w'))"

definition file_data :: "nat \<Rightarrow> world \<Rightarrow> bytes" where
  "file_data h w = w_data w (of_inode (w_files w h))"

definition file_pos :: "nat \<Rightarrow> world \<Rightarrow> nat" where
  "file_pos h w = of_pos (w_files w h)"

definition set_data :: "nat \<Rightarrow> bytes \<Rightarrow> world \<Rightarrow> world" where
  "set_data h bs w = w\<lparr>w_data := (w_data w)(of_inode (w_files w h) := bs)\<rparr>"

definition set_pos :: "nat \<Rightarrow> nat \<Rightarrow> world \<Rightarrow> world" where
  "set_pos h n w = w\<lparr>w_files := (w_files w)(h := (w_files w h)\<lparr>of_pos := n\<rparr>)\<rparr>"

definition open_inode :: "nat \<Rightarrow> world \<Rightarrow> nat \<times> world" where
  "open_inode i w =
     (w_next w, w\<lparr>w_files := (w_files w)(w_next w := \<lparr>of_inode = i, of_pos = 0\<rparr>), w_next := w_next w + 1\<rparr>)"

definition create_inode :: "path \<Rightarrow> world \<Rightarrow> nat \<times> world" where
  "create_inode p w =
     (w_next w, w\<lparr>w_dir := (w_dir w)(p \<mapsto> w_next w), w_data := (w_data w)(w_next w := []),
                  w_next := w_next w + 1\<rparr>)"

text \<open>\<^verbatim>\<open>OpenOptions\<close> as the code uses them.\<close>

definition open_create_new :: "path \<Rightarrow> (io_error, nat) io" where
  "open_create_new p = syscall (\<lambda>w.
     (case w_dir w p of
        Some i \<Rightarrow> (Inl IoAlreadyExists, w)
      | None \<Rightarrow> (let (i, w') = create_inode p w; (h, w'') = open_inode i w' in (Inr h, w''))))"

definition open_create :: "path \<Rightarrow> (io_error, nat) io" where
  "open_create p = syscall (\<lambda>w.
     (let (i, w') = (case w_dir w p of Some i \<Rightarrow> (i, w) | None \<Rightarrow> create_inode p w);
          (h, w'') = open_inode i w'
      in (Inr h, w'')))"

definition open_truncate :: "path \<Rightarrow> (io_error, nat) io" where
  "open_truncate p = syscall (\<lambda>w.
     (let (i, w') = (case w_dir w p of
                       Some i \<Rightarrow> (i, w\<lparr>w_data := (w_data w)(i := [])\<rparr>) | None \<Rightarrow> create_inode p w);
          (h, w'') = open_inode i w'
      in (Inr h, w'')))"

definition open_existing :: "path \<Rightarrow> (io_error, nat) io" where
  "open_existing p = syscall (\<lambda>w.
     (case w_dir w p of
        None \<Rightarrow> (Inl IoOther, w)
      | Some i \<Rightarrow> (let (h, w') = open_inode i w in (Inr h, w'))))"

definition file_len :: "nat \<Rightarrow> (io_error, nat) io" where
  "file_len h = syscall (\<lambda>w. (Inr (length (file_data h w)), w))"

definition read_exact :: "nat \<Rightarrow> nat \<Rightarrow> (io_error, bytes) io" where
  "read_exact h n = syscall (\<lambda>w.
     (let bs = drop (file_pos h w) (file_data h w)
      in if n \<le> length bs then (Inr (take n bs), set_pos h (file_pos h w + n) w)
         else (Inl IoUnexpectedEof, set_pos h (length (file_data h w)) w)))"

definition overwrite :: "nat \<Rightarrow> bytes \<Rightarrow> bytes \<Rightarrow> bytes" where
  "overwrite pos bs data =
     take pos data @ replicate (pos - length data) 0 @ bs @ drop (pos + length bs) data"

definition write_bytes :: "nat \<Rightarrow> bytes \<Rightarrow> world \<Rightarrow> world" where
  "write_bytes h bs w =
     set_pos h (file_pos h w + length bs) (set_data h (overwrite (file_pos h w) bs (file_data h w)) w)"

definition write_all :: "nat \<Rightarrow> bytes \<Rightarrow> (io_error, unit) io" where
  "write_all h bs w =
     (case next_fault w of
        (Works, w') \<Rightarrow> (Inr (), write_bytes h bs w')
      | (Fails e n, w') \<Rightarrow> (Inl e, write_bytes h (take n bs) w'))"

definition set_len :: "nat \<Rightarrow> nat \<Rightarrow> (io_error, unit) io" where
  "set_len h n = syscall (\<lambda>w.
     (let data = file_data h w
      in (Inr (), set_data h (take n data @ replicate (n - length data) 0) w)))"

definition seek_start :: "nat \<Rightarrow> nat \<Rightarrow> (io_error, unit) io" where
  "seek_start h n w = (Inr (), set_pos h n w)"

definition seek_end :: "nat \<Rightarrow> (io_error, unit) io" where
  "seek_end h w = (Inr (), set_pos h (length (file_data h w)) w)"

definition remove_file :: "path \<Rightarrow> (io_error, unit) io" where
  "remove_file p = syscall (\<lambda>w.
     (case w_dir w p of None \<Rightarrow> (Inl IoOther, w) | Some i \<Rightarrow> (Inr (), w\<lparr>w_dir := (w_dir w)(p := None)\<rparr>)))"

definition rename_file :: "path \<Rightarrow> path \<Rightarrow> (io_error, unit) io" where
  "rename_file p q = syscall (\<lambda>w.
     (case w_dir w p of
        None \<Rightarrow> (Inl IoOther, w)
      | Some i \<Rightarrow> (Inr (), w\<lparr>w_dir := (w_dir w)(p := None, q \<mapsto> i)\<rparr>)))"

section \<open>The journal\<close>

datatype JournalError =
    JIo io_error
  | InvalidMagic
  | UnsupportedVersion u16
  | ChecksumMismatch u64
  | AlreadyLocked path

text \<open>The conversion \<^verbatim>\<open>#[from]\<close> that \<^verbatim>\<open>?\<close> applies to an I/O error.\<close>

definition lift_io :: "(io_error, 'a) io \<Rightarrow> (JournalError, 'a) io" where
  "lift_io act w = (case act w of (Inl e, w') \<Rightarrow> (Inl (JIo e), w') | (Inr x, w') \<Rightarrow> (Inr x, w'))"

record JournaledHistory =
  jh_inner :: ReconcileHistory
  jh_file :: nat
  jh_path :: path
  jh_max_retained_entries :: nat
  jh_lock :: path

definition lock_ext :: bytes where "lock_ext = [0x6C, 0x6F, 0x63, 0x6B]"
definition compact_ext :: bytes where "compact_ext = [0x63, 0x6F, 0x6D, 0x70, 0x61, 0x63, 0x74]"

text \<open>\<^verbatim>\<open>Drop\<close> of the lock guard ignores the result of the removal.\<close>

definition drop_lock :: "path \<Rightarrow> world \<Rightarrow> world" where
  "drop_lock lock_path w = snd (remove_file lock_path w)"

definition close_journal :: "JournaledHistory \<Rightarrow> world \<Rightarrow> world" where
  "close_journal j w = drop_lock (jh_lock j) w"

definition truncate_to :: "nat \<Rightarrow> ReconcileHistory \<Rightarrow> nat \<Rightarrow> (JournalError, ReconcileHistory) io" where
  "truncate_to h inner valid_offset =
     try_do (lift_io (set_len h valid_offset)) (\<lambda>_.
     try_do (lift_io (seek_start h valid_offset)) (\<lambda>_ w. (Inr inner, w)))"

lemma next_fault_data [simp]:
  "file_data h (snd (next_fault w)) = file_data h w" "file_pos h (snd (next_fault w)) = file_pos h w"
  "w_files (snd (next_fault w)) = w_files w" "w_dir (snd (next_fault w)) = w_dir w"
  "w_data (snd (next_fault w)) = w_data w" "w_next (snd (next_fault w)) = w_next w"
  by (simp_all add: next_fault_def file_data_def file_pos_def split: list.split)

lemma set_simps [simp]:
  "file_pos h (set_pos h n w) = n" "file_data g (set_pos h n w) = file_data g w"
  "file_data h (set_data h bs w) = bs" "file_pos g (set_data h bs w) = file_pos g w"
  "w_faults (set_pos h n w) = w_faults w" "w_faults (set_data h bs w) = w_faults w"
  "w_dir (set_pos h n w) = w_dir w" "w_dir (set_data h bs w) = w_dir w"
  "w_data (set_pos h n w) = w_data w" "w_files (set_data h bs w) = w_files w"
  "w_next (set_pos h n w) = w_next w" "w_next (set_data h bs w) = w_next w"
  "of_inode (w_files (set_pos h n w) g) = of_inode (w_files w g)"
  by (simp_all add: file_pos_def file_data_def set_pos_def set_data_def)

lemma next_fault_eq:
  "next_fault w = (f, w') \<Longrightarrow> file_data h w' = file_data h w \<and> file_pos h w' = file_pos h w"
  using next_fault_data(1,2) [of h w] by simp

lemma read_exact_Inr:
  assumes "read_exact h n w = (Inr bs, w')"
  shows "file_data h w' = file_data h w" "file_pos h w' = file_pos h w + n"
    "file_pos h w + n \<le> max (file_pos h w) (length (file_data h w))"
  using assms
  by (auto simp: read_exact_def syscall_def Let_def split: prod.splits io_fault.splits if_splits
      dest!: next_fault_eq [where h = h])

function recover_loop ::
  "nat \<Rightarrow> ReconcileHistory \<Rightarrow> nat \<Rightarrow> (JournalError, ReconcileHistory) io" where
  "recover_loop h inner valid_offset w =
     (case read_exact h 9 w of
        (Inl e, w1) \<Rightarrow>
          if e = IoUnexpectedEof then truncate_to h inner valid_offset w1 else (Inl (JIo e), w1)
      | (Inr meta, w1) \<Rightarrow>
          let tag = meta ! 0;
              payload_len = unat (from_be_bytes (sub_bytes 1 5 meta) :: u32);
              expected_crc = from_be_bytes (sub_bytes 5 9 meta) :: u32
          in (case read_exact h payload_len w1 of
                (Inr payload, w2) \<Rightarrow>
                  if crc32 payload \<noteq> expected_crc then truncate_to h inner valid_offset w2
                  else (case parse_record tag payload of
                          Some entry \<Rightarrow>
                            recover_loop h (history_push inner entry) (file_pos h w2) w2
                        | None \<Rightarrow> truncate_to h inner valid_offset w2)
              | (Inl e, w2) \<Rightarrow>
                  if e = IoUnexpectedEof then truncate_to h inner valid_offset w2
                  else (Inl (JIo e), w2)))"
  by pat_completeness auto

termination
proof (relation "measure (\<lambda>(h, inner, valid, w). length (file_data h w) - file_pos h w)")
  fix h inner valid_offset w x y b xa xb xc xd ya ba x2
  assume a: "(x, y) = read_exact h 9 w" "x = Inr b" "(xd, ya) = read_exact h xb y" "xd = Inr ba"
  then have r: "read_exact h 9 w = (Inr b, y)" "read_exact h xb y = (Inr ba, ya)" by simp_all
  show "((h, history_push inner x2, file_pos h ya, ya), h, inner, valid_offset, w)
      \<in> measure (\<lambda>(h, inner, valid, w). length (file_data h w) - file_pos h w)"
    using read_exact_Inr [OF r(1)] read_exact_Inr [OF r(2)] by simp
qed simp

declare recover_loop.simps [simp del]

section \<open>Opening\<close>

definition check_header :: "bytes \<Rightarrow> JournalError option" where
  "check_header header =
     (if sub_bytes 0 4 header \<noteq> MAGIC then Some InvalidMagic
      else let version = from_be_bytes (sub_bytes 4 6 header) :: u16
           in if version \<noteq> CURRENT_VERSION then Some (UnsupportedVersion version) else None)"

definition replay_journal :: "nat \<Rightarrow> (JournalError, ReconcileHistory) io" where
  "replay_journal h =
     try_do (lift_io (seek_start h 0)) (\<lambda>_.
     try_do (lift_io (read_exact h HEADER_SIZE)) (\<lambda>header w.
       (case check_header header of
          Some e \<Rightarrow> (Inl e, w)
        | None \<Rightarrow> recover_loop h history_new HEADER_SIZE w)))"

definition open_contents :: "u64 \<Rightarrow> path \<Rightarrow> (JournalError, nat \<times> ReconcileHistory) io" where
  "open_contents now path =
     try_do (lift_io (open_create path)) (\<lambda>h.
     try_do (lift_io (file_len h)) (\<lambda>len.
     try_do (if len = 0
             then try_do (lift_io (write_all h (header_bytes now))) (\<lambda>_ w. (Inr history_new, w))
             else replay_journal h) (\<lambda>inner.
     try_do (lift_io (seek_end h)) (\<lambda>_ w. (Inr (h, inner), w)))))"

definition open_or_create :: "u64 \<Rightarrow> path \<Rightarrow> nat \<Rightarrow> (JournalError, JournaledHistory) io" where
  "open_or_create now path max_retained_entries w =
     (let lock_path = with_extension path lock_ext
      in case open_create_new lock_path w of
           (Inl e, w1) \<Rightarrow> (Inl (if e = IoAlreadyExists then AlreadyLocked lock_path else JIo e), w1)
         | (Inr _, w1) \<Rightarrow>
             (case open_contents now path w1 of
                (Inl e, w2) \<Rightarrow> (Inl e, drop_lock lock_path w2)
              | (Inr (h, inner), w2) \<Rightarrow>
                  (Inr \<lparr>jh_inner = inner, jh_file = h, jh_path = path,
                        jh_max_retained_entries = max_retained_entries, jh_lock = lock_path\<rparr>, w2)))"

section \<open>Appending\<close>

definition write_frame :: "nat \<Rightarrow> u8 \<Rightarrow> bytes \<Rightarrow> (JournalError, unit) io" where
  "write_frame h tag payload =
     try_do (lift_io (write_all h (frame_header tag payload))) (\<lambda>_. lift_io (write_all h payload))"

definition journal_append ::
  "u64 \<Rightarrow> PredictedProfit \<Rightarrow> RealizedProfit \<Rightarrow> JournaledHistory \<Rightarrow> world
   \<Rightarrow> (JournalError + unit) \<times> JournaledHistory \<times> world" where
  "journal_append now predicted realized j w =
     (case write_frame (jh_file j) TAG_PAIR (pair_payload predicted realized now) w of
        (Inl e, w') \<Rightarrow> (Inl e, j, w')
      | (Inr _, w') \<Rightarrow> (Inr (), j\<lparr>jh_inner := history_append (jh_inner j) predicted realized\<rparr>, w'))"

definition journal_record_revert ::
  "u64 \<Rightarrow> RevertEvent \<Rightarrow> JournaledHistory \<Rightarrow> world \<Rightarrow> (JournalError + unit) \<times> JournaledHistory \<times> world" where
  "journal_record_revert now event j w =
     (case write_frame (jh_file j) TAG_REVERT (revert_payload event now) w of
        (Inl e, w') \<Rightarrow> (Inl e, j, w')
      | (Inr _, w') \<Rightarrow> (Inr (), j\<lparr>jh_inner := history_record_revert (jh_inner j) event\<rparr>, w'))"

section \<open>Compaction\<close>

text \<open>The retained entries are rewritten with the timestamp zero.\<close>

primrec write_entries :: "nat \<Rightarrow> HistoryEntry list \<Rightarrow> (JournalError, unit) io" where
  "write_entries h [] = (\<lambda>w. (Inr (), w))"
| "write_entries h (entry # entries) =
     try_do (case entry of
               ConfirmedPair p r \<Rightarrow> write_frame h TAG_PAIR (pair_payload p r 0)
             | RevertedTx event \<Rightarrow> write_frame h TAG_REVERT (revert_payload event 0)) (\<lambda>_.
     write_entries h entries)"

definition write_compacted :: "u64 \<Rightarrow> JournaledHistory \<Rightarrow> path \<Rightarrow> (JournalError, unit) io" where
  "write_compacted now j temp_path =
     (let skip = length (timeline (jh_inner j)) - jh_max_retained_entries j
      in try_do (lift_io (open_truncate temp_path)) (\<lambda>h.
         try_do (lift_io (write_all h (header_bytes now))) (\<lambda>_.
         write_entries h (drop skip (timeline (jh_inner j))))))"

definition compact ::
  "u64 \<Rightarrow> JournaledHistory \<Rightarrow> world \<Rightarrow> (JournalError + unit) \<times> JournaledHistory \<times> world" where
  "compact now j w =
     (if length (timeline (jh_inner j)) \<le> jh_max_retained_entries j then (Inr (), j, w)
      else let temp_path = with_extension (jh_path j) compact_ext
           in case try_do (write_compacted now j temp_path) (\<lambda>_.
                   try_do (lift_io (rename_file temp_path (jh_path j))) (\<lambda>_.
                   try_do (lift_io (open_existing (jh_path j))) (\<lambda>h.
                   try_do (lift_io (seek_end h)) (\<lambda>_ w. (Inr h, w))))) w of
                (Inl e, w') \<Rightarrow> (Inl e, j, w')
              | (Inr h, w') \<Rightarrow> (Inr (), j\<lparr>jh_file := h\<rparr>, w'))"

lemma next_record_suffix:
  assumes "next_record bs = Some (e, rest)"
  shows "rest = drop (length bs - length rest) bs"
proof -
  obtain n where "rest = drop n bs" 
    using assms by (auto simp: next_record_def Let_def split: if_splits)
  then show ?thesis by (cases "n \<le> length bs") simp_all
qed

section \<open>A disk without faults\<close>

named_theorems healthy \<open>what the file operations do when no fault is pending\<close>

definition healthy_world :: "world \<Rightarrow> bool" where
  "healthy_world w \<longleftrightarrow> w_faults w = []"

lemma healthy_next [healthy]: "healthy_world w \<Longrightarrow> next_fault w = (Works, w)"
  by (simp add: next_fault_def healthy_world_def)

lemma healthy_set [simp]:
  "healthy_world (set_pos h n w) = healthy_world w" "healthy_world (set_data h bs w) = healthy_world w"
  by (simp_all add: healthy_world_def)

lemma set_set [simp]:
  "set_pos h n (set_pos h m w) = set_pos h n w"
  "set_data h bs (set_data h cs w) = set_data h bs w"
  "set_data h bs (set_pos h n w) = set_pos h n (set_data h bs w)"
  "set_data h (file_data h w) w = w"
  "set_pos h (file_pos h w) w = w"
  by (simp_all add: set_pos_def set_data_def file_data_def file_pos_def)

lemma healthy_read [healthy]:
  "healthy_world w \<Longrightarrow> read_exact h n w =
     (if n \<le> length (file_data h w) - file_pos h w
      then (Inr (take n (drop (file_pos h w) (file_data h w))), set_pos h (file_pos h w + n) w)
      else (Inl IoUnexpectedEof, set_pos h (length (file_data h w)) w))"
  by (simp add: read_exact_def syscall_def healthy Let_def)

lemma healthy_write [healthy]:
  "healthy_world w \<Longrightarrow> write_all h bs w = (Inr (), write_bytes h bs w)"
  by (simp add: write_all_def healthy)

lemma healthy_truncate [healthy]:
  assumes "healthy_world w" "n \<le> length (file_data h w)"
  shows "truncate_to h inner n w = (Inr inner, set_pos h n (set_data h (take n (file_data h w)) w))"
  using assms by (simp add: truncate_to_def try_do_def lift_io_def set_len_def syscall_def seek_start_def healthy)

text \<open>One turn of the loop against \<^const>\<open>next_record\<close>.\<close>

lemma recover_loop_step:
  assumes "healthy_world w" "file_pos h w \<le> length (file_data h w)"
  shows "recover_loop h inner (file_pos h w) w =
     (case next_record (drop (file_pos h w) (file_data h w)) of
        None \<Rightarrow> (Inr inner, set_pos h (file_pos h w) (set_data h (take (file_pos h w) (file_data h w)) w))
      | Some (e, rest) \<Rightarrow>
          let k = length (file_data h w) - length rest
          in recover_loop h (history_push inner e) k (set_pos h k w))"
proof -
  let ?p = "file_pos h w" and ?d = "file_data h w"
  let ?bs = "drop ?p ?d"
  let ?plen = "unat (from_be_bytes (sub_bytes 1 5 ?bs) :: u32)"
  let ?payload = "take ?plen (drop 9 ?bs)"
  note [simp] = assms
  have meta: "sub_bytes 1 5 (take 9 ?bs) = sub_bytes 1 5 ?bs" "sub_bytes 5 9 (take 9 ?bs) = sub_bytes 5 9 ?bs"
    "take 9 ?bs ! 0 = ?bs ! 0"
    by (simp_all add: sub_bytes_take)
  consider "length ?bs < 9" | "9 \<le> length ?bs" "length (drop 9 ?bs) < ?plen"
    | "9 \<le> length ?bs" "?plen \<le> length (drop 9 ?bs)" by linarith
  then show ?thesis
  proof cases
    case 1
    then show ?thesis
      by (subst recover_loop.simps) (simp add: healthy next_record_def)
  next
    case 2
    then have "\<not> ?plen \<le> length ?d - (?p + 9)" "9 \<le> length ?d - ?p" by simp_all
    then show ?thesis using 2
      by (subst recover_loop.simps) (simp add: healthy next_record_def Let_def meta sub_bytes_take)
  next
    case 3
    then have le: "?plen \<le> length ?d - (?p + 9)" "9 \<le> length ?d - ?p" by simp_all
    have pl: "take ?plen (drop (?p + 9) ?d) = ?payload" by (simp add: ac_simps)
    have k: "length ?d - length (drop ?plen (drop 9 ?bs)) = ?p + 9 + ?plen" using 3 by simp
    show ?thesis using 3 le pl k
      by (subst recover_loop.simps)
        (simp add: healthy next_record_def Let_def meta sub_bytes_take ac_simps split: option.split)
  qed
qed

lemma recover_loop_healthy:
  assumes "healthy_world w" "file_pos h w \<le> length (file_data h w)"
    and "wal.read_all (drop (file_pos h w) (file_data h w)) = (es, t)"
  shows "recover_loop h inner (file_pos h w) w =
     (Inr (foldl history_push inner es),
      set_pos h (length (file_data h w) - length t)
        (set_data h (take (length (file_data h w) - length t) (file_data h w)) w))"
  using assms
proof (induction "length (file_data h w) - file_pos h w" arbitrary: inner w es rule: less_induct)
  case less
  let ?p = "file_pos h w" and ?d = "file_data h w"
  let ?bs = "drop ?p ?d"
  note step = recover_loop_step [OF less.prems(1,2), of inner]
  show ?case
  proof (cases "next_record ?bs")
    case None
    then have e: "es = []" "t = ?bs" using less.prems(3) wal.read_all_None by auto
    then show ?thesis using None less.prems(2) by (simp add: step)
  next
    case (Some er)
    then obtain e rest where er: "next_record ?bs = Some (e, rest)" by (cases er) auto
    let ?k = "length ?d - length rest"
    have shorter: "length rest < length ?bs" by (rule next_record_shorter [OF er])
    have rest: "rest = drop ?k ?d"
      using next_record_suffix [OF er] shorter by simp
    obtain es' where es: "es = e # es'" "wal.read_all rest = (es', t)"
      using less.prems(3) wal.read_all_Some [OF er] by (cases "wal.read_all rest") auto
    let ?w = "set_pos h ?k w"
    have "recover_loop h (history_push inner e) (file_pos h ?w) ?w =
        (Inr (foldl history_push (history_push inner e) es'),
         set_pos h (length ?d - length t) (set_data h (take (length ?d - length t) ?d) ?w))"
      using less.hyps [of ?w es' "history_push inner e"] less.prems(1) es(2) rest shorter by simp
    then show ?thesis by (simp add: step er es(1) Let_def)
  qed
qed

end
