(* ===== verification/Journal_Spec.thy ===== *)
theory Journal_Spec
  imports Journal
begin

text \<open>
  What the journal guarantees. On a disk without faults it refines a pair of lists, the entries in
  memory and those a restart finds, under appends, reverts, compactions and restarts; torn and
  corrupt tails are cut; compaction is atomic under any faults. And what it does not guarantee: a
  stale lock, a torn header, a failed append and a journal named \<^verbatim>\<open>*.lock\<close>.
\<close>

section \<open>Opening a file that holds a log\<close>

lemma length_header [simp]: "length (header_bytes now) = 16"
  by (simp add: header_bytes_def MAGIC_def)

lemma check_header_ok [simp]: "check_header (header_bytes now) = None"
  by (simp add: check_header_def header_bytes_def sub_bytes_def MAGIC_def Let_def)

text \<open>What opening an inode gives.\<close>

lemma open_inode_facts [simp]:
  "fst (open_inode i w) = w_next w" "healthy_world (snd (open_inode i w)) = healthy_world w"
  "file_data (w_next w) (snd (open_inode i w)) = w_data w i"
  "file_pos (w_next w) (snd (open_inode i w)) = 0"
  "w_dir (snd (open_inode i w)) = w_dir w" "w_data (snd (open_inode i w)) = w_data w"
  "w_next (snd (open_inode i w)) = w_next w + 1"
  "of_inode (w_files (snd (open_inode i w)) (w_next w)) = i"
  by (simp_all add: open_inode_def healthy_world_def file_data_def file_pos_def)

lemma set_data_facts [simp]:
  "w_data (set_data h bs w) = (w_data w)(of_inode (w_files w h) := bs)"
  by (simp add: set_data_def)

lemma healthy_open_create [healthy]:
  "healthy_world w \<Longrightarrow> w_dir w p = Some i \<Longrightarrow> open_create p w = (Inr (w_next w), snd (open_inode i w))"
  by (simp add: open_create_def syscall_def healthy Let_def case_prod_beta)

lemma healthy_file_len [healthy]: "healthy_world w \<Longrightarrow> file_len h w = (Inr (length (file_data h w)), w)"
  by (simp add: file_len_def syscall_def healthy)

definition opened :: "nat \<Rightarrow> bytes \<Rightarrow> world \<Rightarrow> world" where
  "opened i bs w = set_pos (w_next w) (length bs) (set_data (w_next w) bs (snd (open_inode i w)))"

lemma opened_facts [simp]:
  "healthy_world (opened i bs w) = healthy_world w" "w_dir (opened i bs w) = w_dir w"
  "w_data (opened i bs w) = (w_data w)(i := bs)" "w_next (opened i bs w) = w_next w + 1"
  "file_data (w_next w) (opened i bs w) = bs" "file_pos (w_next w) (opened i bs w) = length bs"
  "of_inode (w_files (opened i bs w) (w_next w)) = i"
  by (simp_all add: opened_def)

lemma read_all_tail: "wal.read_all bs = (es, t) \<Longrightarrow> length t \<le> length bs"
proof (induction bs arbitrary: es t rule: wal.read_all.induct)
  case (1 bs)
  show ?case
  proof (cases "next_record bs")
    case None
    then show ?thesis using "1.prems" wal.read_all_None by simp
  next
    case (Some er)
    then obtain e rest where er: "next_record bs = Some (e, rest)" by (cases er) auto
    obtain es' where "wal.read_all rest = (es', t)"
      using "1.prems" wal.read_all_Some [OF er] by (cases "wal.read_all rest") auto
    then have "length t \<le> length rest" using "1.IH" er by simp
    then show ?thesis using next_record_shorter [OF er] by simp
  qed
qed

lemma open_contents_replay:
  assumes "healthy_world w" "w_dir w path = Some i" "w_data w i = header_bytes t0 @ bs"
    and "wal.read_all bs = (es, t)"
  shows "open_contents now path w =
     (Inr (w_next w, history_of es), opened i (header_bytes t0 @ take (length bs - length t) bs) w)"
proof -
  let ?h = "w_next w" and ?w = "snd (open_inode i w)"
  have [simp]: "healthy_world w" "w_dir w path = Some i" "w_data w i = header_bytes t0 @ bs" by fact+
  have hist: "foldl history_push history_new es = history_of es"
    using fold_history_push [of "[]" es] by (simp add: history_of_Nil)
  have le: "length t \<le> length bs" using read_all_tail [OF assms(4)] by simp
  let ?read = "set_pos ?h 16 ?w" and ?n = "16 + length bs - length t"
  have d: "file_data ?h ?read = header_bytes t0 @ bs" "file_pos ?h ?read = 16" "healthy_world ?read" by simp_all
  have "wal.read_all (drop (file_pos ?h ?read) (file_data ?h ?read)) = (es, t)"
    unfolding d(1,2) using assms(4) by simp
  from recover_loop_healthy [OF d(3) _ this, of history_new]
  have r1: "recover_loop ?h history_new 16 ?read =
      (Inr (history_of es), set_pos ?h ?n (set_data ?h (take ?n (header_bytes t0 @ bs)) ?read))"
    unfolding d(1,2) hist by simp
  have r2: "take ?n (header_bytes t0 @ bs) = header_bytes t0 @ take (length bs - length t) bs"
    using le by simp
  have r3: "?n = length (header_bytes t0 @ take (length bs - length t) bs)"
    using le by simp
  have loop: "recover_loop ?h history_new 16 ?read =
      (Inr (history_of es), opened i (header_bytes t0 @ take (length bs - length t) bs) w)"
    unfolding r1 r2 opened_def r3 [symmetric] by simp
  have replay: "replay_journal ?h ?w = (Inr (history_of es), opened i (header_bytes t0 @ take (length bs - length t) bs) w)"
    using loop by (simp add: replay_journal_def try_do_def lift_io_def healthy seek_start_def HEADER_SIZE_def)
  have "length (file_data ?h ?w) \<noteq> 0" by simp
  then show ?thesis
    using replay
    by (simp add: open_contents_def try_do_def lift_io_def healthy seek_end_def) (simp add: opened_def)
qed

text \<open>Taking the lock creates a file of its own.\<close>

definition locked :: "path \<Rightarrow> world \<Rightarrow> world" where
  "locked p w = snd (open_inode (w_next w) (snd (create_inode p w)))"

lemma locked_facts [simp]:
  "healthy_world (locked p w) = healthy_world w" "w_dir (locked p w) = (w_dir w)(p \<mapsto> w_next w)"
  "w_data (locked p w) = (w_data w)(w_next w := [])" "w_next (locked p w) = w_next w + 2"
  by (simp_all add: locked_def create_inode_def healthy_world_def open_inode_def)

lemma healthy_open_create_new [healthy]:
  "healthy_world w \<Longrightarrow> open_create_new p w =
     (case w_dir w p of Some i \<Rightarrow> (Inl IoAlreadyExists, w) | None \<Rightarrow> (Inr (w_next w + 1), locked p w))"
  by (simp add: open_create_new_def syscall_def healthy Let_def case_prod_beta locked_def create_inode_def
      split: option.split)

lemma healthy_drop_lock [healthy]:
  "healthy_world w \<Longrightarrow> w_dir w p = Some i \<Longrightarrow> drop_lock p w = w\<lparr>w_dir := (w_dir w)(p := None)\<rparr>"
  by (simp add: drop_lock_def remove_file_def syscall_def healthy)

text \<open>Paths whose lock and scratch file are not the journal itself.\<close>

definition proper_path :: "path \<Rightarrow> bool" where
  "proper_path p \<longleftrightarrow> p_ext p \<noteq> Some lock_ext \<and> p_ext p \<noteq> Some compact_ext"

lemma proper_path_neq:
  "proper_path p \<Longrightarrow> with_extension p lock_ext \<noteq> p" "proper_path p \<Longrightarrow> with_extension p compact_ext \<noteq> p"
  "with_extension p lock_ext \<noteq> with_extension p compact_ext"
  by (auto simp: proper_path_def with_extension_def lock_ext_def compact_ext_def path.splits
      intro: sym dest: arg_cong [where f = p_ext])

lemma open_or_create_replay:
  assumes "healthy_world w" "proper_path path" "w_dir w (with_extension path lock_ext) = None"
    and "w_dir w path = Some i" "i < w_next w" "w_data w i = header_bytes t0 @ bs"
    and "wal.read_all bs = (es, t)"
  shows "open_or_create now path k w =
     (Inr \<lparr>jh_inner = history_of es, jh_file = w_next w + 2, jh_path = path, jh_max_retained_entries = k,
           jh_lock = with_extension path lock_ext\<rparr>,
      opened i (header_bytes t0 @ take (length bs - length t) bs) (locked (with_extension path lock_ext) w))"
proof -
  let ?w = "locked (with_extension path lock_ext) w"
  have "open_contents now path ?w = (Inr (w_next ?w, history_of es),
      opened i (header_bytes t0 @ take (length bs - length t) bs) ?w)"
    using assms proper_path_neq(1) [OF assms(2)] by (intro open_contents_replay) auto
  then show ?thesis
    using assms(1,3) by (simp add: open_or_create_def healthy Let_def)
qed

section \<open>Writing at the end of a file\<close>

definition at_end :: "nat \<Rightarrow> world \<Rightarrow> bool" where
  "at_end h w \<longleftrightarrow> file_pos h w = length (file_data h w)"

definition appended :: "nat \<Rightarrow> bytes \<Rightarrow> world \<Rightarrow> world" where
  "appended h bs w = set_pos h (length (file_data h w @ bs)) (set_data h (file_data h w @ bs) w)"

lemma appended_facts [simp]:
  "healthy_world (appended h bs w) = healthy_world w" "w_faults (appended h bs w) = w_faults w"
  "w_dir (appended h bs w) = w_dir w" "w_next (appended h bs w) = w_next w"
  "file_data h (appended h bs w) = file_data h w @ bs"
  "w_data (appended h bs w) = (w_data w)(of_inode (w_files w h) := file_data h w @ bs)"
  "of_inode (w_files (appended h bs w) g) = of_inode (w_files w g)"
  "at_end h (appended h bs w)"
  "appended h cs (appended h bs w) = appended h (bs @ cs) w"
  by (simp_all add: appended_def at_end_def)

lemma appended_Nil: "at_end h w \<Longrightarrow> appended h [] w = w"
  by (simp add: appended_def at_end_def flip: set_set(5)) (metis set_set(4,5))

lemma write_at_end: "at_end h w \<Longrightarrow> write_bytes h bs w = appended h bs w"
  by (simp add: write_bytes_def appended_def at_end_def overwrite_def)

lemma healthy_write_frame [healthy]:
  "healthy_world w \<Longrightarrow> at_end h w \<Longrightarrow> write_frame h tag payload w = (Inr (), appended h (frame_bytes tag payload) w)"
  by (simp add: write_frame_def try_do_def lift_io_def healthy write_at_end frame_bytes_def)

lemma healthy_write_entries [healthy]:
  "healthy_world w \<Longrightarrow> at_end h w \<Longrightarrow>
   write_entries h es w = (Inr (), appended h (concat (map (\<lambda>e. entry_frame e 0) es)) w)"
proof (induction es arbitrary: w)
  case (Cons e es)
  have "(case e of
           ConfirmedPair p r \<Rightarrow> write_frame h TAG_PAIR (pair_payload p r 0)
         | RevertedTx event \<Rightarrow> write_frame h TAG_REVERT (revert_payload event 0)) w
      = (Inr (), appended h (entry_frame e 0) w)"
    using Cons.prems by (cases e) (simp_all add: healthy)
  then show ?case using Cons by (simp add: try_do_def)
qed (simp add: appended_Nil)

section \<open>The journal refines a list in memory and a list on disk\<close>

definition world_ok :: "world \<Rightarrow> bool" where
  "world_ok w \<longleftrightarrow> healthy_world w \<and> inj_on (w_dir w) (dom (w_dir w)) \<and> (\<forall>i \<in> ran (w_dir w). i < w_next w)"

definition disk_image :: "bytes \<Rightarrow> HistoryEntry list \<Rightarrow> bool" where
  "disk_image bs d \<longleftrightarrow>
     (\<exists>t0 ss. bs = header_bytes t0 @ concat (map stamped_frame ss) \<and> map (\<lambda>s. norm_entry (fst s)) ss = d)"

type_synonym journal_spec = "HistoryEntry list \<times> HistoryEntry list"

definition journal_rel :: "journal_spec \<Rightarrow> JournaledHistory \<Rightarrow> world \<Rightarrow> bool" where
  "journal_rel s j w \<longleftrightarrow>
     world_ok w \<and> proper_path (jh_path j) \<and> jh_lock j = with_extension (jh_path j) lock_ext \<and>
     w_dir w (jh_lock j) \<noteq> None \<and>
     w_dir w (jh_path j) = Some (of_inode (w_files w (jh_file j))) \<and>
     at_end (jh_file j) w \<and> disk_image (file_data (jh_file j) w) (snd s) \<and>
     jh_inner j = history_of (fst s)"

lemma world_ok_dir: "world_ok w \<Longrightarrow> w_dir w p = Some i \<Longrightarrow> i < w_next w"
  by (auto simp: world_ok_def ran_def)

lemma world_ok_inj: "world_ok w \<Longrightarrow> w_dir w p = Some i \<Longrightarrow> w_dir w q = Some i \<Longrightarrow> p = q"
  unfolding world_ok_def inj_on_def by (metis domI)

lemma world_okI:
  assumes "healthy_world w" "\<And>p q i. w_dir w p = Some i \<Longrightarrow> w_dir w q = Some i \<Longrightarrow> p = q"
    "\<And>p i. w_dir w p = Some i \<Longrightarrow> i < w_next w"
  shows "world_ok w"
  using assms by (fastforce simp: world_ok_def inj_on_def ran_def)

lemma world_ok_appended [simp]: "world_ok (appended h bs w) = world_ok w"
  by (simp add: world_ok_def)

lemma world_ok_opened [simp]: "world_ok w \<Longrightarrow> world_ok (opened i bs w)"
proof (rule world_okI)
  assume ok: "world_ok w"
  show "healthy_world (opened i bs w)" using ok by (simp add: world_ok_def)
  show "k < w_next (opened i bs w)" if "w_dir (opened i bs w) p = Some k" for p k
    using that world_ok_dir [OF ok, of p k] by simp
  show "p = q" if "w_dir (opened i bs w) p = Some k" "w_dir (opened i bs w) q = Some k" for p q k
    using that world_ok_inj [OF ok] by simp
qed

lemma world_ok_locked [simp]: "world_ok w \<Longrightarrow> world_ok (locked p w)"
proof (rule world_okI)
  assume ok: "world_ok w"
  show "healthy_world (locked p w)" using ok by (simp add: world_ok_def)
  show "i < w_next (locked p w)" if "w_dir (locked p w) q = Some i" for q i
    using that world_ok_dir [OF ok, of q i] by (auto split: if_splits)
  show "q = r" if "w_dir (locked p w) q = Some i" "w_dir (locked p w) r = Some i" for q r i
    using that world_ok_dir [OF ok] world_ok_inj [OF ok] by (auto split: if_splits)
qed

lemma disk_image_snoc: "disk_image bs d \<Longrightarrow> disk_image (bs @ entry_frame e now) (d @ [norm_entry e])"
proof -
  assume "disk_image bs d"
  then obtain t0 ss where "bs = header_bytes t0 @ concat (map stamped_frame ss)" "map (\<lambda>s. norm_entry (fst s)) ss = d"
    by (auto simp: disk_image_def)
  then show ?thesis
    unfolding disk_image_def by (intro exI [of _ t0] exI [of _ "ss @ [(e, now)]"]) (simp add: stamped_frame_def)
qed

lemma disk_image_entries:
  "disk_image (header_bytes now @ concat (map (\<lambda>e. entry_frame e 0) es)) (map norm_entry es)"
  unfolding disk_image_def
  by (intro exI [of _ now] exI [of _ "map (\<lambda>e. (e, 0)) es"]) (simp add: stamped_frame_def o_def)

lemma disk_image_read:
  assumes "disk_image bs d"
  obtains t0 fs where "bs = header_bytes t0 @ fs" "wal.read_all fs = (d, [])"
proof -
  obtain t0 ss where "bs = header_bytes t0 @ concat (map stamped_frame ss)" "map (\<lambda>s. norm_entry (fst s)) ss = d"
    using assms by (auto simp: disk_image_def)
  moreover have "wal.read_all [] = ([], [])" by (rule wal.read_all_None) (simp add: next_record_def)
  ultimately show ?thesis using that wal.read_all_frames [of ss "[]"] by (simp add: list_all_iff)
qed

lemma rel_append:
  assumes "journal_rel (m, d) j w"
  shows "\<exists>j' w'. journal_append now p r j w = (Inr (), j', w') \<and>
     journal_rel (m @ [ConfirmedPair p r], d @ [norm_entry (ConfirmedPair p r)]) j' w' \<and>
     jh_path j' = jh_path j \<and> jh_max_retained_entries j' = jh_max_retained_entries j"
  using assms disk_image_snoc [of _ d "ConfirmedPair p r" now]
  by (auto simp: journal_append_def journal_rel_def world_ok_def healthy history_of_snoc)

lemma rel_record_revert:
  assumes "journal_rel (m, d) j w"
  shows "\<exists>j' w'. journal_record_revert now e j w = (Inr (), j', w') \<and>
     journal_rel (m @ [RevertedTx e], d @ [norm_entry (RevertedTx e)]) j' w' \<and>
     jh_path j' = jh_path j \<and> jh_max_retained_entries j' = jh_max_retained_entries j"
  using assms disk_image_snoc [of _ d "RevertedTx e" now]
  by (auto simp: journal_record_revert_def journal_rel_def world_ok_def healthy history_of_snoc)

section \<open>Reopening\<close>

lemma world_ok_unlock: "world_ok w \<Longrightarrow> world_ok (w\<lparr>w_dir := (w_dir w)(p := None)\<rparr>)"
proof (rule world_okI)
  let ?w = "w\<lparr>w_dir := (w_dir w)(p := None)\<rparr>"
  assume ok: "world_ok w"
  show "healthy_world ?w" using ok by (simp add: world_ok_def healthy_world_def)
  show "i < w_next ?w" if "w_dir ?w q = Some i" for q i
    using that world_ok_dir [OF ok, of q i] by (simp split: if_splits)
  show "q = r" if "w_dir ?w q = Some i" "w_dir ?w r = Some i" for q r i
    using that world_ok_inj [OF ok] by (simp split: if_splits)
qed

text \<open>
  Opening a file that holds a log and a torn tail: the tail is cut off and the log is the new
  state, in memory and on disk.
\<close>

lemma open_recovers:
  assumes ok: "world_ok w" "proper_path path" "w_dir w (with_extension path lock_ext) = None"
    and content: "w_dir w path = Some i" "w_data w i = bs @ t" "disk_image bs d" "next_record t = None"
  shows "\<exists>j w'. open_or_create now path k w = (Inr j, w') \<and> journal_rel (d, d) j w' \<and>
     jh_path j = path \<and> jh_max_retained_entries j = k \<and> file_data (jh_file j) w' = bs"
proof -
  let ?lock = "with_extension path lock_ext"
  obtain t0 ss where ss: "bs = header_bytes t0 @ concat (map stamped_frame ss)" "map (\<lambda>s. norm_entry (fst s)) ss = d"
    using content(3) by (auto simp: disk_image_def)
  have read: "wal.read_all (concat (map stamped_frame ss) @ t) = (d, t)"
    using wal.read_all_frames [of ss t] wal.read_all_None [OF content(4)] ss(2) by (simp add: list_all_iff)
  have i: "i < w_next w" by (rule world_ok_dir [OF ok(1) content(1)])
  have lw: "world_ok (locked ?lock w)" using ok(1) by simp
  have "open_or_create now path k w =
     (Inr \<lparr>jh_inner = history_of d, jh_file = w_next w + 2, jh_path = path, jh_max_retained_entries = k,
           jh_lock = ?lock\<rparr>, opened i bs (locked ?lock w))"
    using open_or_create_replay [OF _ ok(2,3) content(1) i _ read] ok(1) content(2) ss(1) by (simp add: world_ok_def)
  moreover have "w_next (locked ?lock w) = w_next w + 2" by simp
  ultimately show ?thesis
    using opened_facts(5-7) [where w = "locked ?lock w" and i = i and bs = bs] world_ok_opened [OF lw] content(1,3) ok(2)
      proper_path_neq(1) [OF ok(2)]
    by (simp add: journal_rel_def at_end_def)
qed

lemma close_journal_rel:
  assumes "journal_rel (m, d) j w"
  shows "close_journal j w = w\<lparr>w_dir := (w_dir w)(jh_lock j := None)\<rparr>"
  using assms by (auto simp: close_journal_def journal_rel_def world_ok_def healthy)

lemma rel_reopen:
  assumes rel: "journal_rel (m, d) j w"
  shows "\<exists>j' w'. open_or_create now (jh_path j) k (close_journal j w) = (Inr j', w') \<and>
     journal_rel (d, d) j' w' \<and> jh_path j' = jh_path j \<and> jh_max_retained_entries j' = k"
proof -
  let ?w = "w\<lparr>w_dir := (w_dir w)(jh_lock j := None)\<rparr>"
  have lock: "jh_lock j = with_extension (jh_path j) lock_ext" "proper_path (jh_path j)"
    using rel by (simp_all add: journal_rel_def)
  have dir: "w_dir ?w (jh_path j) = Some (of_inode (w_files w (jh_file j)))"
    using rel proper_path_neq(1) [OF lock(2)] by (simp add: journal_rel_def lock)
  have data: "w_data ?w (of_inode (w_files w (jh_file j))) = file_data (jh_file j) w @ []"
    by (simp add: file_data_def)
  have "\<exists>j' w'. open_or_create now (jh_path j) k ?w = (Inr j', w') \<and> journal_rel (d, d) j' w' \<and>
     jh_path j' = jh_path j \<and> jh_max_retained_entries j' = k \<and> file_data (jh_file j') w' = file_data (jh_file j) w"
    using rel
    by (intro open_recovers [OF world_ok_unlock lock(2) _ dir data])
      (auto simp: journal_rel_def lock next_record_def)
  then show ?thesis unfolding close_journal_rel [OF rel] by blast
qed

section \<open>Compacting\<close>

lemma world_ok_open_inode: "world_ok w \<Longrightarrow> world_ok (snd (open_inode i w))"
proof (rule world_okI)
  assume ok: "world_ok w"
  show "healthy_world (snd (open_inode i w))" using ok by (simp add: world_ok_def)
  show "k < w_next (snd (open_inode i w))" if "w_dir (snd (open_inode i w)) p = Some k" for p k
    using that world_ok_dir [OF ok, of p k] by simp
  show "p = q" if "w_dir (snd (open_inode i w)) p = Some k" "w_dir (snd (open_inode i w)) q = Some k" for p q k
    using that world_ok_inj [OF ok] by simp
qed

lemma world_ok_set [simp]:
  "world_ok (set_pos h n w) = world_ok w" "world_ok (set_data h bs w) = world_ok w"
  by (simp_all add: world_ok_def)

lemma world_ok_data: "world_ok w \<Longrightarrow> world_ok (w\<lparr>w_data := f\<rparr>)"
  by (simp add: world_ok_def healthy_world_def)

lemma world_ok_create: "world_ok w \<Longrightarrow> w_dir w p = None \<Longrightarrow> world_ok (snd (create_inode p w))"
proof (rule world_okI)
  let ?w = "snd (create_inode p w)"
  assume ok: "world_ok w"
  have dir: "w_dir ?w = (w_dir w)(p \<mapsto> w_next w)" "w_next ?w = Suc (w_next w)" by (simp_all add: create_inode_def)
  show "healthy_world ?w" using ok by (simp add: create_inode_def world_ok_def healthy_world_def)
  show "i < w_next ?w" if "w_dir ?w q = Some i" for q i
    using that world_ok_dir [OF ok, of q i] by (auto simp: dir split: if_splits)
  show "q = r" if "w_dir ?w q = Some i" "w_dir ?w r = Some i" for q r i
    using that world_ok_dir [OF ok] world_ok_inj [OF ok] by (auto simp: dir split: if_splits)
qed

lemma open_truncate_facts:
  assumes ok: "world_ok w"
  shows "\<exists>i h w'. open_truncate p w = (Inr h, w') \<and> world_ok w' \<and> w_dir w' = (w_dir w)(p \<mapsto> i) \<and>
     file_data h w' = [] \<and> at_end h w' \<and> of_inode (w_files w' h) = i"
proof (cases "w_dir w p")
  case (Some i)
  let ?w = "w\<lparr>w_data := (w_data w)(i := [])\<rparr>"
  have "open_truncate p w = (Inr (w_next ?w), snd (open_inode i ?w))"
    using ok Some by (simp add: open_truncate_def syscall_def healthy world_ok_def Let_def case_prod_beta)
  moreover have "w_dir w = (w_dir w)(p \<mapsto> i)" using Some by auto
  ultimately show ?thesis
    using open_inode_facts(3,4,8) [where w = ?w and i = i] world_ok_open_inode [OF world_ok_data [OF ok]]
    by (intro exI [of _ i] exI [of _ "w_next ?w"] exI [of _ "snd (open_inode i ?w)"])
      (simp add: at_end_def)
next
  case None
  let ?w = "snd (create_inode p w)"
  have "open_truncate p w = (Inr (w_next ?w), snd (open_inode (w_next w) ?w))"
    using ok None
    by (simp add: open_truncate_def syscall_def healthy world_ok_def Let_def case_prod_beta create_inode_def)
  then show ?thesis
    using open_inode_facts(3,4,8) [where w = ?w and i = "w_next w"] world_ok_open_inode [OF world_ok_create [OF ok None]]
    by (intro exI [of _ "w_next w"] exI [of _ "w_next ?w"] exI [of _ "snd (open_inode (w_next w) ?w)"])
      (simp add: at_end_def create_inode_def)
qed

lemma write_compacted_facts:
  assumes "world_ok w"
  shows "\<exists>i w'. write_compacted now j temp w = (Inr (), w') \<and> world_ok w' \<and> w_dir w' = (w_dir w)(temp \<mapsto> i) \<and>
     disk_image (w_data w' i)
       (map norm_entry (drop (length (timeline (jh_inner j)) - jh_max_retained_entries j) (timeline (jh_inner j))))"
proof -
  let ?es = "drop (length (timeline (jh_inner j)) - jh_max_retained_entries j) (timeline (jh_inner j))"
  obtain i h w1 where o: "open_truncate temp w = (Inr h, w1)" "world_ok w1" "w_dir w1 = (w_dir w)(temp \<mapsto> i)"
    "file_data h w1 = []" "at_end h w1" "of_inode (w_files w1 h) = i"
    using open_truncate_facts [OF assms, of temp] by blast
  have h1: "healthy_world w1" using o(2) by (simp add: world_ok_def)
  let ?w = "appended h (header_bytes now @ concat (map (\<lambda>e. entry_frame e 0) ?es)) w1"
  have "write_compacted now j temp w = (Inr (), ?w)"
    using h1 o(5) by (simp add: write_compacted_def try_do_def lift_io_def o(1) healthy write_at_end Let_def)
  moreover have "w_data ?w i = header_bytes now @ concat (map (\<lambda>e. entry_frame e 0) ?es)"
    using o(4,6) by simp
  ultimately show ?thesis using o(2,3) disk_image_entries [of now ?es] by (intro exI [of _ i] exI [of _ ?w]) simp
qed

lemma world_ok_rename:
  assumes ok: "world_ok w" and p: "w_dir w p = Some i"
  shows "world_ok (w\<lparr>w_dir := (w_dir w)(p := None, q \<mapsto> i)\<rparr>)"
proof (rule world_okI)
  let ?w = "w\<lparr>w_dir := (w_dir w)(p := None, q \<mapsto> i)\<rparr>"
  show "healthy_world ?w" using ok by (simp add: world_ok_def healthy_world_def)
  show "k < w_next ?w" if "w_dir ?w r = Some k" for r k
    using that world_ok_dir [OF ok] p by (auto split: if_splits)
  show "r = s" if "w_dir ?w r = Some k" "w_dir ?w s = Some k" for r s k
    using that world_ok_inj [OF ok] p by (auto split: if_splits)
qed

lemma healthy_rename [healthy]:
  "healthy_world w \<Longrightarrow> w_dir w p = Some i \<Longrightarrow>
   rename_file p q w = (Inr (), w\<lparr>w_dir := (w_dir w)(p := None, q \<mapsto> i)\<rparr>)"
  by (simp add: rename_file_def syscall_def healthy)

lemma healthy_open_existing [healthy]:
  "healthy_world w \<Longrightarrow> w_dir w p = Some i \<Longrightarrow> open_existing p w = (Inr (w_next w), snd (open_inode i w))"
  by (simp add: open_existing_def syscall_def healthy case_prod_beta)

lemma rel_compact:
  assumes rel: "journal_rel (m, d) j w"
  shows "\<exists>j' w'. compact now j w = (Inr (), j', w') \<and>
     journal_rel (m, if length m \<le> jh_max_retained_entries j then d
                     else map norm_entry (drop (length m - jh_max_retained_entries j) m)) j' w' \<and>
     jh_path j' = jh_path j \<and> jh_max_retained_entries j' = jh_max_retained_entries j"
proof (cases "length m \<le> jh_max_retained_entries j")
  case True
  then show ?thesis using rel by (auto simp: compact_def journal_rel_def)
next
  case False
  let ?temp = "with_extension (jh_path j) compact_ext"
  let ?d = "map norm_entry (drop (length m - jh_max_retained_entries j) m)"
  have ok: "world_ok w" and path: "proper_path (jh_path j)" and m: "timeline (jh_inner j) = m"
    using rel by (simp_all add: journal_rel_def)
  obtain i w1 where w1: "write_compacted now j ?temp w = (Inr (), w1)" "world_ok w1"
    "w_dir w1 = (w_dir w)(?temp \<mapsto> i)" "disk_image (w_data w1 i) ?d"
    using write_compacted_facts [OF ok, of now j ?temp] unfolding m by blast
  let ?w2 = "w1\<lparr>w_dir := (w_dir w1)(?temp := None, jh_path j \<mapsto> i)\<rparr>"
  have ok2: "world_ok ?w2" using w1(2,3) by (intro world_ok_rename) simp_all
  then have healthy2: "healthy_world w1" "healthy_world ?w2" using w1(2) by (simp_all add: world_ok_def)
  let ?h = "w_next ?w2" and ?w3 = "snd (open_inode i ?w2)"
  let ?w4 = "set_pos ?h (length (file_data ?h ?w3)) ?w3"
  have run: "compact now j w = (Inr (), j\<lparr>jh_file := ?h\<rparr>, ?w4)"
  proof -
    have "rename_file ?temp (jh_path j) w1 = (Inr (), ?w2)"
      using healthy2(1) w1(3) by (intro healthy_rename) simp_all
    moreover have "open_existing (jh_path j) ?w2 = (Inr ?h, ?w3)"
      using healthy2(2) by (intro healthy_open_existing) simp_all
    ultimately show ?thesis
      using False by (simp add: compact_def Let_def m try_do_def lift_io_def w1(1) seek_end_def)
  qed
  have data: "file_data ?h ?w4 = w_data w1 i" "of_inode (w_files ?w4 ?h) = i" "at_end ?h ?w4"
    using open_inode_facts(3,8) [where w = ?w2 and i = i] by (simp_all add: at_end_def)
  have dir: "w_dir ?w4 = (w_dir w)(?temp := None, jh_path j \<mapsto> i)" by (simp add: w1(3))
  have "jh_lock j = with_extension (jh_path j) lock_ext" "w_dir w (jh_lock j) \<noteq> None" "jh_inner j = history_of m"
    using rel by (auto simp: journal_rel_def)
  then have "journal_rel (m, ?d) (j\<lparr>jh_file := ?h\<rparr>) ?w4"
    using world_ok_open_inode [OF ok2, of i] data w1(4) path proper_path_neq(1,2) [OF path]
      proper_path_neq(3) [of "jh_path j"]
    by (auto simp: journal_rel_def w1(3))
  then show ?thesis using run False by simp
qed

section \<open>Sequences of operations\<close>

datatype journal_op =
    OpAppend u64 PredictedProfit RealizedProfit
  | OpRevert u64 RevertEvent
  | OpCompact u64
  | OpReopen u64

primrec run_op ::
  "journal_op \<Rightarrow> JournaledHistory \<Rightarrow> world \<Rightarrow> (JournalError + JournaledHistory) \<times> world" where
  "run_op (OpAppend now p r) j w =
     (case journal_append now p r j w of (Inl e, _, w') \<Rightarrow> (Inl e, w') | (Inr _, j', w') \<Rightarrow> (Inr j', w'))"
| "run_op (OpRevert now e) j w =
     (case journal_record_revert now e j w of (Inl e, _, w') \<Rightarrow> (Inl e, w') | (Inr _, j', w') \<Rightarrow> (Inr j', w'))"
| "run_op (OpCompact now) j w =
     (case compact now j w of (Inl e, _, w') \<Rightarrow> (Inl e, w') | (Inr _, j', w') \<Rightarrow> (Inr j', w'))"
| "run_op (OpReopen now) j w =
     open_or_create now (jh_path j) (jh_max_retained_entries j) (close_journal j w)"

primrec run_ops ::
  "journal_op list \<Rightarrow> JournaledHistory \<Rightarrow> world \<Rightarrow> (JournalError + JournaledHistory) \<times> world" where
  "run_ops [] j w = (Inr j, w)"
| "run_ops (op # ops) j w =
     (case run_op op j w of (Inl e, w') \<Rightarrow> (Inl e, w') | (Inr j', w') \<Rightarrow> run_ops ops j' w')"

text \<open>The specification: the entries in memory and the entries a restart would find.\<close>

primrec spec_op :: "nat \<Rightarrow> journal_op \<Rightarrow> journal_spec \<Rightarrow> journal_spec" where
  "spec_op k (OpAppend now p r) s = (fst s @ [ConfirmedPair p r], snd s @ [ConfirmedPair p r])"
| "spec_op k (OpRevert now e) s = (fst s @ [RevertedTx e], snd s @ [norm_entry (RevertedTx e)])"
| "spec_op k (OpCompact now) s =
     (fst s, if length (fst s) \<le> k then snd s else map norm_entry (drop (length (fst s) - k) (fst s)))"
| "spec_op k (OpReopen now) s = (snd s, snd s)"

lemma run_op_refines:
  assumes "journal_rel s j w"
  shows "\<exists>j' w'. run_op op j w = (Inr j', w') \<and> journal_rel (spec_op (jh_max_retained_entries j) op s) j' w' \<and>
     jh_max_retained_entries j' = jh_max_retained_entries j"
proof -
  obtain m d where s: "s = (m, d)" by (cases s)
  note rel = assms [unfolded s]
  show ?thesis
  proof (cases op)
    case (OpAppend now p r)
    obtain j' w' where "journal_append now p r j w = (Inr (), j', w')"
      "journal_rel (m @ [ConfirmedPair p r], d @ [norm_entry (ConfirmedPair p r)]) j' w'"
      "jh_max_retained_entries j' = jh_max_retained_entries j"
      using rel_append [OF rel] by blast
    then show ?thesis by (simp add: s OpAppend)
  next
    case (OpRevert now e)
    obtain j' w' where "journal_record_revert now e j w = (Inr (), j', w')"
      "journal_rel (m @ [RevertedTx e], d @ [norm_entry (RevertedTx e)]) j' w'"
      "jh_max_retained_entries j' = jh_max_retained_entries j"
      using rel_record_revert [OF rel] by blast
    then show ?thesis by (simp add: s OpRevert)
  next
    case (OpCompact now)
    then show ?thesis using rel_compact [OF rel, of now] by (auto simp: s)
  next
    case (OpReopen now)
    then show ?thesis using rel_reopen [OF rel, of now "jh_max_retained_entries j"] by (auto simp: s)
  qed
qed

lemma run_ops_refine:
  assumes "journal_rel s j w"
  shows "\<exists>j' w'. run_ops ops j w = (Inr j', w') \<and>
     journal_rel (fold (spec_op (jh_max_retained_entries j)) ops s) j' w'"
  using assms
proof (induction ops arbitrary: s j w)
  case (Cons op ops)
  obtain j' w' where "run_op op j w = (Inr j', w')" "journal_rel (spec_op (jh_max_retained_entries j) op s) j' w'"
    "jh_max_retained_entries j' = jh_max_retained_entries j"
    using run_op_refines [OF Cons.prems] by blast
  then show ?case using Cons.IH [of _ j' w'] by fastforce
qed simp

section \<open>A new journal, a locked one, a broken one\<close>

lemma open_new:
  assumes ok: "world_ok w" "proper_path path" "w_dir w path = None" "w_dir w (with_extension path lock_ext) = None"
  shows "\<exists>j w'. open_or_create now path k w = (Inr j, w') \<and> journal_rel ([], []) j w' \<and>
     jh_path j = path \<and> jh_max_retained_entries j = k"
proof -
  let ?lock = "with_extension path lock_ext"
  let ?w1 = "locked ?lock w"
  let ?w2 = "snd (create_inode path ?w1)"
  let ?i = "w_next ?w1" and ?h = "w_next ?w2"
  let ?w3 = "snd (open_inode ?i ?w2)"
  have neq: "?lock \<noteq> path" using proper_path_neq(1) [OF ok(2)] .
  have ok1: "world_ok ?w1" using ok(1) by simp
  have none: "w_dir ?w1 path = None" using ok(3) neq by simp
  have ok2: "world_ok ?w2" using world_ok_create [OF ok1 none] .
  have ok3: "world_ok ?w3" using world_ok_open_inode [OF ok2] .
  have h1: "healthy_world w" "healthy_world ?w1" "healthy_world ?w3" using ok(1) ok1 ok3 by (simp_all add: world_ok_def)
  have "open_create path ?w1 = (Inr ?h, ?w3)"
    using h1(2) none by (simp add: open_create_def syscall_def healthy Let_def case_prod_beta create_inode_def)
  moreover have data: "file_data ?h ?w3 = []" "at_end ?h ?w3" "of_inode (w_files ?w3 ?h) = ?i"
    using open_inode_facts(3,4,8) [where w = ?w2 and i = ?i] by (simp_all add: at_end_def create_inode_def)
  moreover have "seek_end ?h (appended ?h (header_bytes now) ?w3) = (Inr (), appended ?h (header_bytes now) ?w3)"
    by (simp add: seek_end_def appended_def)
  ultimately have "open_contents now path ?w1 = (Inr (?h, history_new), appended ?h (header_bytes now) ?w3)"
    using h1(3) by (simp add: open_contents_def try_do_def lift_io_def healthy write_at_end)
  then have run: "open_or_create now path k w =
     (Inr \<lparr>jh_inner = history_new, jh_file = ?h, jh_path = path, jh_max_retained_entries = k, jh_lock = ?lock\<rparr>,
      appended ?h (header_bytes now) ?w3)"
    using h1(1) ok(4) by (simp add: open_or_create_def healthy Let_def)
  have dir: "w_dir ?w2 = (w_dir w)(?lock \<mapsto> w_next w, path \<mapsto> ?i)" by (simp add: create_inode_def)
  have "disk_image (header_bytes now) []" using disk_image_entries [of now "[]"] by simp
  then show ?thesis
    using run ok3 ok(2) neq data by (simp add: journal_rel_def dir history_of_Nil)
qed

text \<open>While the lock file exists, nobody can open, and nothing is touched.\<close>

lemma open_locked:
  "healthy_world w \<Longrightarrow> w_dir w (with_extension path lock_ext) = Some i \<Longrightarrow>
   open_or_create now path k w = (Inl (AlreadyLocked (with_extension path lock_ext)), w)"
  by (simp add: open_or_create_def healthy Let_def)

text \<open>A file cut inside its header is refused, and the lock is released.\<close>

lemma open_torn_header:
  assumes ok: "world_ok w" "proper_path path" "w_dir w (with_extension path lock_ext) = None"
    and short: "w_dir w path = Some i" "w_data w i = bs" "0 < length bs" "length bs < 16"
  shows "\<exists>w'. open_or_create now path k w = (Inl (JIo IoUnexpectedEof), w') \<and> w_dir w' = w_dir w \<and>
     w_data w' i = bs \<and> world_ok w'"
proof -
  let ?lock = "with_extension path lock_ext"
  let ?w1 = "locked ?lock w"
  let ?h = "w_next ?w1" and ?w2 = "snd (open_inode i ?w1)"
  have i: "i < w_next w" by (rule world_ok_dir [OF ok(1) short(1)])
  have h: "healthy_world w" "healthy_world ?w1" "healthy_world ?w2" using ok(1) by (simp_all add: world_ok_def)
  have dir1: "w_dir ?w1 path = Some i" using short(1) proper_path_neq(1) [OF ok(2)] by simp
  have data: "file_data ?h ?w2 = bs" "file_pos ?h ?w2 = 0"
    using open_inode_facts(3,4) [where w = ?w1 and i = i] short(2) i by simp_all
  let ?w3 = "set_pos ?h (length bs) (set_pos ?h 0 ?w2)"
  have "bs \<noteq> []" using short(3) by auto
  then have run: "open_contents now path ?w1 = (Inl (JIo IoUnexpectedEof), ?w3)"
    using h(2,3) dir1 data short(4)
    by (simp add: open_contents_def try_do_def lift_io_def healthy replay_journal_def seek_start_def HEADER_SIZE_def)
  have dir3: "w_dir ?w3 = (w_dir w)(?lock \<mapsto> w_next w)" by simp
  let ?w4 = "?w3\<lparr>w_dir := (w_dir ?w3)(?lock := None)\<rparr>"
  have "drop_lock ?lock ?w3 = ?w4"
    using h by (intro healthy_drop_lock) simp_all
  then have "open_or_create now path k w = (Inl (JIo IoUnexpectedEof), ?w4)"
    using run h(1) ok(3) by (simp add: open_or_create_def healthy Let_def del: set_set)
  moreover have "w_dir ?w4 = w_dir w" using ok(3) by (simp add: fun_upd_idem_iff)
  moreover have "w_data ?w4 i = bs" using short(2) i by simp
  moreover have "world_ok ?w4"
    using world_ok_unlock [of ?w3 ?lock] world_ok_open_inode [of ?w1 i] ok(1) by simp
  ultimately show ?thesis by blast
qed

section \<open>Corruption\<close>

lemma next_record_corrupt:
  assumes "length payload < 2 ^ 32" "length payload' = length payload" "crc32 payload' \<noteq> crc32 payload"
  shows "next_record (frame_header tag payload @ payload' @ rest) = None"
proof -
  have "unat (word_of_nat (length payload) :: u32) = length payload"
    using assms(1) by (simp add: unat_of_nat)
  then show ?thesis
    using assms(2,3) by (simp add: next_record_def frame_header_def sub_bytes_def Let_def)
qed

section \<open>A failed append\<close>

text \<open>One stray byte of a failed write shifts the tag of the next frame into the length field.\<close>

lemma next_record_stray:
  assumes "y \<noteq> 0" "length bs < 2 ^ 24"
  shows "next_record (x # y # bs) = None"
proof (cases "length bs < 7")
  case False
  let ?len = "from_be_bytes (sub_bytes 1 5 (x # y # bs)) :: u32"
  have "sub_bytes 1 5 (x # y # bs) = y # take 3 bs" by (simp add: sub_bytes_def)
  moreover have "length (take 3 bs) = 3" using False by simp
  ultimately have n: "nat_of_be (sub_bytes 1 5 (x # y # bs)) = unat y * 2 ^ 24 + nat_of_be (take 3 bs)"
    by (simp add: nat_of_be_Cons)
  have "nat_of_be (sub_bytes 1 5 (x # y # bs)) < 256 ^ length (sub_bytes 1 5 (x # y # bs))"
    by (rule nat_of_be_less)
  then have "nat_of_be (sub_bytes 1 5 (x # y # bs)) < 2 ^ 32" using False by (simp add: sub_bytes_def)
  then have "unat ?len = nat_of_be (sub_bytes 1 5 (x # y # bs))"
    by (simp add: from_be_bytes_def unat_of_nat)
  moreover have "1 \<le> unat y" using assms(1) by (simp add: unat_gt_0 Suc_le_eq)
  ultimately have "2 ^ 24 \<le> unat ?len" using n by simp
  then have "length (drop 9 (x # y # bs)) < unat ?len" using assms(2) by simp
  then show ?thesis by (simp add: next_record_def Let_def)
qed (simp add: next_record_def)

text \<open>
  An append whose first write fails after one byte reports the error and leaves the history as it
  was. The next append reports success, but what it wrote is gone at the next start.
\<close>

lemma append_after_torn_append:
  assumes rel: "journal_rel (m, d) j w"
  shows "\<exists>w2 j3 w3 j4 w4.
     journal_append t1 p1 r1 j (w\<lparr>w_faults := [Fails IoOther 1]\<rparr>) = (Inl (JIo IoOther), j, w2) \<and>
     journal_append t2 p2 r2 j w2 = (Inr (), j3, w3) \<and>
     jh_inner j3 = history_of (m @ [ConfirmedPair p2 r2]) \<and>
     open_or_create t3 (jh_path j) k (close_journal j3 w3) = (Inr j4, w4) \<and>
     jh_inner j4 = history_of d"
proof -
  let ?h = "jh_file j" and ?bs = "file_data (jh_file j) w"
  let ?w2 = "appended ?h [TAG_PAIR] w"
  let ?f = "frame_bytes TAG_PAIR (pair_payload p2 r2 t2)"
  let ?w3 = "appended ?h (TAG_PAIR # ?f) w"
  let ?j3 = "j\<lparr>jh_inner := history_append (jh_inner j) p2 r2\<rparr>"
  have h: "healthy_world w" "at_end ?h w" and inner: "jh_inner j = history_of m"
    using rel by (simp_all add: journal_rel_def world_ok_def)
  have w: "w\<lparr>w_faults := []\<rparr> = w" using h(1) by (simp add: healthy_world_def)
  have one: "take 1 (frame_header TAG_PAIR q) = [TAG_PAIR]" for q by (simp add: frame_header_def)
  have a1: "journal_append t1 p1 r1 j (w\<lparr>w_faults := [Fails IoOther 1]\<rparr>) = (Inl (JIo IoOther), j, ?w2)"
    using h(2) by (simp add: journal_append_def write_frame_def try_do_def lift_io_def write_all_def
        next_fault_def one [simplified] write_at_end w)
  have a2: "journal_append t2 p2 r2 j ?w2 = (Inr (), ?j3, ?w3)"
    using h by (simp add: journal_append_def healthy)
  have lock: "jh_lock j = with_extension (jh_path j) lock_ext" and path: "proper_path (jh_path j)"
    and locked: "w_dir w (jh_lock j) \<noteq> None"
    using rel by (auto simp: journal_rel_def)
  let ?w3' = "?w3\<lparr>w_dir := (w_dir ?w3)(jh_lock j := None)\<rparr>"
  have close: "close_journal ?j3 ?w3 = ?w3'"
    using h(1) locked by (auto simp: close_journal_def healthy)
  have ok3: "world_ok ?w3'" using rel by (intro world_ok_unlock) (simp add: journal_rel_def)
  have dir: "w_dir ?w3' (jh_path j) = Some (of_inode (w_files w ?h))"
    using rel proper_path_neq(1) [OF path] by (simp add: journal_rel_def lock)
  have data: "w_data ?w3' (of_inode (w_files w ?h)) = ?bs @ TAG_PAIR # ?f" by simp
  have image: "disk_image ?bs d" using rel by (simp add: journal_rel_def)
  have "next_record (TAG_PAIR # ?f) = None"
    using next_record_stray [of TAG_PAIR "tl ?f" TAG_PAIR]
    by (simp add: frame_bytes_def frame_header_def TAG_PAIR_def)
  then obtain j4 w4 where "open_or_create t3 (jh_path j) k ?w3' = (Inr j4, w4)" "journal_rel (d, d) j4 w4"
    using open_recovers [OF ok3 path _ dir data image] lock by force
  then show ?thesis
    using a1 a2 close by (intro exI conjI) (auto simp: journal_rel_def inner history_of_snoc)
qed

section \<open>A journal whose extension is that of its lock\<close>

lemma open_lock_path:
  assumes ok: "world_ok w" "p_ext path = Some lock_ext" "w_dir w path = None"
  shows "\<exists>j w'. open_or_create now path k w = (Inr j, w') \<and> jh_lock j = path \<and> jh_path j = path \<and>
     world_ok w' \<and> w_dir w' path \<noteq> None"
proof -
  have lock: "with_extension path lock_ext = path" using ok(2) by (simp add: with_extension_def)
  let ?w1 = "locked path w" and ?i = "w_next w"
  let ?h = "w_next ?w1" and ?w2 = "snd (open_inode ?i ?w1)"
  have h: "healthy_world w" "healthy_world ?w1" "healthy_world ?w2" using ok(1) by (simp_all add: world_ok_def)
  have "open_create path ?w1 = (Inr ?h, ?w2)" using h(2) by (intro healthy_open_create) simp_all
  moreover have data: "file_data ?h ?w2 = []" "at_end ?h ?w2"
    using open_inode_facts(3,4) [where w = ?w1 and i = ?i] by (simp_all add: at_end_def)
  moreover have "seek_end ?h (appended ?h (header_bytes now) ?w2) = (Inr (), appended ?h (header_bytes now) ?w2)"
    by (simp add: seek_end_def appended_def)
  ultimately have "open_contents now path ?w1 = (Inr (?h, history_new), appended ?h (header_bytes now) ?w2)"
    using h(3) by (simp add: open_contents_def try_do_def lift_io_def healthy write_at_end)
  then have "open_or_create now path k w =
     (Inr \<lparr>jh_inner = history_new, jh_file = ?h, jh_path = path, jh_max_retained_entries = k, jh_lock = path\<rparr>,
      appended ?h (header_bytes now) ?w2)"
    using h(1) ok(3) by (simp add: open_or_create_def healthy Let_def lock)
  then show ?thesis
    using world_ok_open_inode [of ?w1 ?i] ok(1) by simp
qed

section \<open>Compaction under any faults\<close>

definition contents :: "world \<Rightarrow> path \<Rightarrow> bytes option" where
  "contents w p = map_option (w_data w) (w_dir w p)"

text \<open>What a write leaves alone, and what a successful one has done, whatever faults are pending.\<close>

definition writes_to :: "nat \<Rightarrow> bytes \<Rightarrow> ('e + unit) \<Rightarrow> world \<Rightarrow> world \<Rightarrow> bool" where
  "writes_to h bs r w w' \<longleftrightarrow>
     w_dir w' = w_dir w \<and> (\<forall>g. of_inode (w_files w' g) = of_inode (w_files w g)) \<and>
     (\<forall>k. k \<noteq> of_inode (w_files w h) \<longrightarrow> w_data w' k = w_data w k) \<and>
     (r = Inr () \<longrightarrow> at_end h w \<longrightarrow> at_end h w' \<and> file_data h w' = file_data h w @ bs)"

lemma next_fault_dest:
  "next_fault w = (f, w') \<Longrightarrow> \<exists>fs. w' = w\<lparr>w_faults := fs\<rparr>"
  by (auto simp: next_fault_def split: list.splits) (metis world.surjective world.update_convs(5))

lemma faults_irrelevant [simp]:
  "file_data h (w\<lparr>w_faults := fs\<rparr>) = file_data h w" "file_pos h (w\<lparr>w_faults := fs\<rparr>) = file_pos h w"
  by (simp_all add: file_data_def file_pos_def)

lemma writes_to_all: "lift_io (write_all h bs) w = (r, w') \<Longrightarrow> writes_to h bs r w w'"
  using write_at_end [of h w bs]
  by (auto simp: writes_to_def lift_io_def write_all_def write_bytes_def at_end_def overwrite_def
      split: prod.splits io_fault.splits dest!: next_fault_dest)

lemma writes_to_trans:
  "writes_to h bs (Inr ()) w w1 \<Longrightarrow> writes_to h cs r w1 w2 \<Longrightarrow> writes_to h (bs @ cs) r w w2"
  by (auto simp: writes_to_def)

lemma writes_to_fail: "writes_to h bs (Inl e) w w1 \<Longrightarrow> writes_to h cs (Inl e) w w1"
  by (simp add: writes_to_def)

lemma writes_to_frame: "write_frame h tag payload w = (r, w') \<Longrightarrow> writes_to h (frame_bytes tag payload) r w w'"
  unfolding write_frame_def try_do_def frame_bytes_def
  by (auto split: prod.splits sum.splits intro: writes_to_trans writes_to_fail dest!: writes_to_all)

lemma writes_to_entries:
  "write_entries h es w = (r, w') \<Longrightarrow> writes_to h (concat (map (\<lambda>e. entry_frame e 0) es)) r w w'"
proof (induction es arbitrary: w)
  case (Cons e es)
  have one: "writes_to h (entry_frame e 0) r1 w w1"
    if "(case e of
           ConfirmedPair p r \<Rightarrow> write_frame h TAG_PAIR (pair_payload p r 0)
         | RevertedTx event \<Rightarrow> write_frame h TAG_REVERT (revert_payload event 0)) w = (r1, w1)" for r1 w1
    using that by (cases e) (auto dest: writes_to_frame)
  show ?case
    using Cons.prems one Cons.IH
    by (auto simp: try_do_def split: prod.splits sum.splits intro: writes_to_trans writes_to_fail)
qed (simp add: writes_to_def)

lemma open_truncate_any:
  assumes "open_truncate p w = (r, w')" "i < w_next w"
    and "w_dir w path = Some i" "w_dir w p \<noteq> Some i" "p \<noteq> path"
  shows "w_dir w' path = Some i \<and> w_data w' i = w_data w i \<and>
     (\<forall>h. r = Inr h \<longrightarrow> w_dir w' p = Some (of_inode (w_files w' h)) \<and> of_inode (w_files w' h) \<noteq> i \<and>
        at_end h w' \<and> file_data h w' = [])"
proof -
  show ?thesis
    using assms
    by (auto simp: open_truncate_def syscall_def Let_def create_inode_def open_inode_def at_end_def file_data_def
        file_pos_def split: prod.splits io_fault.splits option.splits dest!: next_fault_dest)
qed

lemma write_compacted_any:
  assumes "write_compacted now j temp w = (r, w')" "i < w_next w"
    and "w_dir w path = Some i" "w_dir w temp \<noteq> Some i" "temp \<noteq> path"
  shows "w_dir w' path = Some i \<and> w_data w' i = w_data w i \<and>
     (r = Inr () \<longrightarrow> contents w' temp = Some (header_bytes now @
        concat (map (\<lambda>e. entry_frame e 0)
          (drop (length (timeline (jh_inner j)) - jh_max_retained_entries j) (timeline (jh_inner j))))))"
proof -
  let ?es = "drop (length (timeline (jh_inner j)) - jh_max_retained_entries j) (timeline (jh_inner j))"
  obtain r1 w1 where o: "open_truncate temp w = (r1, w1)" by (cases "open_truncate temp w")
  note o' = open_truncate_any [OF o assms(2-5)]
  show ?thesis
  proof (cases r1)
    case (Inl e)
    then show ?thesis using assms(1) o o' by (auto simp: write_compacted_def try_do_def lift_io_def Let_def)
  next
    case (Inr h)
    note keep = o' [unfolded Inr]
    obtain r2 w2 where w2: "lift_io (write_all h (header_bytes now)) w1 = (r2, w2)"
      by (cases "lift_io (write_all h (header_bytes now)) w1")
    have t2: "writes_to h (header_bytes now) r2 w1 w2" by (rule writes_to_all [OF w2])
    show ?thesis
    proof (cases r2)
      case (Inl e)
      then have "r = Inl e" "w' = w2"
        using assms(1) by (simp_all add: write_compacted_def try_do_def lift_io_def o Inr Let_def w2 [unfolded lift_io_def])
      then show ?thesis using t2 keep by (auto simp: writes_to_def)
    next
      case (Inr u)
      then have "write_entries h ?es w2 = (r, w')"
        using assms(1) by (simp add: write_compacted_def try_do_def lift_io_def o \<open>r1 = Inr h\<close> Let_def w2 [unfolded lift_io_def])
      then have "writes_to h (header_bytes now @ concat (map (\<lambda>e. entry_frame e 0) ?es)) r w1 w'"
        using t2 Inr by (auto intro: writes_to_trans dest: writes_to_entries)
      then show ?thesis using keep by (auto simp: writes_to_def contents_def file_data_def)
    qed
  qed
qed

lemma compact_any:
  assumes "compact now j w = (r, j', w')" "i < w_next w"
    and "w_dir w (jh_path j) = Some i" "w_dir w (with_extension (jh_path j) compact_ext) \<noteq> Some i"
    and "proper_path (jh_path j)"
  defines "fresh \<equiv> header_bytes now @ concat (map (\<lambda>e. entry_frame e 0)
      (drop (length (timeline (jh_inner j)) - jh_max_retained_entries j) (timeline (jh_inner j))))"
  shows "jh_inner j' = jh_inner j \<and>
     (contents w' (jh_path j) = Some (w_data w i) \<or> contents w' (jh_path j) = Some fresh) \<and>
     (r = Inr () \<longrightarrow> jh_max_retained_entries j < length (timeline (jh_inner j)) \<longrightarrow> contents w' (jh_path j) = Some fresh)"
proof (cases "length (timeline (jh_inner j)) \<le> jh_max_retained_entries j")
  case True
  then show ?thesis using assms(1,3) by (simp add: compact_def contents_def)
next
  case False
  let ?temp = "with_extension (jh_path j) compact_ext"
  obtain r1 w1 where w1: "write_compacted now j ?temp w = (r1, w1)" by (cases "write_compacted now j ?temp w")
  note keep = write_compacted_any [OF w1 assms(2-4) proper_path_neq(2) [OF assms(5)]]
  show ?thesis
  proof (cases r1)
    case (Inl e)
    then show ?thesis
      using assms(1) False keep by (auto simp: compact_def Let_def try_do_def w1 contents_def)
  next
    case (Inr u)
    obtain r2 w2 where w2: "rename_file ?temp (jh_path j) w1 = (r2, w2)"
      by (cases "rename_file ?temp (jh_path j) w1")
    show ?thesis
    proof (cases r2)
      case (Inl e)
      then have "contents w2 (jh_path j) = contents w1 (jh_path j)"
        using w2 by (auto simp: rename_file_def syscall_def contents_def
            split: prod.splits io_fault.splits option.splits dest!: next_fault_dest)
      then show ?thesis
        using assms(1) False keep Inl
        by (auto simp: compact_def Let_def try_do_def lift_io_def w1 Inr w2 contents_def)
    next
      case (Inr u2)
      have done_: "contents w2 (jh_path j) = Some fresh"
        using w2 keep \<open>r1 = Inr u\<close> \<open>r2 = Inr u2\<close> unfolding fresh_def
        by (auto simp: rename_file_def syscall_def contents_def
            split: prod.splits io_fault.splits option.splits dest!: next_fault_dest)
      obtain r3 w3 where w3: "open_existing (jh_path j) w2 = (r3, w3)" by (cases "open_existing (jh_path j) w2")
      have "contents w3 (jh_path j) = contents w2 (jh_path j)"
        using w3 by (auto simp: open_existing_def syscall_def contents_def open_inode_def
            split: prod.splits io_fault.splits option.splits dest!: next_fault_dest)
      then show ?thesis
        using assms(1) False done_ \<open>r1 = Inr u\<close> \<open>r2 = Inr u2\<close>
        by (cases r3)
          (auto simp: compact_def Let_def try_do_def lift_io_def w1 w2 w3 seek_end_def contents_def)
    qed
  qed
qed

lemma open_recovers_frames:
  assumes "world_ok w" "proper_path path" "w_dir w (with_extension path lock_ext) = None"
    and "w_dir w path = Some i" "w_data w i = header_bytes t0 @ concat (map stamped_frame ss) @ t"
    and "next_record t = None"
  shows "\<exists>j w'. open_or_create now path k w = (Inr j, w') \<and>
     jh_inner j = history_of (map (\<lambda>s. norm_entry (fst s)) ss) \<and>
     contents w' path = Some (header_bytes t0 @ concat (map stamped_frame ss))"
proof -
  let ?bs = "header_bytes t0 @ concat (map stamped_frame ss)" and ?d = "map (\<lambda>s. norm_entry (fst s)) ss"
  have image: "disk_image ?bs ?d" by (auto simp: disk_image_def)
  have data: "w_data w i = ?bs @ t" using assms(5) by simp
  obtain j w' where *: "open_or_create now path k w = (Inr j, w')" "journal_rel (?d, ?d) j w'" "jh_path j = path"
    "file_data (jh_file j) w' = ?bs"
    using open_recovers [OF assms(1-4) data image assms(6), of now k] by blast
  then have "contents w' path = Some ?bs"
    by (auto simp: journal_rel_def contents_def file_data_def)
  then show ?thesis using * by (auto simp: journal_rel_def)
qed

section \<open>Properties\<close>

text \<open>
  The checksum of the journal is the CRC-32 of IEEE 802.3: it has the published check value of
  the nine bytes \<open>123456789\<close>.
\<close>

theorem crc32_check_value:
  "crc32 [0x31, 0x32, 0x33, 0x34, 0x35, 0x36, 0x37, 0x38, 0x39] = 0xCBF43926"
  by (rule crc32_check)

text \<open>
  C19. The checksum detects every error burst of up to four bytes, wherever it lies in the payload
  and whatever surrounds it: the checksums agree only if the bytes do.
\<close>

theorem crc32_detects_bursts:
  assumes "length as = length bs" "length as \<le> 4"
  shows "crc32 (xs @ as @ ys) = crc32 (xs @ bs @ ys) \<longleftrightarrow> as = bs"
  using assms by (rule crc32_burst)

theorem crc32_detects_bursts_witness:
  "crc32 ([1] @ [2, 3, 4, 5] @ [6]) = crc32 ([1] @ [2, 3, 4, 9] @ [6]) \<longleftrightarrow> [2, 3, 4, 5 :: u8] = [2, 3, 4, 9]"
  by (rule crc32_detects_bursts) simp_all

text \<open>
  C14. Round trip of a record: what \<^verbatim>\<open>append\<close>, \<^verbatim>\<open>record_revert\<close> or \<^verbatim>\<open>compact\<close> writes is read back as
  the same entry, with the bytes that follow left over. The one loss is in the reason of a revert:
  empty reads as absent, and 65535 bytes are kept, none if that splits a character.
\<close>

theorem record_round_trip: "next_record (entry_frame e now @ rest) = Some (norm_entry e, rest)"
  by (rule next_record_entry)

text \<open>
  C11. Torn-write recovery (whitepaper, Property 6): opening a journal whose last frame was cut
  anywhere, also to nothing, gives the history of the complete frames, and truncates the file to
  the header and these frames.
\<close>

theorem torn_write_recovery:
  assumes "world_ok w" "proper_path path" "w_dir w (with_extension path lock_ext) = None"
    and "w_dir w path = Some i" "w_data w i = header_bytes t0 @ concat (map stamped_frame ss) @ t"
    and "strict_prefix t (stamped_frame s)"
  shows "\<exists>j w'. open_or_create now path k w = (Inr j, w') \<and>
     jh_inner j = history_of (map (\<lambda>s. norm_entry (fst s)) ss) \<and>
     contents w' path = Some (header_bytes t0 @ concat (map stamped_frame ss))"
proof (rule open_recovers_frames [OF assms(1-5)])
  show "next_record t = None" using assms(6) unfolding stamped_frame_def by (rule next_record_torn)
qed

definition some_path :: path where
  "some_path = \<lparr>p_parent = [], p_stem = [0x77], p_ext = Some [0x77, 0x61, 0x6C]\<rparr>"

definition disk_with :: "path \<Rightarrow> bytes \<Rightarrow> world" where
  "disk_with p bs = \<lparr>w_dir = [p \<mapsto> 0], w_data = (\<lambda>i. bs), w_files = (\<lambda>h. \<lparr>of_inode = 0, of_pos = 0\<rparr>),
     w_next = 1, w_faults = []\<rparr>"

definition blank_disk :: world where
  "blank_disk = \<lparr>w_dir = Map.empty, w_data = (\<lambda>i. []), w_files = (\<lambda>h. \<lparr>of_inode = 0, of_pos = 0\<rparr>),
     w_next = 0, w_faults = []\<rparr>"

lemma example_disks [simp]:
  "world_ok (disk_with p bs)" "world_ok blank_disk" "w_dir (disk_with p bs) p = Some 0" "w_data (disk_with p bs) 0 = bs"
  "w_dir blank_disk p = None" "proper_path some_path"
  "w_dir (disk_with some_path bs) (with_extension some_path lock_ext) = None"
  by (auto simp: world_ok_def disk_with_def blank_disk_def healthy_world_def proper_path_def some_path_def lock_ext_def
      compact_ext_def with_extension_def ran_def inj_on_def)

definition one_pair :: "stamped list" where
  "one_pair = [(ConfirmedPair (PredictedProfit 100) (RealizedProfit 42), 2)]"

theorem torn_write_recovery_witness:
  "\<exists>j w'. open_or_create 5 some_path 100
       (disk_with some_path (header_bytes 1 @ concat (map stamped_frame one_pair) @ [TAG_PAIR])) = (Inr j, w') \<and>
     jh_inner j = history_of (map (\<lambda>s. norm_entry (fst s)) one_pair) \<and>
     contents w' some_path = Some (header_bytes 1 @ concat (map stamped_frame one_pair))"
proof (rule torn_write_recovery [where i = 0])
  show "strict_prefix [TAG_PAIR] (stamped_frame (ConfirmedPair (PredictedProfit 7) (RealizedProfit 7), 3))"
    by (simp add: stamped_frame_def frame_bytes_def frame_header_def strict_prefix_def pair_payload_def
        flip: length_0_conv)
qed simp_all

text \<open>
  C31. Corruption inside a record: when up to four consecutive payload bytes of a frame are damaged,
  opening keeps exactly the records before it and truncates the file there.
\<close>

theorem corrupt_record_is_cut:
  assumes "world_ok w" "proper_path path" "w_dir w (with_extension path lock_ext) = None"
    and "w_dir w path = Some i"
    and "w_data w i = header_bytes t0 @ concat (map stamped_frame ss)
           @ frame_header tag (xs @ as @ ys) @ (xs @ bs @ ys) @ later"
    and "length as = length bs" "length as \<le> 4" "as \<noteq> bs" "length (xs @ as @ ys) < 2 ^ 32"
  shows "\<exists>j w'. open_or_create now path k w = (Inr j, w') \<and>
     jh_inner j = history_of (map (\<lambda>s. norm_entry (fst s)) ss) \<and>
     contents w' path = Some (header_bytes t0 @ concat (map stamped_frame ss))"
proof (rule open_recovers_frames [OF assms(1-5)])
  have "crc32 (xs @ bs @ ys) \<noteq> crc32 (xs @ as @ ys)"
    using crc32_burst [of bs as xs ys] assms(6-8) by auto
  then have "next_record (frame_header tag (xs @ as @ ys) @ (xs @ bs @ ys) @ later) = None"
    using assms(6,9) by (intro next_record_corrupt) simp_all
  then show "next_record (frame_header tag (xs @ as @ ys) @ (xs @ bs @ ys) @ later) = None" by simp
qed

theorem corrupt_record_is_cut_witness:
  "\<exists>j w'. open_or_create 5 some_path 100
       (disk_with some_path (header_bytes 1 @ concat (map stamped_frame one_pair)
          @ frame_header TAG_PAIR ([1] @ [2] @ [3]) @ ([1] @ [9] @ [3]) @ [])) = (Inr j, w') \<and>
     jh_inner j = history_of (map (\<lambda>s. norm_entry (fst s)) one_pair) \<and>
     contents w' some_path = Some (header_bytes 1 @ concat (map stamped_frame one_pair))"
  by (rule corrupt_record_is_cut [where i = 0 and as = "[2]" and bs = "[9]" and xs = "[1]" and ys = "[3]"
      and tag = TAG_PAIR and later = "[]"]) simp_all

text \<open>
  C3. Refinement: on a disk that works, a new journal and any sequence of appends, recorded reverts,
  compactions and restarts succeed, and the history in memory is that of the abstract journal: a
  restart forgets nothing but what compaction dropped and what the format cannot hold.
\<close>

theorem journal_refines_spec:
  assumes "world_ok w" "proper_path path" "w_dir w path = None" "w_dir w (with_extension path lock_ext) = None"
  shows "\<exists>j w1 j' w2. open_or_create now path k w = (Inr j, w1) \<and> run_ops ops j w1 = (Inr j', w2) \<and>
     jh_inner j' = history_of (fst (fold (spec_op k) ops ([], [])))"
proof -
  obtain j w1 where j: "open_or_create now path k w = (Inr j, w1)" "journal_rel ([], []) j w1"
    "jh_max_retained_entries j = k"
    using open_new [OF assms] by blast
  obtain j' w2 where "run_ops ops j w1 = (Inr j', w2)" "journal_rel (fold (spec_op k) ops ([], [])) j' w2"
    using run_ops_refine [OF j(2), of ops] unfolding j(3) by blast
  then show ?thesis using j(1) by (auto simp: journal_rel_def)
qed

theorem journal_refines_spec_witness:
  "\<exists>j w1 j' w2. open_or_create 1 some_path 1 blank_disk = (Inr j, w1) \<and>
     run_ops [OpAppend 2 (PredictedProfit 100) (RealizedProfit 42), OpAppend 3 (PredictedProfit 7) (RealizedProfit 8),
       OpCompact 4, OpReopen 5] j w1 = (Inr j', w2) \<and>
     jh_inner j' = history_of (fst (fold (spec_op 1) [OpAppend 2 (PredictedProfit 100) (RealizedProfit 42),
       OpAppend 3 (PredictedProfit 7) (RealizedProfit 8), OpCompact 4, OpReopen 5] ([], [])))"
  by (rule journal_refines_spec) simp_all

text \<open>
  C15. Compaction is atomic under any I/O errors: whichever call fails, the file at the journal's path
  holds afterwards either the old bytes or the complete compacted log, the history in memory is
  unchanged, and success means the compacted log.
\<close>

theorem compaction_is_atomic:
  assumes "compact now j w = (r, j', w')" "i < w_next w" "w_dir w (jh_path j) = Some i"
    and "w_dir w (with_extension (jh_path j) compact_ext) \<noteq> Some i" "proper_path (jh_path j)"
    and "jh_max_retained_entries j < length (timeline (jh_inner j))"
  shows "let es = timeline (jh_inner j);
             fresh = header_bytes now @ concat (map (\<lambda>e. entry_frame e 0) (drop (length es - jh_max_retained_entries j) es))
         in jh_inner j' = jh_inner j \<and>
            (if r = Inr () then contents w' (jh_path j) = Some fresh
             else contents w' (jh_path j) \<in> {Some (w_data w i), Some fresh})"
  using compact_any [OF assms(1-5)] assms(6) by (auto simp: Let_def)

definition some_journal :: JournaledHistory where
  "some_journal = \<lparr>jh_inner = history_of [ConfirmedPair (PredictedProfit 100) (RealizedProfit 42)], jh_file = 0,
     jh_path = some_path, jh_max_retained_entries = 0, jh_lock = with_extension some_path lock_ext\<rparr>"

theorem compaction_is_atomic_witness:
  "let w = disk_with some_path [1, 2, 3]\<lparr>w_faults := [Works, Fails IoOther 7]\<rparr>;
       r = fst (compact 5 some_journal w); j' = fst (snd (compact 5 some_journal w));
       w' = snd (snd (compact 5 some_journal w)); es = timeline (jh_inner some_journal);
       fresh = header_bytes 5 @ concat (map (\<lambda>e. entry_frame e 0) (drop (length es - jh_max_retained_entries some_journal) es))
   in jh_inner j' = jh_inner some_journal \<and>
      (if r = Inr () then contents w' (jh_path some_journal) = Some fresh
       else contents w' (jh_path some_journal) \<in> {Some (w_data w 0), Some fresh})"
proof -
  have p: "jh_path some_journal = some_path" by (simp add: some_journal_def)
  have "with_extension some_path compact_ext \<noteq> some_path" by (rule proper_path_neq(2)) simp
  then show ?thesis
    unfolding Let_def
    by (intro compaction_is_atomic [unfolded Let_def]) (simp_all add: p disk_with_def, simp add: some_journal_def)
qed

text \<open>
  C38. The lock: while the lock file exists, opening is refused and changes nothing, so no two
  processes have the journal open. Nothing but the holder removes the file: after a crash the
  journal stays locked, however often a restart tries.
\<close>

theorem open_refused_while_locked:
  assumes "healthy_world w" "w_dir w (with_extension path lock_ext) = Some i"
  shows "open_or_create now path k w = (Inl (AlreadyLocked (with_extension path lock_ext)), w)"
  using assms by (rule open_locked)

theorem open_refused_while_locked_witness:
  "open_or_create 5 some_path 100 (disk_with (with_extension some_path lock_ext) [])
     = (Inl (AlreadyLocked (with_extension some_path lock_ext)), disk_with (with_extension some_path lock_ext) [])"
  using open_refused_while_locked [of "disk_with (with_extension some_path lock_ext) []" some_path 0 5 100]
    example_disks(1,3) by (simp add: world_ok_def)

text \<open>
  C39. A crash while the header is written is not recovered: a journal of 1 to 15 bytes is refused
  with an end-of-file error. The lock is released and the file is left as it was, so every later
  start is refused in the same way.
\<close>

theorem torn_header_is_refused:
  assumes "world_ok w" "proper_path path" "w_dir w (with_extension path lock_ext) = None"
    and "w_dir w path = Some i" "w_data w i = bs" "0 < length bs" "length bs < 16"
  shows "\<exists>w'. open_or_create now path k w = (Inl (JIo IoUnexpectedEof), w') \<and>
     w_dir w' = w_dir w \<and> w_data w' i = bs \<and> world_ok w'"
  using assms by (rule open_torn_header)

theorem torn_header_is_refused_witness:
  "\<exists>w'. open_or_create 5 some_path 100 (disk_with some_path MAGIC) = (Inl (JIo IoUnexpectedEof), w') \<and>
     w_dir w' = w_dir (disk_with some_path MAGIC) \<and> w_data w' 0 = MAGIC \<and> world_ok w'"
  by (rule torn_header_is_refused) (simp_all add: MAGIC_def)

text \<open>
  C40. An acknowledged record can be lost: when one append fails after a single byte reached the
  file, the history is as it was and the error is reported, but the next append, which reports
  success and enters the history in memory, is not there after a restart.
\<close>

theorem acknowledged_record_lost:
  assumes "journal_rel (m, d) j w"
  shows "\<exists>w2 j3 w3 j4 w4.
     journal_append t1 p1 r1 j (w\<lparr>w_faults := [Fails IoOther 1]\<rparr>) = (Inl (JIo IoOther), j, w2) \<and>
     journal_append t2 p2 r2 j w2 = (Inr (), j3, w3) \<and>
     jh_inner j3 = history_of (m @ [ConfirmedPair p2 r2]) \<and>
     open_or_create t3 (jh_path j) k (close_journal j3 w3) = (Inr j4, w4) \<and>
     jh_inner j4 = history_of d"
  using assms by (rule append_after_torn_append)

theorem acknowledged_record_lost_witness:
  "\<exists>j w w2 j3 w3 j4 w4. open_or_create 0 some_path 9 blank_disk = (Inr j, w) \<and>
     journal_append 1 (PredictedProfit 5) (RealizedProfit 5) j (w\<lparr>w_faults := [Fails IoOther 1]\<rparr>)
       = (Inl (JIo IoOther), j, w2) \<and>
     journal_append 2 (PredictedProfit 100) (RealizedProfit 42) j w2 = (Inr (), j3, w3) \<and>
     jh_inner j3 = history_of ([] @ [ConfirmedPair (PredictedProfit 100) (RealizedProfit 42)]) \<and>
     open_or_create 3 (jh_path j) 9 (close_journal j3 w3) = (Inr j4, w4) \<and>
     jh_inner j4 = history_of []"
proof -
  obtain j w where "open_or_create 0 some_path 9 blank_disk = (Inr j, w)" "journal_rel ([], []) j w"
    using open_new [of blank_disk some_path 0 9] by auto
  with acknowledged_record_lost [of "[]" "[]" j w 1 "PredictedProfit 5" "RealizedProfit 5" 2 "PredictedProfit 100"
      "RealizedProfit 42" 3 9]
  show ?thesis by blast
qed

text \<open>
  A journal whose extension is \<^verbatim>\<open>lock\<close> is its own lock file: opening succeeds, and closing it
  deletes the journal.
\<close>

theorem lock_extension_deletes_journal:
  assumes "world_ok w" "p_ext path = Some lock_ext" "w_dir w path = None"
  shows "\<exists>j w'. open_or_create now path k w = (Inr j, w') \<and> w_dir w' path \<noteq> None \<and>
     w_dir (close_journal j w') path = None"
proof -
  obtain j w' where j: "open_or_create now path k w = (Inr j, w')" "jh_lock j = path" "world_ok w'" "w_dir w' path \<noteq> None"
    using open_lock_path [OF assms] by blast
  then have "w_dir (close_journal j w') path = None"
    by (auto simp: close_journal_def world_ok_def healthy)
  then show ?thesis using j by blast
qed

theorem lock_extension_deletes_journal_witness:
  "\<exists>j w'. open_or_create 1 (with_extension some_path lock_ext) 9 blank_disk = (Inr j, w') \<and>
     w_dir w' (with_extension some_path lock_ext) \<noteq> None \<and>
     w_dir (close_journal j w') (with_extension some_path lock_ext) = None"
  by (rule lock_extension_deletes_journal) (simp_all add: with_extension_def)

end
