(* ===== verification/Journal_Crash.thy ===== *)
theory Journal_Crash
  imports Journal_Spec
begin

text \<open>
  Crashes of the journal. The process may die inside any operation, at any system call and after any
  byte of a write; the lock file it leaves is removed by hand and the journal is opened again, which
  may be interrupted in turn. Whatever happens, and however often, each interrupted operation has
  happened as a whole or not at all.
\<close>

section \<open>What an interrupted operation leaves behind\<close>

definition dir_ok :: "world \<Rightarrow> bool" where
  "dir_ok w \<longleftrightarrow> inj_on (w_dir w) (dom (w_dir w)) \<and> (\<forall>i \<in> ran (w_dir w). i < w_next w)"

lemma dir_okI:
  assumes "\<And>p q i. w_dir w p = Some i \<Longrightarrow> w_dir w q = Some i \<Longrightarrow> p = q" "\<And>p i. w_dir w p = Some i \<Longrightarrow> i < w_next w"
  shows "dir_ok w"
  using assms by (fastforce simp: dir_ok_def inj_on_def ran_def)

lemma dir_okD:
  "dir_ok w \<Longrightarrow> w_dir w p = Some i \<Longrightarrow> i < w_next w"
  "dir_ok w \<Longrightarrow> w_dir w p = Some i \<Longrightarrow> w_dir w q = Some i \<Longrightarrow> p = q"
  unfolding dir_ok_def inj_on_def by (auto simp: ran_def) (metis domI)

lemma world_ok_dir_ok: "world_ok w \<longleftrightarrow> healthy_world w \<and> dir_ok w"
  by (auto simp: world_ok_def dir_ok_def)

lemma dir_ok_same: "w_dir w' = w_dir w \<Longrightarrow> w_next w' = w_next w \<Longrightarrow> dir_ok w' = dir_ok w"
  by (simp add: dir_ok_def)

text \<open>Whatever faults are pending, the file operations keep the directory in order.\<close>

definition keeps_dir :: "(world \<Rightarrow> 'r \<times> world) \<Rightarrow> bool" where
  "keeps_dir act \<longleftrightarrow> (\<forall>w. dir_ok w \<longrightarrow> dir_ok (snd (act w)))"

lemma keeps_dirI: "(\<And>w. dir_ok w \<Longrightarrow> dir_ok (snd (act w))) \<Longrightarrow> keeps_dir act"
  by (simp add: keeps_dir_def)

lemma keeps_dirD: "keeps_dir act \<Longrightarrow> act w = (r, w') \<Longrightarrow> dir_ok w \<Longrightarrow> dir_ok w'"
  unfolding keeps_dir_def by (metis snd_conv)

named_theorems keeps \<open>operations that keep the directory in order\<close>

lemma keeps_syscall: "keeps_dir act \<Longrightarrow> keeps_dir (syscall act)"
proof (rule keeps_dirI)
  fix w assume act: "keeps_dir act" and w: "dir_ok w"
  obtain f v where f: "next_fault w = (f, v)" by (cases "next_fault w")
  then obtain fs where "v = w\<lparr>w_faults := fs\<rparr>" by (auto dest: next_fault_dest)
  then have "dir_ok v" using w by (simp add: dir_ok_def)
  then show "dir_ok (snd (syscall act w))" using act f by (cases f) (auto simp: syscall_def keeps_dir_def)
qed

lemma keeps_open_inode: "keeps_dir (open_inode i)"
  by (rule keeps_dirI) (auto intro!: dir_okI dest: dir_okD simp: less_SucI)

lemma dir_ok_create: "dir_ok w \<Longrightarrow> w_dir w p = None \<Longrightarrow> dir_ok (snd (create_inode p w))"
  by (rule dir_okI) (auto simp: create_inode_def dest: dir_okD split: if_splits)

lemma keeps_open_truncate [keeps]: "keeps_dir (open_truncate p)"
  unfolding open_truncate_def
proof (intro keeps_syscall keeps_dirI)
  fix v assume v: "dir_ok v"
  have t: "dir_ok (v\<lparr>w_data := g\<rparr>)" for g using v by (simp add: dir_ok_def)
  show "dir_ok (snd (let (i, w') = (case w_dir v p of
                       Some i \<Rightarrow> (i, v\<lparr>w_data := (w_data v)(i := [])\<rparr>) | None \<Rightarrow> create_inode p v);
          (h, w'') = open_inode i w' in (Inr h, w'')))"
    using dir_ok_create [OF v, of p] t keeps_open_inode
    by (auto simp: keeps_dir_def case_prod_beta split: option.split)
qed

lemma keeps_open_existing [keeps]: "keeps_dir (open_existing p)"
  unfolding open_existing_def using keeps_open_inode
  by (intro keeps_syscall keeps_dirI) (auto simp: keeps_dir_def case_prod_beta split: option.split)

lemma keeps_rename [keeps]: "keeps_dir (rename_file p q)"
  unfolding rename_file_def
proof (intro keeps_syscall keeps_dirI)
  fix v assume v: "dir_ok v"
  show "dir_ok (snd (case w_dir v p of None \<Rightarrow> (Inl IoOther, v)
      | Some i \<Rightarrow> (Inr (), v\<lparr>w_dir := (w_dir v)(p := None, q \<mapsto> i)\<rparr>)))"
    using v dir_okD [OF v] by (auto split: option.split if_splits intro!: dir_okI)
qed

lemma keeps_write_all [keeps]: "keeps_dir (write_all h bs)"
  by (rule keeps_dirI)
    (auto simp: write_all_def write_bytes_def dir_ok_def split: prod.splits io_fault.splits dest!: next_fault_dest)

lemma keeps_seek_end [keeps]: "keeps_dir (seek_end h)"
  by (rule keeps_dirI) (simp add: seek_end_def dir_ok_def)

lemma keeps_pure [keeps]: "keeps_dir (\<lambda>w. (r, w))"
  by (rule keeps_dirI) simp

lemma keeps_lift [keeps]: "keeps_dir act \<Longrightarrow> keeps_dir (lift_io act)"
  by (auto simp: keeps_dir_def lift_io_def split: prod.splits sum.splits)

lemma keeps_try [keeps]: "keeps_dir act \<Longrightarrow> (\<And>x. keeps_dir (k x)) \<Longrightarrow> keeps_dir (try_do act k)"
  by (auto simp: keeps_dir_def try_do_def split: prod.splits sum.splits)

lemma keeps_write_frame [keeps]: "keeps_dir (write_frame h tag payload)"
  unfolding write_frame_def by (intro keeps)

lemma keeps_write_entries [keeps]: "keeps_dir (write_entries h es)"
  by (induction es) (auto intro!: keeps split: HistoryEntry.split)

lemma keeps_write_compacted [keeps]: "keeps_dir (write_compacted now j temp)"
  unfolding write_compacted_def Let_def by (intro keeps)

lemma dir_ok_compact:
  assumes "compact now j w = (r, j', w')" "dir_ok w"
  shows "dir_ok w'"
proof (cases "length (timeline (jh_inner j)) \<le> jh_max_retained_entries j")
  case False
  let ?temp = "with_extension (jh_path j) compact_ext"
  have "keeps_dir (try_do (write_compacted now j ?temp) (\<lambda>_.
                   try_do (lift_io (rename_file ?temp (jh_path j))) (\<lambda>_.
                   try_do (lift_io (open_existing (jh_path j))) (\<lambda>h.
                   try_do (lift_io (seek_end h)) (\<lambda>_ w. (Inr h, w))))))"
    by (intro keeps)
  then show ?thesis
    using assms False by (auto simp: compact_def Let_def split: prod.splits sum.splits dest: keeps_dirD)
qed (use assms in \<open>simp add: compact_def\<close>)

lemma write_all_cut:
  assumes "lift_io (write_all h bs) w = (r, w')" "at_end h w"
  shows "\<exists>t fs. w' = (appended h t w)\<lparr>w_faults := fs\<rparr> \<and> prefix t bs \<and> (r = Inr () \<longrightarrow> t = bs)"
proof -
  obtain f v where f: "next_fault w = (f, v)" by (cases "next_fault w")
  then obtain fs where v: "v = w\<lparr>w_faults := fs\<rparr>" by (auto dest: next_fault_dest)
  have a: "write_bytes h t v = (appended h t w)\<lparr>w_faults := fs\<rparr>" for t
    using assms(2) by (simp add: v write_bytes_def at_end_def overwrite_def appended_def set_pos_def set_data_def file_data_def)
  show ?thesis
    using assms(1) f a take_is_prefix
    by (cases f) (auto simp: lift_io_def write_all_def)
qed

lemma appended_faults: "appended h t (w\<lparr>w_faults := fs\<rparr>) = (appended h t w)\<lparr>w_faults := fs\<rparr>"
  by (simp add: appended_def set_pos_def set_data_def file_data_def)

lemma at_end_faults [simp]: "at_end h (w\<lparr>w_faults := fs\<rparr>) = at_end h w"
  by (simp add: at_end_def)

lemma write_frame_cut:
  assumes "write_frame h tag payload w = (r, w')" "at_end h w"
  shows "\<exists>t fs. w' = (appended h t w)\<lparr>w_faults := fs\<rparr> \<and> prefix t (frame_bytes tag payload) \<and>
     (r = Inr () \<longrightarrow> t = frame_bytes tag payload)"
proof -
  obtain r1 w1 where one: "lift_io (write_all h (frame_header tag payload)) w = (r1, w1)"
    by (cases "lift_io (write_all h (frame_header tag payload)) w")
  obtain t1 fs1 where t1: "w1 = (appended h t1 w)\<lparr>w_faults := fs1\<rparr>" "prefix t1 (frame_header tag payload)"
    "r1 = Inr () \<longrightarrow> t1 = frame_header tag payload"
    using write_all_cut [OF one assms(2)] by blast
  show ?thesis
  proof (cases r1)
    case (Inl e)
    then show ?thesis
      using assms(1) one t1 by (auto simp: write_frame_def try_do_def frame_bytes_def intro: prefix_prefix)
  next
    case (Inr u)
    then have two: "lift_io (write_all h payload) w1 = (r, w')"
      using assms(1) one by (simp add: write_frame_def try_do_def)
    have "at_end h w1" by (simp add: t1(1))
    then obtain t2 fs2 where t2: "w' = (appended h t2 w1)\<lparr>w_faults := fs2\<rparr>" "prefix t2 payload" "r = Inr () \<longrightarrow> t2 = payload"
      using write_all_cut [OF two] by blast
    have "w' = (appended h (t1 @ t2) w)\<lparr>w_faults := fs2\<rparr>"
      by (simp add: t2(1) t1(1) appended_faults)
    then show ?thesis using t1(3) t2(2,3) Inr by (auto simp: frame_bytes_def)
  qed
qed

text \<open>An interrupted append: the bytes of a prefix of the frame are behind the log.\<close>

lemma torn_append:
  assumes "disk_image bs d" "prefix t (entry_frame e now)"
  shows "\<exists>bs' t' d'. bs @ t = bs' @ t' \<and> disk_image bs' d' \<and> next_record t' = None \<and> d' \<in> {d, d @ [norm_entry e]}"
proof (cases "t = entry_frame e now")
  case True
  have "next_record [] = None" by (simp add: next_record_def)
  then show ?thesis using disk_image_snoc [OF assms(1), of e now] True by (metis append_Nil2 insertCI)
next
  case False
  then have "strict_prefix t (entry_frame e now)" using assms(2) by (simp add: strict_prefix_def)
  then show ?thesis using next_record_torn assms(1) by blast
qed

text \<open>What a crash needs of the world it leaves: the log at the path and perhaps a torn tail.\<close>

definition crashed :: "path \<Rightarrow> HistoryEntry list \<Rightarrow> world \<Rightarrow> bool" where
  "crashed p d w \<longleftrightarrow> dir_ok w \<and>
     (\<exists>i bs t. w_dir w p = Some i \<and> w_data w i = bs @ t \<and> disk_image bs d \<and> next_record t = None)"

lemma rel_crashed: "journal_rel s j w \<Longrightarrow> crashed (jh_path j) (snd s) w"
proof -
  assume rel: "journal_rel s j w"
  have "next_record [] = None" by (simp add: next_record_def)
  then show "crashed (jh_path j) (snd s) w"
    using rel unfolding crashed_def journal_rel_def world_ok_dir_ok file_data_def by (metis append_Nil2)
qed

lemma crash_frame:
  assumes rel: "journal_rel (m, d) j w"
    and run: "write_frame (jh_file j) tag payload (w\<lparr>w_faults := fs\<rparr>) = (r, w')"
    and frame: "entry_frame e now = frame_bytes tag payload"
  shows "\<exists>d' \<in> {d, d @ [norm_entry e]}. crashed (jh_path j) d' w'"
proof -
  let ?h = "jh_file j" and ?i = "of_inode (w_files w (jh_file j))"
  have "at_end ?h (w\<lparr>w_faults := fs\<rparr>)" using rel by (simp add: journal_rel_def)
  then obtain t gs where t: "w' = (appended ?h t w)\<lparr>w_faults := gs\<rparr>" "prefix t (entry_frame e now)"
    using write_frame_cut [OF run] unfolding frame by (auto simp: appended_faults)
  obtain bs t' d' where b: "file_data ?h w @ t = bs @ t'" "disk_image bs d'" "next_record t' = None"
    "d' \<in> {d, d @ [norm_entry e]}"
    using torn_append [OF _ t(2)] rel unfolding journal_rel_def by (metis snd_conv)
  have "dir_ok w'" using rel by (simp add: t(1) journal_rel_def world_ok_dir_ok dir_ok_def)
  moreover have "w_dir w' (jh_path j) = Some ?i" "w_data w' ?i = bs @ t'"
    using rel b(1) by (simp_all add: t(1) journal_rel_def)
  ultimately show ?thesis using b(2-4) unfolding crashed_def by blast
qed

text \<open>An interrupted compaction: the old log or the new one.\<close>

lemma crash_compact:
  assumes rel: "journal_rel (m, d) j w" and run: "compact now j (w\<lparr>w_faults := fs\<rparr>) = (r, j', w')"
  shows "\<exists>d' \<in> {d, snd (spec_op (jh_max_retained_entries j) (OpCompact now) (m, d))}. crashed (jh_path j) d' w'"
proof (cases "length m \<le> jh_max_retained_entries j")
  case True
  then have "w' = w\<lparr>w_faults := fs\<rparr>" using run rel by (simp add: compact_def journal_rel_def)
  then show ?thesis using rel_crashed [OF rel] by (auto simp: crashed_def dir_ok_def)
next
  case False
  let ?w = "w\<lparr>w_faults := fs\<rparr>" and ?i = "of_inode (w_files w (jh_file j))"
  have r: "world_ok w" "proper_path (jh_path j)" "w_dir w (jh_path j) = Some ?i" "jh_inner j = history_of m"
    "disk_image (file_data (jh_file j) w) d"
    using rel by (simp_all add: journal_rel_def)
  have neq: "w_dir ?w (with_extension (jh_path j) compact_ext) \<noteq> Some ?i"
    using world_ok_inj [OF r(1) r(3), of "with_extension (jh_path j) compact_ext"] proper_path_neq(2) [OF r(2)] by force
  have dir: "dir_ok w'" by (rule dir_ok_compact [OF run]) (use r(1) in \<open>simp add: world_ok_dir_ok dir_ok_def\<close>)
  let ?es = "drop (length m - jh_max_retained_entries j) m"
  have c: "contents w' (jh_path j) = Some (w_data ?w ?i) \<or>
      contents w' (jh_path j) = Some (header_bytes now @ concat (map (\<lambda>e. entry_frame e 0) ?es))"
    using compact_any [OF run _ _ neq r(2)] world_ok_dir [OF r(1) r(3)] r(3,4) by simp
  have none: "next_record [] = None" by (simp add: next_record_def)
  have image: "crashed (jh_path j) d' w'" if c: "contents w' (jh_path j) = Some bs" and im: "disk_image bs d'" for bs d'
  proof -
    obtain i where "w_dir w' (jh_path j) = Some i" "w_data w' i = bs @ []"
      using c by (auto simp: contents_def)
    then show ?thesis using dir im none unfolding crashed_def by blast
  qed
  show ?thesis
    using c
  proof
    assume "contents w' (jh_path j) = Some (w_data ?w ?i)"
    then show ?thesis using image [of _ d] r(5) by (simp add: file_data_def)
  next
    assume "contents w' (jh_path j) = Some (header_bytes now @ concat (map (\<lambda>e. entry_frame e 0) ?es))"
    from image [OF this disk_image_entries] show ?thesis using False by simp
  qed
qed

section \<open>An interrupted opening\<close>

text \<open>
  What recovery may change, whatever faults are pending: positions and the data of its own file. A
  read fails with the end of the file only at the end of the file.
\<close>

definition recovery_step :: "nat \<Rightarrow> world \<Rightarrow> world \<Rightarrow> bool" where
  "recovery_step h w w' \<longleftrightarrow>
     w_dir w' = w_dir w \<and> w_next w' = w_next w \<and> (\<forall>g. of_inode (w_files w' g) = of_inode (w_files w g)) \<and>
     (\<forall>k. k \<noteq> of_inode (w_files w h) \<longrightarrow> w_data w' k = w_data w k) \<and> set (w_faults w') \<subseteq> set (w_faults w)"

lemma recovery_step_trans:
  "recovery_step h w w1 \<Longrightarrow> recovery_step h w1 w2 \<Longrightarrow> recovery_step h w w2"
  by (auto simp: recovery_step_def)

definition real_fault :: "io_fault \<Rightarrow> bool" where
  "real_fault f \<longleftrightarrow> (case f of Works \<Rightarrow> True | Fails e n \<Rightarrow> e \<noteq> IoUnexpectedEof)"

lemma next_fault_cases:
  obtains fs where "next_fault w = (Works, w\<lparr>w_faults := fs\<rparr>)" "set fs \<subseteq> set (w_faults w)"
  | e n fs where "next_fault w = (Fails e n, w\<lparr>w_faults := fs\<rparr>)" "set fs \<subseteq> set (w_faults w)" "Fails e n \<in> set (w_faults w)"
proof (cases "w_faults w")
  case Nil
  then have "next_fault w = (Works, w\<lparr>w_faults := []\<rparr>)" by (cases w) (simp add: next_fault_def)
  then show ?thesis using that(1) by simp
next
  case (Cons f fs)
  then show ?thesis using that by (cases f) (auto simp: next_fault_def)
qed

lemma read_exact_any:
  assumes "list_all real_fault (w_faults w)"
  obtains e w' where "read_exact h n w = (Inl e, w')" "e \<noteq> IoUnexpectedEof" "recovery_step h w w'" "file_data h w' = file_data h w"
  | w' where "read_exact h n w = (Inl IoUnexpectedEof, w')" "recovery_step h w w'" "file_data h w' = file_data h w"
      "length (file_data h w) - file_pos h w < n"
  | w' where "read_exact h n w = (Inr (take n (drop (file_pos h w) (file_data h w))), w')" "recovery_step h w w'"
      "file_data h w' = file_data h w" "n \<le> length (file_data h w) - file_pos h w" "file_pos h w' = file_pos h w + n"
proof (cases w rule: next_fault_cases)
  case (1 fs)
  let ?v = "w\<lparr>w_faults := fs\<rparr>"
  have step: "recovery_step h w (set_pos h k ?v)" for k using 1(2) by (auto simp: recovery_step_def)
  show thesis
  proof (cases "n \<le> length (file_data h w) - file_pos h w")
    case True
    then show thesis using 1(1) step by (intro that(3) [of "set_pos h (file_pos h w + n) ?v"]) (simp_all add: read_exact_def syscall_def Let_def)
  next
    case False
    then show thesis using 1(1) step by (intro that(2) [of "set_pos h (length (file_data h w)) ?v"]) (simp_all add: read_exact_def syscall_def Let_def)
  qed
next
  case (2 e m fs)
  then have "e \<noteq> IoUnexpectedEof" using assms by (auto simp: list_all_iff real_fault_def)
  moreover have "recovery_step h w (w\<lparr>w_faults := fs\<rparr>)" using 2(2) by (auto simp: recovery_step_def)
  ultimately show thesis using 2(1) by (intro that(1) [of e "w\<lparr>w_faults := fs\<rparr>"]) (simp_all add: read_exact_def syscall_def)
qed

lemma truncate_any:
  assumes "truncate_to h inner v w = (r, w')" "v \<le> length (file_data h w)"
  shows "recovery_step h w w' \<and> file_data h w' \<in> {file_data h w, take v (file_data h w)}"
  using assms
  by (cases w rule: next_fault_cases)
    (auto simp: truncate_to_def try_do_def lift_io_def set_len_def syscall_def seek_start_def recovery_step_def Let_def)

lemma recover_loop_reads:
  "read_exact h 9 w = (Inl e, v) \<Longrightarrow> recover_loop h inner k w =
     (if e = IoUnexpectedEof then truncate_to h inner k v else (Inl (JIo e), v))"
  "read_exact h 9 w = (Inr meta, v) \<Longrightarrow> read_exact h (unat (from_be_bytes (sub_bytes 1 5 meta) :: u32)) v = (Inl e, u) \<Longrightarrow>
   recover_loop h inner k w = (if e = IoUnexpectedEof then truncate_to h inner k u else (Inl (JIo e), u))"
  "read_exact h 9 w = (Inr meta, v) \<Longrightarrow> read_exact h (unat (from_be_bytes (sub_bytes 1 5 meta) :: u32)) v = (Inr payload, u) \<Longrightarrow>
   recover_loop h inner k w =
     (if crc32 payload \<noteq> from_be_bytes (sub_bytes 5 9 meta) then truncate_to h inner k u
      else (case parse_record (meta ! 0) payload of
              Some entry \<Rightarrow> recover_loop h (history_push inner entry) (file_pos h u) u
            | None \<Rightarrow> truncate_to h inner k u))"
  by (simp_all add: recover_loop.simps [of h inner k w] Let_def)

text \<open>Recovery under any faults cuts nothing but what no record can be read from.\<close>

lemma recover_loop_any:
  assumes "list_all real_fault (w_faults w)" "file_pos h w \<le> length (file_data h w)"
    and "wal.read_all (drop (file_pos h w) (file_data h w)) = (es, t)"
    and "recover_loop h inner (file_pos h w) w = (r, w')"
  shows "recovery_step h w w' \<and>
     file_data h w' \<in> {file_data h w, take (length (file_data h w) - length t) (file_data h w)}"
  using assms
proof (induction "length (file_data h w) - file_pos h w" arbitrary: inner w es rule: less_induct)
  case less
  let ?p = "file_pos h w" and ?d = "file_data h w"
  let ?bs = "drop ?p ?d"
  let ?plen = "unat (from_be_bytes (sub_bytes 1 5 ?bs) :: u32)"
  let ?payload = "take ?plen (drop 9 ?bs)"
  have meta: "sub_bytes 1 5 (take 9 ?bs) = sub_bytes 1 5 ?bs" "sub_bytes 5 9 (take 9 ?bs) = sub_bytes 5 9 ?bs"
    "take 9 ?bs ! 0 = ?bs ! 0"
    by (simp_all add: sub_bytes_take)
  have cut: ?case if "next_record ?bs = None" "recovery_step h w v" "file_data h v = ?d"
    "truncate_to h inner ?p v = (r, w')" for v
  proof -
    have "t = ?bs" using less.prems(3) wal.read_all_None [OF that(1)] by simp
    then have len: "length ?d - length t = ?p" using less.prems(2) by simp
    have "recovery_step h v w'" "file_data h w' \<in> {?d, take ?p ?d}"
      using truncate_any [OF that(4)] that(3) less.prems(2) by simp_all
    then show ?thesis unfolding len using recovery_step_trans [OF that(2)] by blast
  qed
  from less.prems(1) show ?case
  proof (cases rule: read_exact_any [of w h 9])
    case (1 e v)
    then have "w' = v" using less.prems(4) recover_loop_reads(1) [OF 1(1)] by simp
    then show ?thesis using 1 by simp
  next
    case (2 v)
    have "truncate_to h inner ?p v = (r, w')" using less.prems(4) recover_loop_reads(1) [OF 2(1)] by simp
    moreover have "next_record ?bs = None" using 2(4) by (simp add: next_record_def)
    ultimately show ?thesis using cut 2 by blast
  next
    case v: (3 v)
    have fv: "list_all real_fault (w_faults v)" using less.prems(1) v(2) by (auto simp: list_all_iff recovery_step_def)
    have dv: "drop (file_pos h v) (file_data h v) = drop 9 ?bs" using v(3,5) by (simp add: ac_simps)
    note reads = recover_loop_reads(2,3) [OF v(1), unfolded meta]
    from fv show ?thesis
    proof (cases rule: read_exact_any [of v h ?plen])
      case (1 e u)
      then have "w' = u" using less.prems(4) reads(1) [OF 1(1)] by simp
      then show ?thesis using 1(3,4) v(3) recovery_step_trans [OF v(2)] by simp
    next
      case (2 u)
      have "truncate_to h inner ?p u = (r, w')" using less.prems(4) reads(1) [OF 2(1)] by simp
      moreover have "next_record ?bs = None" using 2(4) v(3-5) by (simp add: next_record_def Let_def add.commute)
      moreover have "recovery_step h w u" "file_data h u = ?d" using 2(2,3) v(3) recovery_step_trans [OF v(2)] by simp_all
      ultimately show ?thesis using cut by blast
    next
      case (3 u)
      have step: "recovery_step h w u" "file_data h u = ?d" using 3(2,3) v(3) recovery_step_trans [OF v(2)] by simp_all
      note run = less.prems(4) [unfolded reads(2) [OF 3(1), unfolded dv]]
      have long: "9 \<le> length ?bs" "?plen \<le> length (drop 9 ?bs)" using v(3-5) 3(4) by simp_all
      then have nr: "next_record ?bs = (if crc32 ?payload \<noteq> from_be_bytes (sub_bytes 5 9 ?bs) then None
          else map_option (\<lambda>e. (e, drop ?plen (drop 9 ?bs))) (parse_record (?bs ! 0) ?payload))"
        by (auto simp: next_record_def Let_def split: option.split)
      show ?thesis
      proof (cases "next_record ?bs")
        case None
        then have "truncate_to h inner ?p u = (r, w')"
          using run nr by (auto split: if_splits option.splits)
        then show ?thesis using cut None step by blast
      next
        case (Some er)
        then obtain e where e: "crc32 ?payload = from_be_bytes (sub_bytes 5 9 ?bs)"
          "parse_record (?bs ! 0) ?payload = Some e" "er = (e, drop ?plen (drop 9 ?bs))"
          using nr by (auto split: if_splits)
        obtain es' where es: "wal.read_all (drop ?plen (drop 9 ?bs)) = (es', t)"
          using less.prems(3) wal.read_all_Some [OF Some [unfolded e(3)]]
          by (cases "wal.read_all (drop ?plen (drop 9 ?bs))") auto
        have pos: "file_pos h u = ?p + 9 + ?plen" using 3(5) v(5) by simp
        then have "drop (file_pos h u) (file_data h u) = drop ?plen (drop 9 ?bs)" using step(2) by (simp add: ac_simps)
        moreover have "file_pos h u \<le> length ?d" "length ?d - file_pos h u < length ?d - ?p" using long pos by auto
        moreover have "list_all real_fault (w_faults u)" using fv 3(2) by (auto simp: list_all_iff recovery_step_def)
        moreover have "recover_loop h (history_push inner e) (file_pos h u) u = (r, w')" using run e(1,2) by simp
        ultimately have "recovery_step h u w' \<and> file_data h w' \<in> {?d, take (length ?d - length t) ?d}"
          using less.hyps [of u es' "history_push inner e"] es step(2) by simp
        then show ?thesis using recovery_step_trans [OF step(1)] by blast
      qed
    qed
  qed
qed

text \<open>A file that holds the log \<open>bs\<close> of \<open>d\<close>, with or without the torn tail \<open>t\<close>.\<close>

definition holds_log :: "path \<Rightarrow> bytes \<Rightarrow> bytes \<Rightarrow> world \<Rightarrow> bool" where
  "holds_log p bs t w \<longleftrightarrow> dir_ok w \<and> list_all real_fault (w_faults w) \<and>
     (\<exists>i. w_dir w p = Some i \<and> w_data w i \<in> {bs @ t, bs})"

lemma crashed_iff:
  "crashed p d w \<and> list_all real_fault (w_faults w) \<longleftrightarrow>
     (\<exists>bs t. holds_log p bs t w \<and> disk_image bs d \<and> next_record t = None)"
proof
  assume "\<exists>bs t. holds_log p bs t w \<and> disk_image bs d \<and> next_record t = None"
  then obtain bs t i where w: "dir_ok w" "list_all real_fault (w_faults w)" "w_dir w p = Some i" "w_data w i \<in> {bs @ t, bs}"
    and bs: "disk_image bs d" "next_record t = None"
    by (auto simp: holds_log_def)
  have "next_record [] = None" by (simp add: next_record_def)
  then have "\<exists>t. w_data w i = bs @ t \<and> next_record t = None" using w(4) bs(2) by (metis append_Nil2 empty_iff insertE)
  then show "crashed p d w \<and> list_all real_fault (w_faults w)" using w bs by (auto simp: crashed_def)
qed (auto simp: crashed_def holds_log_def)

lemma holds_step:
  assumes "holds_log p bs t w" "recovery_step h w w'" "w_dir w p = Some (of_inode (w_files w h))"
    and "file_data h w' \<in> {bs @ t, bs}"
  shows "holds_log p bs t w'"
  using assms by (auto simp: holds_log_def recovery_step_def dir_ok_def file_data_def list_all_iff)

lemma holds_fault: "holds_log p bs t w \<Longrightarrow> set fs \<subseteq> set (w_faults w) \<Longrightarrow> holds_log p bs t (w\<lparr>w_faults := fs\<rparr>)"
  by (auto simp: holds_log_def dir_ok_def list_all_iff)

lemma holds_syscall:
  assumes "syscall act w = (r, w')" "holds_log p bs t w"
    and "\<And>v r w'. act v = (r, w') \<Longrightarrow> holds_log p bs t v \<Longrightarrow> holds_log p bs t w'"
  shows "holds_log p bs t w'"
proof (cases w rule: next_fault_cases)
  case (1 fs)
  then show ?thesis using assms(1) assms(3) [OF _ holds_fault [OF assms(2) 1(2)]] by (simp add: syscall_def)
next
  case (2 e n fs)
  then show ?thesis using assms(1) holds_fault [OF assms(2) 2(2)] by (auto simp: syscall_def)
qed

lemma holds_open_inode: "holds_log p bs t w \<Longrightarrow> holds_log p bs t (snd (open_inode i w))"
  using keeps_open_inode [of i] by (auto simp: holds_log_def keeps_dir_def open_inode_def)

lemma holds_create_inode:
  assumes "holds_log p bs t w" "w_dir w q = None"
  shows "holds_log p bs t (snd (create_inode q w))"
proof -
  obtain i where "w_dir w p = Some i" "w_data w i \<in> {bs @ t, bs}" "i < w_next w"
    using assms(1) dir_okD(1) by (auto simp: holds_log_def)
  moreover have "dir_ok (snd (create_inode q w))" using assms dir_ok_create by (simp add: holds_log_def)
  moreover have "p \<noteq> q" using assms(2) calculation(1) by auto
  ultimately show ?thesis
    using assms(1) unfolding holds_log_def by (intro conjI exI [of _ i]) (simp_all add: create_inode_def)
qed

lemma holds_open_create_new:
  "open_create_new q w = (r, w') \<Longrightarrow> holds_log p bs t w \<Longrightarrow> holds_log p bs t w'"
  unfolding open_create_new_def
  by (erule holds_syscall) (auto simp: case_prod_beta Let_def holds_open_inode holds_create_inode split: option.splits)

lemma holds_remove: "remove_file q w = (r, w') \<Longrightarrow> q \<noteq> p \<Longrightarrow> holds_log p bs t w \<Longrightarrow> holds_log p bs t w'"
  unfolding remove_file_def
  by (erule holds_syscall) (auto simp: holds_log_def split: option.splits if_splits intro!: dir_okI dest: dir_okD)

lemma holds_open_create:
  assumes "open_create p w = (r, w')" "holds_log p bs t w"
  shows "holds_log p bs t w' \<and>
    (\<forall>h. r = Inr h \<longrightarrow> w_dir w' p = Some (of_inode (w_files w' h)) \<and> file_pos h w' = 0 \<and> file_data h w' \<in> {bs @ t, bs})"
proof (cases w rule: next_fault_cases)
  case (1 fs)
  let ?v = "w\<lparr>w_faults := fs\<rparr>"
  have v: "holds_log p bs t ?v" by (rule holds_fault [OF assms(2) 1(2)])
  then obtain i where i: "w_dir ?v p = Some i" "w_data ?v i \<in> {bs @ t, bs}" by (auto simp: holds_log_def)
  then have "r = Inr (w_next ?v)" "w' = snd (open_inode i ?v)"
    using assms(1) 1(1) by (auto simp: open_create_def syscall_def case_prod_beta)
  then show ?thesis using i holds_open_inode [OF v, of i] by (auto simp: open_inode_def file_pos_def file_data_def)
next
  case (2 e n fs)
  then show ?thesis using assms(1) holds_fault [OF assms(2) 2(2)] by (auto simp: open_create_def syscall_def)
qed

lemma replay_any:
  assumes run: "replay_journal h w = (r, w')" and f: "list_all real_fault (w_faults w)"
    and data: "file_data h w = header_bytes t0 @ fs" "wal.read_all fs = (es, t)"
  shows "recovery_step h w w' \<and>
     file_data h w' \<in> {header_bytes t0 @ fs, header_bytes t0 @ take (length fs - length t) fs}"
proof -
  let ?w = "set_pos h 0 w"
  have s0: "recovery_step h w ?w" by (simp add: recovery_step_def)
  have run': "try_do (lift_io (read_exact h HEADER_SIZE)) (\<lambda>header w.
       (case check_header header of Some e \<Rightarrow> (Inl e, w) | None \<Rightarrow> recover_loop h history_new HEADER_SIZE w)) ?w = (r, w')"
    using run by (simp add: replay_journal_def try_do_def lift_io_def seek_start_def)
  have "list_all real_fault (w_faults ?w)" using f by simp
  then show ?thesis
  proof (cases rule: read_exact_any [of ?w h HEADER_SIZE])
    case (1 e v)
    then have "w' = v" using run' by (simp add: try_do_def lift_io_def)
    then show ?thesis using 1(3,4) data(1) recovery_step_trans [OF s0] by simp
  next
    case (2 v)
    then show ?thesis using data(1) by (simp add: HEADER_SIZE_def)
  next
    case (3 v)
    have v: "file_pos h v = HEADER_SIZE" "file_data h v = header_bytes t0 @ fs" using 3(3,5) data(1) by simp_all
    have "take HEADER_SIZE (drop (file_pos h ?w) (file_data h ?w)) = header_bytes t0" by (simp add: data(1) HEADER_SIZE_def)
    then have "recover_loop h history_new (file_pos h v) v = (r, w')"
      using run' 3(1) unfolding v(1) by (simp add: try_do_def lift_io_def)
    moreover have "list_all real_fault (w_faults v)" using f 3(2) by (auto simp: list_all_iff recovery_step_def)
    moreover have "wal.read_all (drop (file_pos h v) (file_data h v)) = (es, t)" using data(2) v by (simp add: HEADER_SIZE_def)
    moreover have "length t \<le> length fs" by (rule read_all_tail [OF data(2)])
    ultimately have "recovery_step h v w' \<and>
        file_data h w' \<in> {header_bytes t0 @ fs, take (16 + length fs - length t) (header_bytes t0 @ fs)}"
      using recover_loop_any [of v h es t history_new r w'] v by (simp add: HEADER_SIZE_def)
    moreover have "take (16 + length fs - length t) (header_bytes t0 @ fs) = header_bytes t0 @ take (length fs - length t) fs"
      using \<open>length t \<le> length fs\<close> by simp
    ultimately show ?thesis using recovery_step_trans [OF recovery_step_trans [OF s0 3(2)]] by simp
  qed
qed

lemma file_len_any:
  assumes "file_len h w = (r, w')"
  shows "recovery_step h w w'" "file_data h w' = file_data h w" "r = Inr len \<Longrightarrow> len = length (file_data h w)"
proof -
  obtain fs where fs: "w' = w\<lparr>w_faults := fs\<rparr>" "set fs \<subseteq> set (w_faults w)"
    and r: "r = Inr len \<longrightarrow> len = length (file_data h w)"
  proof (cases w rule: next_fault_cases)
    case (1 fs)
    then show thesis using assms by (intro that [of fs]) (auto simp: file_len_def syscall_def)
  next
    case (2 e n fs)
    then show thesis using assms by (intro that [of fs]) (auto simp: file_len_def syscall_def)
  qed
  show "recovery_step h w w'" "file_data h w' = file_data h w" using fs by (simp_all add: recovery_step_def)
  show "len = length (file_data h w)" if "r = Inr len" using r that by simp
qed

lemma holds_contents:
  assumes run: "open_contents now p w = (r, w')" and w: "holds_log p bs t w"
    and bs: "disk_image bs d" "next_record t = None"
  shows "holds_log p bs t w'"
proof -
  obtain t0 ss where ss: "bs = header_bytes t0 @ concat (map stamped_frame ss)" "map (\<lambda>s. norm_entry (fst s)) ss = d"
    using bs(1) by (auto simp: disk_image_def)
  obtain r1 w1 where o: "open_create p w = (r1, w1)" by (cases "open_create p w")
  note o' = holds_open_create [OF o w]
  show ?thesis
  proof (cases r1)
    case (Inl e)
    then show ?thesis using run o o' by (simp add: open_contents_def try_do_def lift_io_def)
  next
    case (Inr h)
    have h: "w_dir w1 p = Some (of_inode (w_files w1 h))" "file_pos h w1 = 0" "file_data h w1 \<in> {bs @ t, bs}"
      "holds_log p bs t w1"
      using o' Inr by simp_all
    obtain r2 w2 where l: "file_len h w1 = (r2, w2)" by (cases "file_len h w1")
    note w2 = file_len_any [OF l]
    have w2': "holds_log p bs t w2" using holds_step [OF h(4) w2(1) h(1)] h(3) w2(2) by simp
    show ?thesis
    proof (cases r2)
      case (Inl e)
      then show ?thesis using run o l w2' \<open>r1 = Inr h\<close> by (simp add: open_contents_def try_do_def lift_io_def)
    next
      case (Inr len)
      have "header_bytes t0 \<noteq> []" using length_header [of t0] by force
      then have "len \<noteq> 0" using w2(3) [OF Inr] h(3) ss(1) by auto
      obtain r3 w3 where rp: "replay_journal h w2 = (r3, w3)" by (cases "replay_journal h w2")
      have f2: "list_all real_fault (w_faults w2)" using w2' by (simp add: holds_log_def)
      have dir2: "w_dir w2 p = Some (of_inode (w_files w2 h))" using h(1) w2(1) by (simp add: recovery_step_def)
      let ?fs = "concat (map stamped_frame ss)"
      have "wal.read_all (?fs @ t) = (d, t)" "wal.read_all ?fs = (d, [])"
        using wal.read_all_frames [of ss t] wal.read_all_frames [of ss "[]"] wal.read_all_None [OF bs(2)]
          wal.read_all_None [of "[]"] ss(2) by (simp_all add: list_all_iff next_record_def)
      then have w3: "recovery_step h w2 w3 \<and> file_data h w3 \<in> {bs @ t, bs}"
        using replay_any [OF rp f2, of t0 "?fs @ t" d t] replay_any [OF rp f2, of t0 ?fs d "[]"] h(3) w2(2) ss(1) by auto
      then have holds3: "holds_log p bs t w3" using holds_step [OF w2' _ dir2] by blast
      have "w' = w3 \<or> w' = set_pos h (length (file_data h w3)) w3"
        using run o l rp \<open>r1 = Inr h\<close> Inr \<open>len \<noteq> 0\<close>
        by (cases r3) (auto simp: open_contents_def try_do_def lift_io_def seek_end_def)
      then show ?thesis
      proof
        assume "w' = set_pos h (length (file_data h w3)) w3"
        then show ?thesis using holds3 by (auto simp: holds_log_def dir_ok_def)
      qed (use holds3 in simp)
    qed
  qed
qed

text \<open>An opening that fails or dies at any point leaves the log for the next one.\<close>

lemma crash_open:
  assumes c: "crashed p d w" "list_all real_fault (w_faults w)" and p: "proper_path p"
    and run: "open_or_create now p k w = (r, w')"
  shows "crashed p d w' \<and> list_all real_fault (w_faults w')"
proof -
  obtain bs t where w: "holds_log p bs t w" and bs: "disk_image bs d" "next_record t = None"
    using crashed_iff c by blast
  let ?lock = "with_extension p lock_ext"
  obtain r1 w1 where l: "open_create_new ?lock w = (r1, w1)" by (cases "open_create_new ?lock w")
  have w1: "holds_log p bs t w1" by (rule holds_open_create_new [OF l w])
  obtain r2 w2 where o: "open_contents now p w1 = (r2, w2)" by (cases "open_contents now p w1")
  have w2: "holds_log p bs t w2" by (rule holds_contents [OF o w1 bs])
  have "holds_log p bs t (drop_lock ?lock w2)"
    using holds_remove [OF _ _ w2, of ?lock] proper_path_neq(1) [OF p]
    by (cases "remove_file ?lock w2") (simp add: drop_lock_def)
  then have "holds_log p bs t w'"
    using run l o w1 w2 by (cases r1; cases r2) (auto simp: open_or_create_def Let_def)
  then show ?thesis using crashed_iff bs by blast
qed

section \<open>Lives of a journal\<close>

text \<open>
  An event is an operation that runs on a disk without faults, or one during which the process dies:
  the faults cut it anywhere, what is in memory is gone, the operator removes the lock file and the
  journal is opened again; openings may fail or die as well before one succeeds.
\<close>

datatype journal_event = Done journal_op | Crash journal_op "io_fault list" "(io_fault list \<times> u64) list" u64

definition reboot :: "path \<Rightarrow> world \<Rightarrow> world" where
  "reboot lock w = w\<lparr>w_faults := [], w_dir := (w_dir w)(lock := None)\<rparr>"

definition failed_opening :: "JournaledHistory \<Rightarrow> io_fault list \<times> u64 \<Rightarrow> world \<Rightarrow> world" where
  "failed_opening j attempt w =
     snd (open_or_create (snd attempt) (jh_path j) (jh_max_retained_entries j)
       ((reboot (jh_lock j) w)\<lparr>w_faults := fst attempt\<rparr>))"

primrec run_event ::
  "journal_event \<Rightarrow> JournaledHistory \<Rightarrow> world \<Rightarrow> (JournalError + JournaledHistory) \<times> world" where
  "run_event (Done op) j w = run_op op j w"
| "run_event (Crash op faults attempts now) j w =
     open_or_create now (jh_path j) (jh_max_retained_entries j)
       (reboot (jh_lock j) (fold (failed_opening j) attempts (snd (run_op op j (w\<lparr>w_faults := faults\<rparr>)))))"

primrec run_life ::
  "journal_event list \<Rightarrow> JournaledHistory \<Rightarrow> world \<Rightarrow> (JournalError + JournaledHistory) \<times> world" where
  "run_life [] j w = (Inr j, w)"
| "run_life (ev # evs) j w =
     (case run_event ev j w of (Inl e, w') \<Rightarrow> (Inl e, w') | (Inr j', w') \<Rightarrow> run_life evs j' w')"

text \<open>The fault-free runs that explain a life: an interrupted operation was done or was not done.\<close>

primrec explanations :: "journal_event list \<Rightarrow> journal_op list list" where
  "explanations [] = [[]]"
| "explanations (ev # evs) =
     (case ev of
        Done op \<Rightarrow> map (\<lambda>ops. op # ops) (explanations evs)
      | Crash op faults attempts now \<Rightarrow>
          map (\<lambda>ops. OpReopen now # ops) (explanations evs) @ map (\<lambda>ops. op # OpReopen now # ops) (explanations evs))"

text \<open>No fault of a system call poses as the end of the file.\<close>

fun real_event :: "journal_event \<Rightarrow> bool" where
  "real_event (Done op) = True"
| "real_event (Crash op faults attempts now) =
     (list_all real_fault faults \<and> list_all (\<lambda>a. list_all real_fault (fst a)) attempts)"

lemma crashed_reboot:
  assumes "crashed p d w" "lock \<noteq> p"
  shows "crashed p d ((reboot lock w)\<lparr>w_faults := fs\<rparr>)"
  using assms dir_okD [of w] unfolding crashed_def reboot_def by (auto intro!: dir_okI split: if_splits)

lemma crash_op:
  assumes rel: "journal_rel s j w" and faults: "list_all real_fault faults"
  shows "\<exists>d \<in> {snd s, snd (spec_op (jh_max_retained_entries j) op s)}.
     crashed (jh_path j) d (snd (run_op op j (w\<lparr>w_faults := faults\<rparr>)))"
proof -
  obtain m d where s: "s = (m, d)" by (cases s)
  let ?w = "w\<lparr>w_faults := faults\<rparr>"
  note frame = crash_frame [OF rel [unfolded s]]
  show ?thesis
  proof (cases op)
    case (OpAppend t p r)
    obtain x w' where run: "write_frame (jh_file j) TAG_PAIR (pair_payload p r t) ?w = (x, w')"
      by (cases "write_frame (jh_file j) TAG_PAIR (pair_payload p r t) ?w")
    have "snd (run_op op j ?w) = w'" by (cases x) (simp_all add: OpAppend journal_append_def run)
    then show ?thesis using frame [OF run, of "ConfirmedPair p r" t] by (simp add: s OpAppend)
  next
    case (OpRevert t e)
    obtain x w' where run: "write_frame (jh_file j) TAG_REVERT (revert_payload e t) ?w = (x, w')"
      by (cases "write_frame (jh_file j) TAG_REVERT (revert_payload e t) ?w")
    have "snd (run_op op j ?w) = w'" by (cases x) (simp_all add: OpRevert journal_record_revert_def run)
    then show ?thesis using frame [OF run, of "RevertedTx e" t] by (simp add: s OpRevert)
  next
    case (OpCompact t)
    obtain x j' w' where run: "compact t j ?w = (x, j', w')" by (cases "compact t j ?w")
    have "snd (run_op op j ?w) = w'" by (cases x) (simp_all add: OpCompact run)
    then show ?thesis using crash_compact [OF rel [unfolded s] run] by (simp add: s OpCompact)
  next
    case (OpReopen t1)
    have p: "proper_path (jh_path j)" "jh_lock j = with_extension (jh_path j) lock_ext" using rel by (simp_all add: journal_rel_def)
    have "crashed (jh_path j) d ?w" using rel_crashed [OF rel] by (auto simp: s crashed_def dir_ok_def)
    then obtain bs t where h: "holds_log (jh_path j) bs t ?w" "disk_image bs d" "next_record t = None"
      using crashed_iff [of "jh_path j" d ?w] faults by auto
    have "holds_log (jh_path j) bs t (close_journal j ?w)"
      using holds_remove [OF _ _ h(1), of "jh_lock j"] proper_path_neq(1) [OF p(1)] p(2)
      by (cases "remove_file (jh_lock j) ?w") (simp add: close_journal_def drop_lock_def)
    then have "crashed (jh_path j) d (close_journal j ?w) \<and> list_all real_fault (w_faults (close_journal j ?w))"
      using crashed_iff h(2,3) by blast
    then show ?thesis
      using crash_open [OF _ _ p(1), of d "close_journal j ?w" t1 "jh_max_retained_entries j"]
      by (cases "open_or_create t1 (jh_path j) (jh_max_retained_entries j) (close_journal j ?w)") (simp add: s OpReopen)
  qed
qed

lemma crash_attempts:
  assumes "crashed (jh_path j) d w" "proper_path (jh_path j)" "jh_lock j = with_extension (jh_path j) lock_ext"
    and "list_all (\<lambda>a. list_all real_fault (fst a)) attempts"
  shows "crashed (jh_path j) d (fold (failed_opening j) attempts w)"
  using assms(1,4)
proof (induction attempts arbitrary: w)
  case (Cons a attempts)
  let ?w = "(reboot (jh_lock j) w)\<lparr>w_faults := fst a\<rparr>"
  have "crashed (jh_path j) d ?w"
    using crashed_reboot [OF Cons.prems(1)] proper_path_neq(1) [OF assms(2)] assms(3) by simp
  then have "crashed (jh_path j) d (failed_opening j a w)"
    using crash_open [OF _ _ assms(2), of d ?w "snd a" "jh_max_retained_entries j"] Cons.prems(2)
    by (cases "open_or_create (snd a) (jh_path j) (jh_max_retained_entries j) ?w") (simp add: failed_opening_def)
  then show ?case using Cons by simp
qed simp

text \<open>Opening after the crash succeeds, and what it finds is the log of the disk.\<close>

lemma reopen_crashed:
  assumes c: "crashed (jh_path j) d w" and j: "proper_path (jh_path j)" "jh_lock j = with_extension (jh_path j) lock_ext"
  shows "\<exists>j' w'. open_or_create now (jh_path j) k (reboot (jh_lock j) w) = (Inr j', w') \<and> journal_rel (d, d) j' w' \<and>
     jh_max_retained_entries j' = k"
proof -
  obtain i bs t where i: "w_dir w (jh_path j) = Some i" "w_data w i = bs @ t" "disk_image bs d" "next_record t = None"
    and dir: "dir_ok w"
    using c by (auto simp: crashed_def)
  let ?w = "reboot (jh_lock j) w"
  have "dir_ok ?w" using dir dir_okD [OF dir] by (auto simp: reboot_def intro!: dir_okI split: if_splits)
  then have ok: "world_ok ?w" by (simp add: world_ok_dir_ok healthy_world_def reboot_def)
  have "w_dir ?w (jh_path j) = Some i" "w_data ?w i = bs @ t" "w_dir ?w (with_extension (jh_path j) lock_ext) = None"
    using i(1,2) proper_path_neq(1) [OF j(1)] by (simp_all add: reboot_def j(2))
  then show ?thesis using open_recovers [OF ok j(1) _ _ _ i(3,4)] by blast
qed

lemma run_event_explained:
  assumes rel: "journal_rel s j w" and ev: "real_event ev"
  shows "\<exists>ops j' w'. ops \<in> set (explanations [ev]) \<and> run_event ev j w = (Inr j', w') \<and>
     journal_rel (fold (spec_op (jh_max_retained_entries j)) ops s) j' w' \<and>
     jh_max_retained_entries j' = jh_max_retained_entries j"
proof (cases ev)
  case (Done op)
  then show ?thesis using run_op_refines [OF rel, of op] by auto
next
  case (Crash op faults attempts now)
  let ?k = "jh_max_retained_entries j"
  obtain d where d: "d \<in> {snd s, snd (spec_op ?k op s)}" "crashed (jh_path j) d (snd (run_op op j (w\<lparr>w_faults := faults\<rparr>)))"
    using crash_op [OF rel, of faults op] ev Crash by auto
  have j: "proper_path (jh_path j)" "jh_lock j = with_extension (jh_path j) lock_ext" using rel by (simp_all add: journal_rel_def)
  have "list_all (\<lambda>a. list_all real_fault (fst a)) attempts" using ev Crash by simp
  from reopen_crashed [OF crash_attempts [OF d(2) j this] j, of now ?k]
  obtain j' w' where o: "run_event ev j w = (Inr j', w')" "journal_rel (d, d) j' w'" "jh_max_retained_entries j' = ?k"
    by (auto simp: Crash)
  have "\<exists>ops \<in> set (explanations [ev]). fold (spec_op ?k) ops s = (d, d)" using d(1) by (auto simp: Crash)
  then show ?thesis using o by metis
qed

lemma explanations_append:
  "ops \<in> set (explanations [ev]) \<Longrightarrow> ops' \<in> set (explanations evs) \<Longrightarrow> ops @ ops' \<in> set (explanations (ev # evs))"
  by (cases ev) auto

lemma run_life_explained:
  assumes "journal_rel s j w" "list_all real_event evs"
  shows "\<exists>ops j' w'. ops \<in> set (explanations evs) \<and> run_life evs j w = (Inr j', w') \<and>
     journal_rel (fold (spec_op (jh_max_retained_entries j)) ops s) j' w'"
  using assms
proof (induction evs arbitrary: s j w)
  case Nil
  then show ?case by auto
next
  case (Cons ev evs)
  obtain ops j1 w1 where one: "ops \<in> set (explanations [ev])" "run_event ev j w = (Inr j1, w1)"
    "journal_rel (fold (spec_op (jh_max_retained_entries j)) ops s) j1 w1"
    "jh_max_retained_entries j1 = jh_max_retained_entries j"
    using run_event_explained [OF Cons.prems(1)] Cons.prems(2) unfolding list.pred_inject(2) by blast
  obtain ops' j' w' where rest: "ops' \<in> set (explanations evs)" "run_life evs j1 w1 = (Inr j', w')"
    "journal_rel (fold (spec_op (jh_max_retained_entries j)) ops' (fold (spec_op (jh_max_retained_entries j)) ops s)) j' w'"
    using Cons.IH [OF one(3)] Cons.prems(2) unfolding one(4) list.pred_inject(2) by blast
  have "run_life (ev # evs) j w = (Inr j', w')" using one(2) rest(2) by simp
  moreover have "journal_rel (fold (spec_op (jh_max_retained_entries j)) (ops @ ops') s) j' w'" using rest(3) by simp
  ultimately show ?case using explanations_append [OF one(1) rest(1)] by blast
qed

lemma life_explained:
  assumes "world_ok w" "proper_path path" "w_dir w path = None" "w_dir w (with_extension path lock_ext) = None"
    and "list_all real_event evs"
  shows "\<exists>j w1 j' w2 ops. open_or_create now path k w = (Inr j, w1) \<and> run_life evs j w1 = (Inr j', w2) \<and>
     ops \<in> set (explanations evs) \<and> jh_inner j' = history_of (fst (fold (spec_op k) ops ([], [])))"
proof -
  obtain j w1 where j: "open_or_create now path k w = (Inr j, w1)" "journal_rel ([], []) j w1"
    "jh_max_retained_entries j = k"
    using open_new [OF assms(1-4)] by blast
  obtain ops j' w2 where "ops \<in> set (explanations evs)" "run_life evs j w1 = (Inr j', w2)"
    "journal_rel (fold (spec_op k) ops ([], [])) j' w2"
    using run_life_explained [OF j(2) assms(5)] unfolding j(3) by blast
  then show ?thesis using j(1) unfolding journal_rel_def by blast
qed

section \<open>Property\<close>

text \<open>
  C4. Crash consistency: a new journal lives through any sequence of appends, recorded reverts,
  compactions, restarts and crashes, each crash at any system call and after any byte written inside
  an append, revert, compaction or restart, and inside any number of recoveries after it. Opening it
  then succeeds (once the stale lock is removed), and its history is that of a fault-free run in
  which each interrupted operation was done as a whole or not at all; what was acknowledged is never
  lost. A crash here loses the process, not what the operating system has buffered.
\<close>

theorem crashes_are_atomic:
  assumes "world_ok w" "proper_path path" "w_dir w path = None" "w_dir w (with_extension path lock_ext) = None"
    and "list_all real_event evs"
  shows "\<exists>j w1 j' w2 ops. open_or_create now path k w = (Inr j, w1) \<and> run_life evs j w1 = (Inr j', w2) \<and>
     ops \<in> set (explanations evs) \<and> jh_inner j' = history_of (fst (fold (spec_op k) ops ([], [])))"
  by (rule life_explained [OF assms])

theorem crashes_are_atomic_witness:
  "let evs = [Done (OpAppend 2 (PredictedProfit 100) (RealizedProfit 42)),
              Crash (OpAppend 3 (PredictedProfit 7) (RealizedProfit 8)) [Works, Fails IoOther 5] [([Works, Works, Fails IoOther 0], 4)] 5]
   in \<exists>j w1 j' w2 ops. open_or_create 1 some_path 9 blank_disk = (Inr j, w1) \<and> run_life evs j w1 = (Inr j', w2) \<and>
     ops \<in> set (explanations evs) \<and> jh_inner j' = history_of (fst (fold (spec_op 9) ops ([], [])))"
  unfolding Let_def by (rule crashes_are_atomic) (simp_all add: real_fault_def)

end
