(* ===== verification/Restart.thy ===== *)
theory Restart
  imports Journal_Crash Reconcile
begin

text \<open>
  The journal and the policy together: a trader that crashes and recovers its history from the journal
  is halted exactly when a trader that never stopped would be. The format of the journal does not keep
  every revert reason, but no guard reads one.
\<close>

section \<open>What the guards read\<close>

primrec guard_view :: "HistoryEntry \<Rightarrow> HistoryEntry" where
  "guard_view (ConfirmedPair p r) = ConfirmedPair p r"
| "guard_view (RevertedTx e) = RevertedTx (e\<lparr>rv_reason := None\<rparr>)"

lemma guard_view_norm [simp]: "guard_view (norm_entry e) = guard_view e"
  by (cases e) simp_all

lemma guard_view_projections:
  "confirmed_pairs (map guard_view es) = confirmed_pairs es"
  "map is_revert (map guard_view es) = map is_revert es"
  "map_run (revert_gas_cost pf) (revert_events (map guard_view es)) = map_run (revert_gas_cost pf) (revert_events es)"
proof -
  show "confirmed_pairs (map guard_view es) = confirmed_pairs es"
    by (induction es rule: confirmed_pairs.induct) auto
  have "is_revert (guard_view e) = is_revert e" for e by (cases e) auto
  then show "map is_revert (map guard_view es) = map is_revert es" by simp
  show "map_run (revert_gas_cost pf) (revert_events (map guard_view es)) = map_run (revert_gas_cost pf) (revert_events es)"
    by (induction es rule: revert_events.induct) (auto simp: revert_gas_cost_def)
qed

lemma consecutive_reverts_view: "consecutive_reverts (history_of (map guard_view es)) = consecutive_reverts (history_of es)"
  using guard_view_projections(2) [of es] by (intro consecutive_reverts_cong) simp

lemma run_guards_view: "run_guards pf P (history_of (map guard_view es)) = run_guards pf P (history_of es)"
proof -
  have gas: "recent_revert_gas_burned pf (history_of (map guard_view es)) w = recent_revert_gas_burned pf (history_of es) w" for w
    using guard_view_projections(3) [of pf "take w (rev es)"]
    by (simp add: recent_revert_gas_burned_def rev_map take_map)
  have "recent_ratios (history_of (map guard_view es)) n = recent_ratios (history_of es) n" for n
    by (simp add: recent_ratios_def guard_view_projections)
  then show ?thesis
    by (simp add: guard_defs gas consecutive_reverts_view guard_view_projections cong: option.case_cong)
qed

lemma same_view_same_decision:
  "map guard_view es = map guard_view es' \<Longrightarrow>
   policy_evaluate pf P (history_of es) = policy_evaluate pf P (history_of es')"
  unfolding policy_evaluate_def by (metis run_guards_view)

section \<open>What the journal keeps\<close>

primrec op_entries :: "journal_op \<Rightarrow> HistoryEntry list" where
  "op_entries (OpAppend now p r) = [ConfirmedPair p r]"
| "op_entries (OpRevert now e) = [RevertedTx e]"
| "op_entries (OpCompact now) = []"
| "op_entries (OpReopen now) = []"

text \<open>The entries handed to the journal: the history of a process that never stops.\<close>

definition recorded :: "journal_op list \<Rightarrow> HistoryEntry list" where
  "recorded ops = concat (map op_entries ops)"

definition keeps_view :: "HistoryEntry list \<Rightarrow> journal_spec \<Rightarrow> bool" where
  "keeps_view es s \<longleftrightarrow> map guard_view (fst s) = map guard_view es \<and> map guard_view (snd s) = map guard_view es"

lemma spec_op_keeps_view:
  assumes "keeps_view es s" "length es \<le> k"
  shows "keeps_view (es @ op_entries op) (spec_op k op s)"
proof -
  have "length (fst s) = length es" using assms(1) map_eq_imp_length_eq unfolding keeps_view_def by metis
  then show ?thesis using assms by (cases op) (simp_all add: keeps_view_def)
qed

lemma fold_spec_keeps_view:
  assumes "keeps_view es s" "length es + length (recorded ops) \<le> k"
  shows "keeps_view (es @ recorded ops) (fold (spec_op k) ops s)"
  using assms
proof (induction ops arbitrary: es s)
  case (Cons op ops)
  have "keeps_view (es @ op_entries op) (spec_op k op s)" using Cons.prems by (intro spec_op_keeps_view) auto
  from Cons.IH [OF this] Cons.prems(2) show ?case by (simp add: recorded_def)
qed (simp add: recorded_def)

primrec event_op :: "journal_event \<Rightarrow> journal_op" where
  "event_op (Done op) = op"
| "event_op (Crash op faults attempts now) = op"

lemma explanation_entries: "ops \<in> set (explanations evs) \<Longrightarrow> length (recorded ops) \<le> length (recorded (map event_op evs))"
proof (induction evs arbitrary: ops)
  case (Cons ev evs)
  then show ?case by (cases ev) (fastforce simp: recorded_def)+
qed (simp add: recorded_def)

section \<open>Property\<close>

text \<open>
  C5. The kill switch survives crashes: let a trader journal its outcomes through any sequence of
  appends, recorded reverts, compactions, restarts and crashes (each anywhere inside an operation, and
  inside recoveries), as long as no compaction has had to drop entries. Then the policy, asked about
  the recovered history, gives in both build profiles the answer it gives about the history of a
  process that never stopped, each interrupted operation being done as a whole or not at all: a crash
  neither resumes a halted strategy nor halts a healthy one. Every restart after a crash removes the
  lock file the crash has left before it opens the journal, which is done by hand.
\<close>

theorem decision_survives_crashes:
  assumes "world_ok w" "proper_path path" "w_dir w path = None" "w_dir w (with_extension path lock_ext) = None"
    and "list_all real_event evs" "length (recorded (map event_op evs)) \<le> k"
  shows "\<exists>j w1 j' w2 ops. open_or_create now path k w = (Inr j, w1) \<and> run_life evs j w1 = (Inr j', w2) \<and>
     ops \<in> set (explanations evs) \<and>
     policy_evaluate pf P (jh_inner j') = policy_evaluate pf P (history_of (recorded ops))"
proof -
  obtain j w1 j' w2 ops where life: "open_or_create now path k w = (Inr j, w1)" "run_life evs j w1 = (Inr j', w2)"
    "ops \<in> set (explanations evs)" "jh_inner j' = history_of (fst (fold (spec_op k) ops ([], [])))"
    using life_explained [OF assms(1-5)] by blast
  have "length (recorded ops) \<le> k" using explanation_entries [OF life(3)] assms(6) by (rule order.trans)
  then have "keeps_view (recorded ops) (fold (spec_op k) ops ([], []))"
    using fold_spec_keeps_view [of "[]" "([], [])" ops k] by (simp add: keeps_view_def)
  then have "policy_evaluate pf P (jh_inner j') = policy_evaluate pf P (history_of (recorded ops))"
    unfolding life(4) keeps_view_def by (blast intro: same_view_same_decision)
  with life(1-3) show ?thesis by blast
qed

theorem decision_survives_crashes_witness:
  "let evs = [Done (OpAppend 2 (PredictedProfit 100) (RealizedProfit 42)),
              Crash (OpAppend 3 (PredictedProfit 7) (RealizedProfit 8)) [Works, Fails IoOther 5] [([Works, Works, Fails IoOther 0], 4)] 5]
   in \<forall>pf P. \<exists>j w1 j' w2 ops. open_or_create 1 some_path 9 blank_disk = (Inr j, w1) \<and> run_life evs j w1 = (Inr j', w2) \<and>
     ops \<in> set (explanations evs) \<and>
     policy_evaluate pf P (jh_inner j') = policy_evaluate pf P (history_of (recorded ops))"
  unfolding Let_def
  by (intro allI decision_survives_crashes) (simp_all add: real_fault_def recorded_def)

end
