(* ===== verification/Hex.thy ===== *)
theory Hex
  imports Core_Types
begin

text \<open>
  Hexadecimal text as the example reads and writes it (\<^verbatim>\<open>hex_to_bytes\<close>, \<^verbatim>\<open>hex_to_u64\<close>,
  \<^verbatim>\<open>hex_to_u128\<close>, \<^verbatim>\<open>hex_to_u256\<close>, \<^verbatim>\<open>address_hex\<close> and \<^verbatim>\<open>hex::encode\<close> of
  \<^verbatim>\<open>examples/toy-arbitrage/src/rpc.rs\<close>), with the \<^verbatim>\<open>from_str_radix\<close> of the standard library, which
  accepts a leading plus sign, and string slices, which panic inside a character.
\<close>

section \<open>Results that may panic\<close>

text \<open>\<^term>\<open>Some (Inl e)\<close> is an error, \<^term>\<open>None\<close> a panic; \<open>and_then\<close> is the operator \<^verbatim>\<open>?\<close>.\<close>

type_synonym ('e, 'a) res = "('e + 'a) option"

definition and_then :: "('e, 'a) res \<Rightarrow> ('a \<Rightarrow> ('e, 'b) res) \<Rightarrow> ('e, 'b) res" where
  "and_then r k =
     (case r of None \<Rightarrow> None | Some (Inl e) \<Rightarrow> Some (Inl e) | Some (Inr x) \<Rightarrow> k x)"

definition map_err :: "('d \<Rightarrow> 'e) \<Rightarrow> ('d, 'a) res \<Rightarrow> ('e, 'a) res" where
  "map_err f r = map_option (map_sum f id) r"

text \<open>\<^verbatim>\<open>collect\<close> of results: the first error or panic ends it.\<close>

primrec collect_res :: "('a \<Rightarrow> ('e, 'b) res) \<Rightarrow> 'a list \<Rightarrow> ('e, 'b list) res" where
  "collect_res f [] = Some (Inr [])"
| "collect_res f (x # xs) =
     and_then (f x) (\<lambda>y. and_then (collect_res f xs) (\<lambda>ys. Some (Inr (y # ys))))"

lemma and_then_simps [simp]:
  "and_then None k = None" "and_then (Some (Inl e)) k = Some (Inl e)" "and_then (Some (Inr x)) k = k x"
  by (simp_all add: and_then_def)

lemma and_then_Inr:
  "and_then r k = Some (Inr y) \<longleftrightarrow> (\<exists>x. r = Some (Inr x) \<and> k x = Some (Inr y))"
  by (auto simp: and_then_def split: option.splits sum.splits)

lemma and_then_total: "r \<noteq> None \<Longrightarrow> (\<And>x. k x \<noteq> None) \<Longrightarrow> and_then r k \<noteq> None"
  by (auto simp: and_then_def split: option.splits sum.splits)

lemma collect_res_Inr: "(\<And>x. x \<in> set xs \<Longrightarrow> f x = Some (Inr (g x))) \<Longrightarrow> collect_res f xs = Some (Inr (map g xs))"
  by (induction xs) auto

section \<open>Digits\<close>

text \<open>\<^verbatim>\<open>char::to_digit(16)\<close>.\<close>

definition hex_digit :: "u8 \<Rightarrow> nat option" where
  "hex_digit b =
     (let n = unat b
      in if 48 \<le> n \<and> n \<le> 57 then Some (n - 48)
         else if 97 \<le> n \<and> n \<le> 102 then Some (n - 87)
         else if 65 \<le> n \<and> n \<le> 70 then Some (n - 55)
         else None)"

definition digit_char :: "nat \<Rightarrow> u8" where
  "digit_char d = word_of_nat (if d < 10 then 48 + d else 87 + d)"

datatype ParseIntError = EmptyNumber | InvalidDigit | PosOverflow

text \<open>The messages of the standard library.\<close>

primrec parse_int_message :: "ParseIntError \<Rightarrow> bytes" where
  "parse_int_message EmptyNumber = str ''cannot parse integer from empty string''"
| "parse_int_message InvalidDigit = str ''invalid digit found in string''"
| "parse_int_message PosOverflow = str ''number too large to fit in target type''"

fun hex_digits :: "nat \<Rightarrow> nat \<Rightarrow> bytes \<Rightarrow> ParseIntError + nat" where
  "hex_digits bound acc [] = Inr acc"
| "hex_digits bound acc (b # bs) =
     (case hex_digit b of
        None \<Rightarrow> Inl InvalidDigit
      | Some d \<Rightarrow> if bound \<le> acc * 16 + d then Inl PosOverflow else hex_digits bound (acc * 16 + d) bs)"

text \<open>\<^verbatim>\<open>from_str_radix(s, 16)\<close> of an unsigned type: a plus sign is accepted, a lone sign is not.\<close>

definition from_str_radix16 :: "bytes \<Rightarrow> ParseIntError + 'a::len word" where
  "from_str_radix16 s =
     (if s = [] then Inl EmptyNumber
      else if s = str ''+'' \<or> s = str ''-'' then Inl InvalidDigit
      else map_sum id word_of_nat
             (hex_digits (2 ^ LENGTH('a)) 0 (if hd s = 43 then tl s else s)))"

text \<open>\<^verbatim>\<open>strip_prefix("0x").unwrap_or(s)\<close>.\<close>

definition strip_0x :: "bytes \<Rightarrow> bytes" where
  "strip_0x s = (if take 2 s = str ''0x'' then drop 2 s else s)"

text \<open>A slice \<^verbatim>\<open>&s[a..b]\<close> of a string panics out of range and inside a character.\<close>

definition is_char_boundary :: "bytes \<Rightarrow> nat \<Rightarrow> bool" where
  "is_char_boundary s i \<longleftrightarrow> i = length s \<or> i < length s \<and> \<not> is_cont (s ! i)"

definition str_slice :: "bytes \<Rightarrow> nat \<Rightarrow> nat \<Rightarrow> bytes option" where
  "str_slice s a b =
     (if a \<le> b \<and> is_char_boundary s a \<and> is_char_boundary s b then Some (take (b - a) (drop a s)) else panic)"

section \<open>The functions of the client\<close>

datatype transport_cause = HttpCause bytes | JoinFailed

text \<open>\<^verbatim>\<open>RpcError\<close>; the text of an error object is the JSON value it renders, a type parameter here.\<close>

datatype 'v RpcError = Transport transport_cause | Rpc 'v | Malformed bytes

definition parse_hex :: "bytes \<Rightarrow> ('v RpcError, 'a::len word) res" where
  "parse_hex s = Some (map_sum (Malformed \<circ> parse_int_message) id (from_str_radix16 s))"

definition hex_pair :: "bytes \<Rightarrow> nat \<Rightarrow> ('v RpcError, u8) res" where
  "hex_pair s i =
     (case str_slice s i (i + 2) of None \<Rightarrow> panic | Some t \<Rightarrow> parse_hex t)"

definition hex_to_bytes :: "bytes \<Rightarrow> ('v RpcError, bytes) res" where
  "hex_to_bytes s0 =
     (let s1 = strip_0x s0;
          s = if length s1 mod 2 = 1 then str ''0'' @ s1 else s1
      in collect_res (hex_pair s) (map (\<lambda>k. 2 * k) [0..<(length s + 1) div 2]))"

definition hex_to_u128 :: "bytes \<Rightarrow> ('v RpcError, u128) res" where
  "hex_to_u128 s = parse_hex (strip_0x s)"

text \<open>\<^verbatim>\<open>U256::from_str_radix\<close> is the \<^verbatim>\<open>ruint\<close> crate's, a parameter.\<close>

type_synonym u256_parser = "bytes \<Rightarrow> bytes + 256 word"

definition hex_to_u256 :: "u256_parser \<Rightarrow> bytes \<Rightarrow> ('v RpcError, 256 word) res" where
  "hex_to_u256 u256_from_str_radix s0 =
     (let s = strip_0x s0
      in if s = [] then Some (Inr 0)
         else Some (map_sum Malformed id (u256_from_str_radix s)))"

definition hex_to_u64 :: "bytes \<Rightarrow> ('v RpcError, u64) res" where
  "hex_to_u64 s = parse_hex (strip_0x s)"

definition hex_byte :: "u8 \<Rightarrow> bytes" where
  "hex_byte b = [digit_char (unat b div 16), digit_char (unat b mod 16)]"

definition hex_encode :: "bytes \<Rightarrow> bytes" where
  "hex_encode bs = foldl (\<lambda>out b. out @ hex_byte b) [] bs"

definition address_hex :: "address20 \<Rightarrow> bytes" where
  "address_hex addr = str ''0x'' @ hex_encode (to_be_bytes addr)"

text \<open>\<^verbatim>\<open>{:x}\<close> of an integer.\<close>

fun hex_of_nat :: "nat \<Rightarrow> bytes" where
  "hex_of_nat n = (if n < 16 then [digit_char n] else hex_of_nat (n div 16) @ [digit_char (n mod 16)])"

declare hex_of_nat.simps [simp del]

section \<open>What is written reads back\<close>

lemma hex_digit_char [simp]: "d < 16 \<Longrightarrow> hex_digit (digit_char d) = Some d"
  by (auto simp: hex_digit_def digit_char_def Let_def unat_of_nat)

lemma digit_char_not_sign: "d < 16 \<Longrightarrow> digit_char d \<noteq> 43"
proof
  assume "d < 16" "digit_char d = 43"
  then have "hex_digit 43 = Some d" using hex_digit_char [of d] by simp
  then show False by (simp add: hex_digit_def Let_def)
qed

lemma hex_digits_append:
  "hex_digits bound acc (xs @ ys) =
     (case hex_digits bound acc xs of Inl e \<Rightarrow> Inl e | Inr acc' \<Rightarrow> hex_digits bound acc' ys)"
  by (induction xs arbitrary: acc) (auto split: option.split)

lemma hex_digits_of_nat: "n < bound \<Longrightarrow> hex_digits bound 0 (hex_of_nat n) = Inr n"
proof (induction n rule: hex_of_nat.induct)
  case (1 n)
  show ?case
  proof (cases "n < 16")
    case True
    then show ?thesis using 1 by (subst hex_of_nat.simps) simp
  next
    case False
    then have "hex_digits bound 0 (hex_of_nat (n div 16)) = Inr (n div 16)" using 1 by simp
    then show ?thesis using False "1.prems" by (subst hex_of_nat.simps) (simp add: hex_digits_append)
  qed
qed

lemma hex_of_nat_Cons: "\<exists>d r. hex_of_nat n = digit_char d # r \<and> d < 16"
proof (induction n rule: hex_of_nat.induct)
  case (1 n)
  show ?case
  proof (cases "n < 16")
    case True
    then show ?thesis by (subst hex_of_nat.simps) auto
  next
    case False
    with 1 obtain d r where "hex_of_nat (n div 16) = digit_char d # r" "d < 16" by blast
    then show ?thesis using False by (subst hex_of_nat.simps) auto
  qed
qed

lemma from_str_radix16_digits:
  assumes "s \<noteq> []" "d < 16" "hd s = digit_char d"
  shows "(from_str_radix16 s :: ParseIntError + 'a::len word)
       = map_sum id word_of_nat (hex_digits (2 ^ LENGTH('a)) 0 s)"
proof -
  have "hd s \<noteq> 43" "hd s \<noteq> 45"
    using digit_char_not_sign [OF assms(2)] hex_digit_char [OF assms(2)] assms(3)
    by (auto simp: hex_digit_def Let_def)
  then show ?thesis using assms(1) by (cases s) (auto simp: from_str_radix16_def str_def)
qed

lemma from_str_radix16_of_nat:
  assumes "n < 2 ^ LENGTH('a::len)"
  shows "from_str_radix16 (hex_of_nat n) = Inr (word_of_nat n :: 'a word)"
proof -
  obtain d r where h: "hex_of_nat n = digit_char d # r" "d < 16" using hex_of_nat_Cons by blast
  show ?thesis
    using from_str_radix16_digits [of "hex_of_nat n" d, where 'a = 'a] hex_digits_of_nat [OF assms] h by simp
qed

lemma parse_hex_of_nat:
  "n < 2 ^ LENGTH('a::len) \<Longrightarrow> parse_hex (hex_of_nat n) = Some (Inr (word_of_nat n :: 'a word))"
  by (simp add: parse_hex_def from_str_radix16_of_nat)

lemma from_str_radix16_byte: "from_str_radix16 (hex_byte b) = Inr (b :: u8)"
proof -
  have b: "unat b < 256" using unsigned_less [of b, where 'a = nat] by simp
  have "hex_digits (2 ^ LENGTH(8)) 0 (hex_byte b) = Inr (unat b)"
    using b by (simp add: hex_byte_def)
  then show ?thesis
    using b from_str_radix16_digits [of "hex_byte b" "unat b div 16", where 'a = 8]
    by (simp add: hex_byte_def)
qed

lemma parse_hex_byte: "parse_hex (hex_byte b) = Some (Inr (b :: u8))"
  by (simp add: parse_hex_def from_str_radix16_byte)

lemma strip_0x_prefix [simp]: "strip_0x (str ''0x'' @ s) = s"
  by (simp add: strip_0x_def str_def)

lemma hex_encode_eq: "hex_encode bs = concat (map hex_byte bs)"
proof -
  have "foldl (\<lambda>out b. out @ hex_byte b) acc bs = acc @ concat (map hex_byte bs)" for acc
    by (induction bs arbitrary: acc) auto
  then show ?thesis by (simp add: hex_encode_def)
qed

lemma length_hex_byte [simp]: "length (hex_byte b) = 2"
  by (simp add: hex_byte_def)

lemma length_hex_encode: "length (hex_encode bs) = 2 * length bs"
  by (simp add: hex_encode_eq length_concat comp_def sum_list_triv)

lemma hex_encode_slice:
  "k < length bs \<Longrightarrow> take 2 (drop (2 * k) (hex_encode bs)) = hex_byte (bs ! k)"
  unfolding hex_encode_eq
proof (induction bs arbitrary: k)
  case (Cons b bs)
  then show ?case by (cases k) (auto simp: hex_byte_def)
qed simp

lemma digit_char_not_cont: "d < 16 \<Longrightarrow> \<not> is_cont (digit_char d)"
  by (auto simp: is_cont_def digit_char_def word_le_nat_alt unat_of_nat)

lemma hex_encode_ascii: "b \<in> set (hex_encode bs) \<Longrightarrow> \<not> is_cont b"
proof -
  have "unat c div 16 < 16" for c :: u8 using unsigned_less [of c, where 'a = nat] by simp
  then show "b \<in> set (hex_encode bs) \<Longrightarrow> \<not> is_cont b"
    by (auto simp: hex_encode_eq hex_byte_def digit_char_not_cont)
qed

lemma str_slice_encode:
  assumes "k < length bs"
  shows "str_slice (hex_encode bs) (2 * k) (2 * k + 2) = Some (hex_byte (bs ! k))"
proof -
  have b: "is_char_boundary (hex_encode bs) i" if "i \<le> 2 * length bs" for i
    using that hex_encode_ascii [of "hex_encode bs ! i" bs]
    by (auto simp: is_char_boundary_def length_hex_encode)
  show ?thesis
    using assms b [of "2 * k"] b [of "2 * k + 2"] hex_encode_slice [OF assms] by (simp add: str_slice_def)
qed

lemma hex_pair_encode: "k < length bs \<Longrightarrow> hex_pair (hex_encode bs) (2 * k) = Some (Inr (bs ! k))"
  using str_slice_encode by (simp add: hex_pair_def parse_hex_byte)

lemma hex_to_bytes_encode: "hex_to_bytes (str ''0x'' @ hex_encode bs) = Some (Inr bs)"
proof -
  have "collect_res (hex_pair (hex_encode bs)) (map (\<lambda>k. 2 * k) [0..<length bs])
      = Some (Inr (map (\<lambda>i. bs ! (i div 2)) (map (\<lambda>k. 2 * k) [0..<length bs])))"
    by (rule collect_res_Inr) (auto simp: hex_pair_encode)
  then show ?thesis by (simp add: hex_to_bytes_def Let_def length_hex_encode comp_def map_nth)
qed

section \<open>Properties\<close>

text \<open>
  What the client writes it reads: bytes, hashes and addresses written with \<^verbatim>\<open>hex::encode\<close> after
  the prefix 0x, and numbers written with \<^verbatim>\<open>{:x}\<close>, are read back exactly.
\<close>

theorem hex_round_trip:
  "hex_to_bytes (str ''0x'' @ hex_encode bs) = Some (Inr bs) \<and>
   hex_to_bytes (address_hex addr) = Some (Inr (to_be_bytes addr)) \<and>
   hex_to_u64 (str ''0x'' @ hex_of_nat (unat number)) = Some (Inr number) \<and>
   hex_to_u128 (str ''0x'' @ hex_of_nat (unat amount)) = Some (Inr amount)"
  using unsigned_less [of number, where 'a = nat] unsigned_less [of amount, where 'a = nat]
  by (simp add: hex_to_bytes_encode address_hex_def hex_to_u64_def hex_to_u128_def parse_hex_of_nat)

end
