(* ===== verification/Rlp.thy ===== *)
theory Rlp
  imports DB_Prelude
begin

text \<open>
  The RLP encoder of the example (\<^verbatim>\<open>examples/toy-arbitrage/src/rlp.rs\<close>), and a strict decoder
  written from the definition of the format, against which the encoder is proved: every encoding is
  canonical and decodes to the item it came from.
\<close>

section \<open>The encoder\<close>

datatype Item = Bytes bytes | List "Item list"

text \<open>\<^verbatim>\<open>position\<close> of the first byte that is not zero, and the slice from there.\<close>

definition leading_zero_trim :: "bytes \<Rightarrow> bytes" where
  "leading_zero_trim bs =
     (case find (\<lambda>i. bs ! i \<noteq> 0) [0..<length bs] of
        Some i \<Rightarrow> drop i bs
      | None \<Rightarrow> [])"

definition big_uint_bytes :: "bytes \<Rightarrow> Item" where
  "big_uint_bytes bs = Bytes (leading_zero_trim bs)"

definition item_uint :: "u128 \<Rightarrow> Item" where
  "item_uint v = big_uint_bytes (to_be_bytes v)"

definition item_address :: "160 word \<Rightarrow> Item" where
  "item_address addr = Bytes (to_be_bytes addr)"

text \<open>
  The \<^verbatim>\<open>u8\<close> additions cannot overflow: the offsets are 0x80 and 0xc0, a short length is below 56
  and the big-endian bytes of a \<^verbatim>\<open>usize\<close> are at most eight.
\<close>

definition encode_length_header :: "nat \<Rightarrow> u8 \<Rightarrow> bytes" where
  "encode_length_header len offset =
     (if len < 56 then [offset + word_of_nat len]
      else let len_bytes = leading_zero_trim (be_of_nat 8 len)
           in (offset + 55 + word_of_nat (length len_bytes)) # len_bytes)"

definition encode_bytes :: "bytes \<Rightarrow> bytes" where
  "encode_bytes bs =
     (if length bs = 1 \<and> bs ! 0 < 0x80 then bs else encode_length_header (length bs) 0x80 @ bs)"

definition encode_list_header :: "nat \<Rightarrow> bytes" where
  "encode_list_header len = encode_length_header len 0xc0"

fun encode :: "Item \<Rightarrow> bytes" where
  "encode (Bytes bs) = encode_bytes bs"
| "encode (List items) =
     (let payload = concat (map encode items) in encode_list_header (length payload) @ payload)"

section \<open>The format\<close>

text \<open>
  A strict reading of RLP: a first byte, a length, a payload. A length is minimal; a single byte
  below 0x80 stands for itself and for nothing else. The fuel bounds the nesting; twice the number
  of bytes is always enough.
\<close>

definition decode_length :: "u8 \<Rightarrow> bytes \<Rightarrow> (nat \<times> bytes) option" where
  "decode_length offset bs =
     (case bs of
        [] \<Rightarrow> None
      | b # r \<Rightarrow>
          let k = unat b - unat offset
          in if k < 56 then Some (k, r)
             else let n = k - 55; len = nat_of_be (take n r)
                  in if n \<le> length r \<and> hd r \<noteq> 0 \<and> 56 \<le> len then Some (len, drop n r) else None)"

definition decode_payload :: "u8 \<Rightarrow> bytes \<Rightarrow> (bytes \<times> bytes) option" where
  "decode_payload offset bs =
     do { (len, r) \<leftarrow> decode_length offset bs;
          if len \<le> length r then Some (take len r, drop len r) else None }"

fun decode_item :: "nat \<Rightarrow> bytes \<Rightarrow> (Item \<times> bytes) option"
and decode_items :: "nat \<Rightarrow> bytes \<Rightarrow> Item list option" where
  "decode_item 0 bs = None"
| "decode_item (Suc n) [] = None"
| "decode_item (Suc n) (b # bs) =
     (if b < 0x80 then Some (Bytes [b], bs)
      else if b < 0xc0 then
        do { (p, r) \<leftarrow> decode_payload 0x80 (b # bs);
             if length p = 1 \<and> hd p < 0x80 then None else Some (Bytes p, r) }
      else
        do { (p, r) \<leftarrow> decode_payload 0xc0 (b # bs); items \<leftarrow> decode_items n p; Some (List items, r) })"
| "decode_items 0 bs = None"
| "decode_items (Suc n) bs =
     (if bs = [] then Some []
      else do { (i, r) \<leftarrow> decode_item n bs; is \<leftarrow> decode_items n r; Some (i # is) })"

definition rlp_decode :: "bytes \<Rightarrow> Item option" where
  "rlp_decode bs =
     (case decode_item (2 * length bs) bs of Some (i, []) \<Rightarrow> Some i | _ \<Rightarrow> None)"

section \<open>Trimming\<close>

lemma find_upt_Suc:
  "find P [0..<Suc n] = (if P 0 then Some 0 else map_option Suc (find (\<lambda>i. P (Suc i)) [0..<n]))"
proof -
  have "[0..<Suc n] = 0 # map Suc [0..<n]" by (simp add: upt_conv_Cons map_Suc_upt del: upt_Suc)
  then have "find P [0..<Suc n] = (if P 0 then Some 0 else find P (map Suc [0..<n]))" by simp
  moreover have "find P (map Suc xs) = map_option Suc (find (\<lambda>i. P (Suc i)) xs)" for xs
    by (induction xs) auto
  ultimately show ?thesis by simp
qed

lemma leading_zero_trim_eq: "leading_zero_trim bs = dropWhile (\<lambda>b. b = 0) bs"
proof (induction bs)
  case (Cons b bs)
  have "leading_zero_trim (b # bs) = (if b = 0 then leading_zero_trim bs else b # bs)"
    unfolding leading_zero_trim_def
    by (simp only: length_Cons find_upt_Suc) (auto split: option.split)
  then show ?case using Cons by simp
qed (simp add: leading_zero_trim_def)

lemma nat_of_be_dropWhile: "nat_of_be (dropWhile (\<lambda>b. b = 0) bs) = nat_of_be bs"
  by (induction bs) (auto simp: nat_of_be_Cons)

lemma nat_of_be_trim [simp]: "nat_of_be (leading_zero_trim bs) = nat_of_be bs"
  by (simp add: leading_zero_trim_eq nat_of_be_dropWhile)

lemma length_trim: "length (leading_zero_trim bs) \<le> length bs"
  by (simp add: leading_zero_trim_eq length_dropWhile_le)

lemma hd_trim: "leading_zero_trim bs \<noteq> [] \<Longrightarrow> hd (leading_zero_trim bs) \<noteq> 0"
  unfolding leading_zero_trim_eq using hd_dropWhile [of "\<lambda>b. b = 0" bs] by auto

section \<open>Every encoding decodes\<close>

lemma unat_offset_add:
  assumes "offset = 0x80 \<or> offset = (0xc0 :: u8)" "k \<le> 63"
  shows "unat (offset + word_of_nat k) = unat offset + k"
proof -
  have "offset + word_of_nat k = word_of_nat (unat offset + k)" by simp
  also have "unat \<dots> = (unat offset + k) mod 256" by (simp only: unat_of_nat) simp
  finally show ?thesis using assms by auto
qed

lemma encode_length_form:
  assumes "len < 2 ^ 64" "offset = 0x80 \<or> offset = (0xc0 :: u8)"
  obtains (short) "len < 56" "encode_length_header len offset = [offset + word_of_nat len]"
      "unat (offset + word_of_nat len) = unat offset + len"
  | (long) b t where "56 \<le> len" "encode_length_header len offset = b # t"
      "unat b = unat offset + 55 + length t" "0 < length t" "length t \<le> 8" "hd t \<noteq> 0" "nat_of_be t = len"
proof (cases "len < 56")
  case True
  then show thesis using assms(2) unat_offset_add [of offset len] by (intro short) (auto simp: encode_length_header_def)
next
  case False
  let ?t = "leading_zero_trim (be_of_nat 8 len)"
  have n: "nat_of_be ?t = len" using assms(1) by (simp add: nat_of_be_of_nat)
  have ne: "?t \<noteq> []"
  proof
    assume "?t = []"
    then have "len = 0" using n by (simp only: nat_of_be_Nil)
    with False show False by simp
  qed
  have l: "length ?t \<le> 8" using length_trim [of "be_of_nat 8 len"] by simp
  have "unat (offset + word_of_nat (55 + length ?t)) = unat offset + (55 + length ?t)"
    using assms(2) l by (intro unat_offset_add) auto
  then show thesis
    using False ne l n hd_trim [OF ne]
    by (intro long [of "offset + 55 + word_of_nat (length ?t)" ?t]) (auto simp: encode_length_header_def Let_def add.assoc)
qed

lemma decode_encode_length:
  assumes "len < 2 ^ 64" "offset = 0x80 \<or> offset = (0xc0 :: u8)"
  shows "decode_length offset (encode_length_header len offset @ r) = Some (len, r)"
  using assms
proof (cases rule: encode_length_form)
  case (long b t)
  then show ?thesis by (cases t) (auto simp: decode_length_def)
qed (simp add: decode_length_def)

lemma encode_length_hd:
  assumes "len < 2 ^ 64" "offset = 0x80 \<or> offset = (0xc0 :: u8)"
  obtains b t where "encode_length_header len offset = b # t" "unat offset \<le> unat b" "unat b \<le> unat offset + 63"
  using assms by (cases rule: encode_length_form) auto

lemma length_encode_length_header: "length (encode_length_header len offset) \<le> 9"
  using length_trim [of "be_of_nat 8 len"] by (simp add: encode_length_header_def Let_def)

lemma length_encode_bytes: "length (encode_bytes bs) \<le> length bs + 9"
  using length_encode_length_header [of "length bs" "0x80"] by (simp add: encode_bytes_def)

lemma length_encode_list: "length (encode (List items)) \<le> (\<Sum>i\<leftarrow>items. length (encode i)) + 9"
  using length_encode_length_header [of "length (concat (map encode items))" "0xc0"]
  by (simp add: encode_list_header_def length_concat comp_def)

lemma decode_encode_payload:
  assumes "length p < 2 ^ 64" "offset = 0x80 \<or> offset = (0xc0 :: u8)"
  shows "decode_payload offset (encode_length_header (length p) offset @ p @ r) = Some (p, r)"
  using assms by (simp add: decode_payload_def decode_encode_length)

lemma decode_encode_bytes:
  assumes "length bs < 2 ^ 64"
  shows "decode_item (Suc n) (encode_bytes bs @ r) = Some (Bytes bs, r)"
proof (cases "length bs = 1 \<and> bs ! 0 < 0x80")
  case True
  then obtain b where "bs = [b]" "b < 0x80" by (cases bs) auto
  then show ?thesis by (simp add: encode_bytes_def)
next
  case False
  obtain b t where h: "encode_length_header (length bs) 0x80 = b # t" "128 \<le> unat b" "unat b \<le> 191"
    by (rule encode_length_hd [OF assms, where offset = "0x80"]) auto
  have b: "\<not> b < 0x80" "b < 0xc0" using h(2,3) by (simp_all add: word_less_nat_alt)
  have "decode_payload 0x80 (b # t @ bs @ r) = Some (bs, r)"
    using decode_encode_payload [OF assms, of "0x80" r] h(1) by simp
  moreover have "\<not> (length bs = 1 \<and> hd bs < 0x80)" using False by (cases bs) auto
  ultimately show ?thesis using b h(1) False by (auto simp: encode_bytes_def)
qed

lemma encode_bytes_nonempty: "encode_bytes bs \<noteq> []"
  by (auto simp: encode_bytes_def encode_length_header_def Let_def)

lemma encode_nonempty: "encode i \<noteq> []"
  by (cases i) (auto simp: encode_bytes_nonempty encode_list_header_def encode_length_header_def Let_def)

text \<open>Both decoders read back what the encoder wrote, with any fuel of twice its length.\<close>

lemma decode_encode_item:
  "length (encode i) < 2 ^ 64 \<Longrightarrow> 2 * length (encode i) \<le> n \<Longrightarrow> decode_item n (encode i @ r) = Some (i, r)"
proof (induction i arbitrary: n r)
  case (Bytes bs)
  have "length bs \<le> length (encode_bytes bs)" by (simp add: encode_bytes_def)
  moreover have "0 < n" using Bytes encode_bytes_nonempty [of bs] by (cases n) auto
  ultimately show ?case using Bytes decode_encode_bytes [of bs "n - 1" r] by simp
next
  case (List items)
  have items: "decode_items m (concat (map encode is)) = Some is"
    if "set is \<subseteq> set items" "length (concat (map encode is)) < 2 ^ 64" "2 * length (concat (map encode is)) < m" for "is" m
    using that
  proof (induction "is" arbitrary: m)
    case Nil
    then show ?case by (cases m) auto
  next
    case (Cons i "is")
    obtain k where m: "m = Suc k" using Cons.prems(3) by (cases m) auto
    have "0 < length (encode i)" using encode_nonempty by simp
    moreover have "length (concat (map encode (i # is))) = length (encode i) + length (concat (map encode is))"
      by simp
    ultimately have "2 * length (concat (map encode is)) < k" "2 * length (encode i) \<le> k"
      using Cons.prems(3) m by linarith+
    then have "decode_item k (encode i @ concat (map encode is)) = Some (i, concat (map encode is))"
      "decode_items k (concat (map encode is)) = Some is"
      using Cons.prems m by (auto intro!: List.IH Cons.IH)
    then show ?case using m encode_nonempty [of i] by simp
  qed
  let ?p = "concat (map encode items)"
  have enc: "encode (List items) = encode_length_header (length ?p) 0xc0 @ ?p"
    by (simp add: encode_list_header_def Let_def)
  have lp: "length ?p < 2 ^ 64" using List.prems(1) by (simp add: enc del: encode.simps)
  obtain b t where h: "encode_length_header (length ?p) 0xc0 = b # t" "192 \<le> unat b"
    by (rule encode_length_hd [OF lp, where offset = "0xc0"]) auto
  have b: "\<not> b < 0x80" "\<not> b < 0xc0" using h(2) by (simp_all add: word_less_nat_alt)
  obtain k where n: "n = Suc k" "2 * length ?p < k"
    using List.prems(2) h(1) by (cases n) (auto simp: enc simp del: encode.simps)
  have "decode_payload 0xc0 (b # t @ ?p @ r) = Some (?p, r)"
    using decode_encode_payload [OF lp, of "0xc0" r] h(1) by simp
  then show ?case
    using b h(1) n items [of items k] lp by (auto simp: enc simp del: encode.simps)
qed

lemma rlp_decode_encode: "length (encode i) < 2 ^ 64 \<Longrightarrow> rlp_decode (encode i) = Some i"
  using decode_encode_item [of i "2 * length (encode i)" "[]"] by (simp add: rlp_decode_def)

section \<open>Properties\<close>

text \<open>
  C30. The encoder is correct: the strict decoder reads every encoding back as the item it was made
  from and accepts it as canonical. The bound holds of everything in a 64-bit address space.
\<close>

theorem rlp_round_trip:
  assumes "length (encode i) < 2 ^ 64"
  shows "rlp_decode (encode i) = Some i"
  using assms by (rule rlp_decode_encode)

theorem rlp_round_trip_witness:
  "rlp_decode (encode (List [Bytes [0x83], List [], Bytes (replicate 60 7)]))
     = Some (List [Bytes [0x83], List [], Bytes (replicate 60 7)])"
proof (rule rlp_round_trip)
  let ?p = "encode (Bytes [0x83]) @ encode (List []) @ encode (Bytes (replicate 60 7))"
  have "length ?p \<le> 100"
    using length_encode_length_header [of 1 "0x80"] length_encode_length_header [of 0 "0xc0"]
      length_encode_length_header [of 60 "0x80"]
    by (simp add: encode_bytes_def encode_list_header_def)
  then show "length (encode (List [Bytes [0x83], List [], Bytes (replicate 60 7)])) < 2 ^ 64"
    using length_encode_length_header [of "length ?p" "0xc0"]
    by (simp add: encode_list_header_def del: encode.simps(1))
qed

text \<open>
  Integers are canonical: the bytes of \<^verbatim>\<open>Item::uint\<close> and of a trimmed signature component are the
  shortest big-endian form of the number, without a leading zero byte, and zero is the empty string.
\<close>

theorem integers_are_minimal:
  "\<exists>bs. big_uint_bytes raw = Bytes bs \<and> nat_of_be bs = nat_of_be raw \<and> (bs = [] \<or> hd bs \<noteq> 0)
     \<and> (\<forall>cs. nat_of_be cs = nat_of_be raw \<longrightarrow> length bs \<le> length cs)"
proof -
  let ?t = "leading_zero_trim raw"
  have "length ?t \<le> length cs" if eq: "nat_of_be cs = nat_of_be raw" for cs
  proof (cases ?t)
    case (Cons b t)
    have "1 \<le> unat b" using hd_trim [of raw] Cons by (simp add: unat_gt_0 Suc_le_eq)
    then have "256 ^ length t \<le> unat b * 256 ^ length t" by simp
    also have "\<dots> \<le> nat_of_be ?t" unfolding Cons nat_of_be_Cons by simp
    also have "\<dots> = nat_of_be cs" using eq by (simp only: nat_of_be_trim)
    also have "\<dots> < 256 ^ length cs" by (rule nat_of_be_less)
    finally have "length t < length cs" by (rule power_less_imp_less_exp [rotated]) simp
    then show ?thesis unfolding Cons by simp
  qed simp
  then show ?thesis using hd_trim [of raw] by (intro exI [of _ ?t]) (auto simp: big_uint_bytes_def)
qed

end
