(* ===== verification/Poller.thy ===== *)
theory Poller
  imports Core_Types
begin

text \<open>
  The crate \<^verbatim>\<open>driftbrake-receipt-poller\<close> (\<^verbatim>\<open>receipt-poller/src/lib.rs\<close>, \<^verbatim>\<open>source.rs\<close>): the
  configuration, and the loop that polls a receipt source until a transaction is settled or the
  deadline passes. The receipt source and the decoder are the trait objects of the code, hence
  functions; the tokio clock and its \<^verbatim>\<open>sleep\<close> are parameters that act on the same world. The
  contracts of the traits are locales; the theories of the implementations interpret them.
\<close>

section \<open>Configuration\<close>

record PollerConfig =
  pc_block_time_ms :: u64
  pc_poll_interval_fraction :: f64
  pc_confirmation_timeout_blocks :: u64

definition poller_config_new :: "u64 \<Rightarrow> f64 \<Rightarrow> u64 \<Rightarrow> PollerConfig option" where
  "poller_config_new block_time_ms poll_interval_fraction confirmation_timeout_blocks =
     do { _ \<leftarrow> assert_that (0 < block_time_ms);
          _ \<leftarrow> assert_that (f64_lt (f64_of_int 0) poll_interval_fraction
                            \<and> f64_le poll_interval_fraction (f64_of_int 1));
          _ \<leftarrow> assert_that (0 < confirmation_timeout_blocks);
          Some \<lparr>pc_block_time_ms = block_time_ms,
                pc_poll_interval_fraction = poll_interval_fraction,
                pc_confirmation_timeout_blocks = confirmation_timeout_blocks\<rparr> }"

definition poll_interval :: "PollerConfig \<Rightarrow> duration" where
  "poll_interval c =
     duration_from_millis
       (f64_as_u64 (f64_mul (f64_of_int (uint (pc_block_time_ms c))) (pc_poll_interval_fraction c)))"

definition poller_timeout :: "profile \<Rightarrow> PollerConfig \<Rightarrow> duration option" where
  "poller_timeout pf c =
     map_option duration_from_millis (u_mul pf (pc_block_time_ms c) (pc_confirmation_timeout_blocks c))"

section \<open>Polling\<close>

datatype PollOutcome =
    Realized RealizedProfit
  | Reverted RevertEvent
  | DecodeFailed DecodeError
  | TimedOut

datatype 'e PollError = SourceError 'e

text \<open>A lookup acts on the world and may fail.\<close>

type_synonym ('e, 'w) lookup = "hash32 \<Rightarrow> 'w \<Rightarrow> ('e + (TxReceipt \<times> Log list) option) \<times> 'w"

record ('e, 'w, 'd) ReceiptPoller =
  poller_source :: "('e, 'w) lookup"
  poller_decoder :: "'d realized_decoder"
  poller_config :: PollerConfig

definition receipt_poller_new ::
  "('e, 'w) lookup \<Rightarrow> 'd realized_decoder \<Rightarrow> PollerConfig \<Rightarrow> ('e, 'w, 'd) ReceiptPoller" where
  "receipt_poller_new src decoder config =
     \<lparr>poller_source = src, poller_decoder = decoder, poller_config = config\<rparr>"

text \<open>What polling changes: the caller's history, the decoder's state and the world.\<close>

record ('d, 'w) poll_state =
  ps_history :: ReconcileHistory
  ps_decoder :: 'd
  ps_world :: 'w

text \<open>The arm of the loop for a receipt that has arrived.\<close>

definition revert_event_of :: "hash32 \<Rightarrow> TxReceipt \<Rightarrow> RevertEvent" where
  "revert_event_of tx_hash receipt =
     \<lparr>rv_tx_hash = tx_hash, rv_block_number = rc_block_number receipt, rv_reason = None,
      rv_gas_used = rc_gas_used receipt, rv_effective_gas_price = rc_effective_gas_price receipt\<rparr>"

definition settle ::
  "'d realized_decoder \<Rightarrow> hash32 \<Rightarrow> PredictedProfit \<Rightarrow> TxReceipt \<Rightarrow> Log list
   \<Rightarrow> ('d, 'w) poll_state \<Rightarrow> (PollOutcome \<times> ('d, 'w) poll_state) option" where
  "settle decode tx_hash predicted receipt logs s =
     (case rc_status receipt of
        TxReverted \<Rightarrow>
          let event = revert_event_of tx_hash receipt
          in Some (Reverted event, s\<lparr>ps_history := history_record_revert (ps_history s) event\<rparr>)
      | TxConfirmed \<Rightarrow>
          do { (res, d) \<leftarrow> decode receipt logs (ps_decoder s);
               Some (case res of
                       Inr realized \<Rightarrow>
                         (Realized realized,
                          s\<lparr>ps_history := history_append (ps_history s) predicted realized,
                            ps_decoder := d\<rparr>)
                     | Inl decode_err \<Rightarrow> (DecodeFailed decode_err, s\<lparr>ps_decoder := d\<rparr>)) })"

text \<open>
  The loop. \<^term>\<open>None\<close> is a panic of the decoder, or a loop that never ends.
\<close>

partial_function (option) poll_loop ::
  "('e, 'w, 'd) ReceiptPoller \<Rightarrow> ('w \<Rightarrow> nat) \<Rightarrow> (duration \<Rightarrow> 'w \<Rightarrow> 'w) \<Rightarrow> nat \<Rightarrow> hash32 \<Rightarrow> PredictedProfit
   \<Rightarrow> ('d, 'w) poll_state \<Rightarrow> (('e PollError + PollOutcome) \<times> ('d, 'w) poll_state) option" where
  "poll_loop p now sleep deadline tx_hash predicted s =
     (case poller_source p tx_hash (ps_world s) of
        (Inl e, w) \<Rightarrow> Some (Inl (SourceError e), s\<lparr>ps_world := w\<rparr>)
      | (Inr (Some (receipt, logs)), w) \<Rightarrow>
          do { (out, s') \<leftarrow> settle (poller_decoder p) tx_hash predicted receipt logs (s\<lparr>ps_world := w\<rparr>);
               Some (Inr out, s') }
      | (Inr None, w) \<Rightarrow>
          if deadline \<le> now w then Some (Inr TimedOut, s\<lparr>ps_world := w\<rparr>)
          else poll_loop p now sleep deadline tx_hash predicted
                 (s\<lparr>ps_world := sleep (poll_interval (poller_config p)) w\<rparr>))"

definition poll_until_settled ::
  "profile \<Rightarrow> ('e, 'w, 'd) ReceiptPoller \<Rightarrow> ('w \<Rightarrow> nat) \<Rightarrow> (duration \<Rightarrow> 'w \<Rightarrow> 'w) \<Rightarrow> hash32 \<Rightarrow> PredictedProfit
   \<Rightarrow> ('d, 'w) poll_state \<Rightarrow> (('e PollError + PollOutcome) \<times> ('d, 'w) poll_state) option" where
  "poll_until_settled pf p now sleep tx_hash predicted s =
     do { timeout \<leftarrow> poller_timeout pf (poller_config p);
          poll_loop p now sleep (now (ps_world s) + timeout) tx_hash predicted s }"

section \<open>What the loop computes\<close>

text \<open>
  The world before the \<open>k\<close>-th lookup, had all before it been pending, the answer of that lookup,
  and the result the loop returns with for an answer that is not pending.
\<close>

primrec poll_world ::
  "('e, 'w, 'd) ReceiptPoller \<Rightarrow> (duration \<Rightarrow> 'w \<Rightarrow> 'w) \<Rightarrow> hash32 \<Rightarrow> 'w \<Rightarrow> nat \<Rightarrow> 'w" where
  "poll_world p sleep tx_hash w 0 = w"
| "poll_world p sleep tx_hash w (Suc k) =
     sleep (poll_interval (poller_config p)) (snd (poller_source p tx_hash (poll_world p sleep tx_hash w k)))"

definition poll_reply ::
  "('e, 'w, 'd) ReceiptPoller \<Rightarrow> (duration \<Rightarrow> 'w \<Rightarrow> 'w) \<Rightarrow> hash32 \<Rightarrow> 'w \<Rightarrow> nat
   \<Rightarrow> ('e + (TxReceipt \<times> Log list) option) \<times> 'w" where
  "poll_reply p sleep tx_hash w k = poller_source p tx_hash (poll_world p sleep tx_hash w k)"

definition poll_pending ::
  "('w \<Rightarrow> nat) \<Rightarrow> nat \<Rightarrow> ('e + (TxReceipt \<times> Log list) option) \<times> 'w \<Rightarrow> bool" where
  "poll_pending now deadline reply \<longleftrightarrow> fst reply = Inr None \<and> now (snd reply) < deadline"

definition poll_answer ::
  "'d realized_decoder \<Rightarrow> hash32 \<Rightarrow> PredictedProfit \<Rightarrow> ('d, 'w) poll_state
   \<Rightarrow> ('e + (TxReceipt \<times> Log list) option) \<times> 'w
   \<Rightarrow> (('e PollError + PollOutcome) \<times> ('d, 'w) poll_state) option" where
  "poll_answer decode tx_hash predicted s reply =
     (case fst reply of
        Inl e \<Rightarrow> Some (Inl (SourceError e), s\<lparr>ps_world := snd reply\<rparr>)
      | Inr None \<Rightarrow> Some (Inr TimedOut, s\<lparr>ps_world := snd reply\<rparr>)
      | Inr (Some rl) \<Rightarrow>
          map_option (map_prod Inr id)
            (settle decode tx_hash predicted (fst rl) (snd rl) (s\<lparr>ps_world := snd reply\<rparr>)))"

lemma settle_eq:
  "settle decode tx pr receipt logs s =
     (case rc_status receipt of
        TxReverted \<Rightarrow>
          Some (Reverted (revert_event_of tx receipt),
                s\<lparr>ps_history := history_record_revert (ps_history s) (revert_event_of tx receipt)\<rparr>)
      | TxConfirmed \<Rightarrow>
          (case decode receipt logs (ps_decoder s) of
             None \<Rightarrow> None
           | Some (Inl e, d) \<Rightarrow> Some (DecodeFailed e, s\<lparr>ps_decoder := d\<rparr>)
           | Some (Inr r, d) \<Rightarrow>
               Some (Realized r, s\<lparr>ps_history := history_append (ps_history s) pr r, ps_decoder := d\<rparr>)))"
  by (auto simp: settle_def Let_def split: TxStatus.split option.split prod.split sum.split)

lemma poll_world_shift:
  "poll_world p sleep tx (sleep (poll_interval (poller_config p)) (snd (poller_source p tx w))) k
     = poll_world p sleep tx w (Suc k)"
  by (induction k) auto

lemma poll_reply_shift:
  "poll_reply p sleep tx (sleep (poll_interval (poller_config p)) (snd (poller_source p tx w))) k
     = poll_reply p sleep tx w (Suc k)"
  unfolding poll_reply_def poll_world_shift ..

lemma poll_loop_step:
  "poll_loop p now sleep deadline tx pr s =
     (let reply = poller_source p tx (ps_world s)
      in if poll_pending now deadline reply
         then poll_loop p now sleep deadline tx pr
                (s\<lparr>ps_world := sleep (poll_interval (poller_config p)) (snd reply)\<rparr>)
         else poll_answer (poller_decoder p) tx pr s reply)"
  by (subst poll_loop.simps)
    (auto simp: poll_pending_def poll_answer_def Let_def split_beta not_less map_option_case
      split: prod.splits sum.splits option.splits Option.bind_splits)

lemma poll_answer_world [simp]:
  "poll_answer d tx pr (s\<lparr>ps_world := w\<rparr>) reply = poll_answer d tx pr s reply"
  by (cases s) (simp add: poll_answer_def split: sum.split option.split)

lemma poll_loop_at:
  assumes "\<forall>j < k. poll_pending now deadline (poll_reply p sleep tx (ps_world s) j)"
    and "\<not> poll_pending now deadline (poll_reply p sleep tx (ps_world s) k)"
  shows "poll_loop p now sleep deadline tx pr s
       = poll_answer (poller_decoder p) tx pr s (poll_reply p sleep tx (ps_world s) k)"
  using assms
proof (induction k arbitrary: s)
  case 0
  then show ?case by (subst poll_loop_step) (simp add: poll_reply_def Let_def)
next
  case (Suc k)
  let ?r = "poller_source p tx (ps_world s)"
  let ?s = "s\<lparr>ps_world := sleep (poll_interval (poller_config p)) (snd ?r)\<rparr>"
  have "poll_pending now deadline ?r" using Suc.prems(1) by (auto simp: poll_reply_def dest: spec [of _ 0])
  then have "poll_loop p now sleep deadline tx pr s = poll_loop p now sleep deadline tx pr ?s"
    by (subst poll_loop_step) (simp add: Let_def)
  also have "\<dots> = poll_answer (poller_decoder p) tx pr ?s (poll_reply p sleep tx (ps_world ?s) k)"
    using Suc.prems by (intro Suc.IH) (auto simp: poll_reply_shift)
  finally show ?case by (simp add: poll_reply_shift)
qed

text \<open>Whatever it returns, it returns at the first lookup that is not pending.\<close>

lemma poll_loop_Some:
  assumes "poll_loop p now sleep deadline tx pr s = Some res"
  shows "\<exists>k. (\<forall>j < k. poll_pending now deadline (poll_reply p sleep tx (ps_world s) j))
       \<and> \<not> poll_pending now deadline (poll_reply p sleep tx (ps_world s) k)"
proof (rule poll_loop.raw_induct [where P = "\<lambda>p now sleep deadline tx pr s res. \<exists>k.
     (\<forall>j < k. poll_pending now deadline (poll_reply p sleep tx (ps_world s) j))
     \<and> \<not> poll_pending now deadline (poll_reply p sleep tx (ps_world s) k)", OF _ assms], goal_cases)
  case (1 f p now sleep deadline tx pr s res)
  let ?r = "poller_source p tx (ps_world s)"
  let ?s = "s\<lparr>ps_world := sleep (poll_interval (poller_config p)) (snd ?r)\<rparr>"
  show ?case
  proof (cases "poll_pending now deadline ?r")
    case False
    then show ?thesis by (intro exI [of _ 0]) (simp add: poll_reply_def)
  next
    case True
    then have "f p now sleep deadline tx pr ?s = Some res"
      using 1(2) by (auto simp: poll_pending_def split: prod.splits)
    from 1(1) [OF this] obtain k where
      "\<forall>j < k. poll_pending now deadline (poll_reply p sleep tx (ps_world s) (Suc j))"
      "\<not> poll_pending now deadline (poll_reply p sleep tx (ps_world s) (Suc k))"
      by (auto simp: poll_reply_shift)
    with True show ?thesis
      by (intro exI [of _ "Suc k"]) (simp add: All_less_Suc2 poll_reply_def)
  qed
qed

text \<open>The loop is the answer of the first lookup that is not pending, and nothing if there is none.\<close>

lemma poll_loop_iff:
  "poll_loop p now sleep deadline tx pr s = Some res \<longleftrightarrow>
     (\<exists>k. (\<forall>j < k. poll_pending now deadline (poll_reply p sleep tx (ps_world s) j))
        \<and> \<not> poll_pending now deadline (poll_reply p sleep tx (ps_world s) k)
        \<and> poll_answer (poller_decoder p) tx pr s (poll_reply p sleep tx (ps_world s) k) = Some res)"
proof
  assume r: "poll_loop p now sleep deadline tx pr s = Some res"
  then obtain k where "\<forall>j < k. poll_pending now deadline (poll_reply p sleep tx (ps_world s) j)"
    "\<not> poll_pending now deadline (poll_reply p sleep tx (ps_world s) k)"
    using poll_loop_Some by blast
  with poll_loop_at [OF this] r show "\<exists>k. (\<forall>j < k. poll_pending now deadline (poll_reply p sleep tx (ps_world s) j))
      \<and> \<not> poll_pending now deadline (poll_reply p sleep tx (ps_world s) k)
      \<and> poll_answer (poller_decoder p) tx pr s (poll_reply p sleep tx (ps_world s) k) = Some res"
    by (intro exI [of _ k]) simp
qed (auto simp: poll_loop_at)

section \<open>The contract of a receipt source\<close>

text \<open>
  The clock never runs backwards, and \<^verbatim>\<open>tokio::time::sleep\<close> returns no earlier than asked. From
  these alone the loop ends: every pending lookup puts the clock one interval further.
\<close>

locale receipt_source =
  fixes now :: "'w \<Rightarrow> nat"
    and sleep :: "duration \<Rightarrow> 'w \<Rightarrow> 'w"
    and get_receipt :: "('e, 'w) lookup"
  assumes lookup_forward: "now w \<le> now (snd (get_receipt tx w))"
    and sleep_at_least: "now w + d \<le> now (sleep d w)"
begin

lemma clock_after_polls:
  assumes "poller_source p = get_receipt"
  shows "now w + k * poll_interval (poller_config p) \<le> now (poll_world p sleep tx w k)"
proof (induction k)
  case (Suc k)
  let ?w = "poll_world p sleep tx w k" and ?i = "poll_interval (poller_config p)"
  have "now w + Suc k * ?i \<le> now ?w + ?i" using Suc by simp
  also have "\<dots> \<le> now (snd (get_receipt tx ?w)) + ?i" using lookup_forward by simp
  also have "\<dots> \<le> now (sleep ?i (snd (get_receipt tx ?w)))" by (rule sleep_at_least)
  finally show ?case using assms by simp
qed simp

lemma first_settled:
  assumes src: "poller_source p = get_receipt" and i: "0 < poll_interval (poller_config p)"
  obtains k where
    "k * poll_interval (poller_config p) < t + poll_interval (poller_config p)"
    "\<forall>j < k. poll_pending now (now w + t) (poll_reply p sleep tx w j)"
    "\<not> poll_pending now (now w + t) (poll_reply p sleep tx w k)"
proof -
  let ?i = "poll_interval (poller_config p)" and ?P = "\<lambda>k. poll_pending now (now w + t) (poll_reply p sleep tx w k)"
  have late: "k * ?i < t" if "?P k" for k
  proof -
    have "now w + k * ?i \<le> now (snd (poll_reply p sleep tx w k))"
      using clock_after_polls [OF src, of w k tx] lookup_forward [of "poll_world p sleep tx w k" tx] src
      by (simp add: poll_reply_def)
    with that show ?thesis by (simp add: poll_pending_def)
  qed
  have "t \<le> t * ?i" using i by simp
  then have "\<not> ?P t" using late [of t] by linarith
  then have ex: "\<exists>k. \<not> ?P k" ..
  define k where "k = (LEAST k. \<not> ?P k)"
  have k: "\<not> ?P k" unfolding k_def using ex by (rule LeastI_ex)
  have least: "\<forall>j < k. ?P j" unfolding k_def using not_less_Least by blast
  have bound: "k * ?i < t + ?i"
  proof (cases k)
    case (Suc m)
    then show ?thesis using least late [of m] by simp
  qed (use i in simp)
  from bound least k show thesis by (rule that)
qed

text \<open>
  With a positive interval, polling answers what the first lookup that is not pending is answered with,
  after at most one lookup more than intervals in the timeout: the loop ends, and its only panic is
  that of the decoder on that lookup.
\<close>

lemma poll_result:
  assumes src: "poller_source p = get_receipt" and i: "0 < poll_interval (poller_config p)"
    and t: "poller_timeout pf (poller_config p) = Some t"
  obtains k where
    "k * poll_interval (poller_config p) < t + poll_interval (poller_config p)"
    "poll_until_settled pf p now sleep tx pr s
       = poll_answer (poller_decoder p) tx pr s (poll_reply p sleep tx (ps_world s) k)"
proof -
  obtain k where bound: "k * poll_interval (poller_config p) < t + poll_interval (poller_config p)"
    and k: "\<forall>j < k. poll_pending now (now (ps_world s) + t) (poll_reply p sleep tx (ps_world s) j)"
      "\<not> poll_pending now (now (ps_world s) + t) (poll_reply p sleep tx (ps_world s) k)"
    using first_settled [OF src i] by blast
  have "poll_until_settled pf p now sleep tx pr s
      = poll_answer (poller_decoder p) tx pr s (poll_reply p sleep tx (ps_world s) k)"
    by (simp add: poll_until_settled_def t poll_loop_at [OF k])
  with bound show thesis by (rule that)
qed

end

section \<open>What enters the history\<close>

lemma poll_answer_panic:
  assumes "poll_answer decode tx pr s reply = None"
  obtains receipt logs where "fst reply = Inr (Some (receipt, logs))" "rc_status receipt = TxConfirmed"
    "decode receipt logs (ps_decoder s) = None"
  using assms
  by (auto simp: poll_answer_def settle_eq split: sum.splits option.splits TxStatus.splits)

lemma poll_answer_cases:
  assumes "poll_answer decode tx pr s reply = Some (res, s')"
  obtains
    (err) e where "fst reply = Inl e" "res = Inl (SourceError e)" "ps_history s' = ps_history s"
  | (timeout) "fst reply = Inr None" "res = Inr TimedOut" "ps_history s' = ps_history s"
  | (reverted) receipt logs where "fst reply = Inr (Some (receipt, logs))" "rc_status receipt = TxReverted"
      "res = Inr (Reverted (revert_event_of tx receipt))"
      "ps_history s' = history_record_revert (ps_history s) (revert_event_of tx receipt)"
  | (undecoded) receipt logs e d where "fst reply = Inr (Some (receipt, logs))" "rc_status receipt = TxConfirmed"
      "decode receipt logs (ps_decoder s) = Some (Inl e, d)"
      "res = Inr (DecodeFailed e)" "ps_history s' = ps_history s"
  | (realized) receipt logs r d where "fst reply = Inr (Some (receipt, logs))" "rc_status receipt = TxConfirmed"
      "decode receipt logs (ps_decoder s) = Some (Inr r, d)"
      "res = Inr (Realized r)" "ps_history s' = history_append (ps_history s) pr r"
  using assms
  by (cases reply) (auto simp: poll_answer_def settle_eq split: sum.splits option.splits TxStatus.splits)

lemma poll_until_settled_answer:
  assumes "poll_until_settled pf p now sleep tx pr s = Some (res, s')"
  obtains w where "poll_answer (poller_decoder p) tx pr s (poller_source p tx w) = Some (res, s')"
  using assms by (auto simp: poll_until_settled_def bind_eq_Some_conv poll_loop_iff poll_reply_def)

text \<open>
  C8. Receipt-gated realization: whatever the source, the decoder and the clock do, a pair enters
  the history only for a confirmed receipt that the decoder decoded, a revert only for a reverted
  receipt, at most one entry per poll, and every other outcome leaves the history as it was.
\<close>

theorem settlement_is_gated:
  "case poll_until_settled pf p now sleep tx predicted s of
     None \<Rightarrow> True
   | Some (Inr (Realized r), s') \<Rightarrow>
       (\<exists>w receipt logs d. fst (poller_source p tx w) = Inr (Some (receipt, logs))
          \<and> rc_status receipt = TxConfirmed
          \<and> poller_decoder p receipt logs (ps_decoder s) = Some (Inr r, d))
       \<and> ps_history s' = history_append (ps_history s) predicted r
   | Some (Inr (Reverted e), s') \<Rightarrow>
       (\<exists>w receipt logs. fst (poller_source p tx w) = Inr (Some (receipt, logs))
          \<and> rc_status receipt = TxReverted \<and> e = revert_event_of tx receipt)
       \<and> ps_history s' = history_record_revert (ps_history s) e
   | Some (_, s') \<Rightarrow> ps_history s' = ps_history s"
proof (cases "poll_until_settled pf p now sleep tx predicted s")
  case (Some rs)
  obtain res s' where rs: "rs = (res, s')" by (cases rs)
  obtain w where "poll_answer (poller_decoder p) tx predicted s (poller_source p tx w) = Some (res, s')"
    using Some unfolding rs by (rule poll_until_settled_answer)
  then show ?thesis unfolding Some rs by (cases rule: poll_answer_cases) auto
qed simp

section \<open>The configuration\<close>

lemma poller_config_half: "0 < b \<Longrightarrow> 0 < n \<Longrightarrow> \<exists>c. poller_config_new b (f64_of_rat (1 / 2)) n = Some c"
  using f64_of_int_exact [of 0] f64_of_int_exact [of 1] by (simp add: poller_config_new_def literal_half)

text \<open>
  The configuration of the example polls twice per block: for a block time of \<open>b\<close> ms the
  interval is \<open>b div 2\<close> ms exactly, and with it a positive multiple of a millisecond unless the
  block time is one millisecond, where the loop would poll without a pause.
\<close>

theorem half_block_interval:
  assumes "poller_config_new b (f64_of_rat (1 / 2)) n = Some c" and "unat b \<le> 2 ^ 53"
  shows "poll_interval c = (unat b div 2) * 1000000"
  using assms by (auto simp: poller_config_new_def bind_eq_Some_conv poll_interval_def half_millis)

theorem half_block_interval_witness:
  "(\<exists>c. poller_config_new 12000 (f64_of_rat (1 / 2)) 10 = Some c \<and> poll_interval c = 6000 * 1000000) \<and>
   (\<exists>c. poller_config_new 1 (f64_of_rat (1 / 2)) 10 = Some c \<and> poll_interval c = 0)"
proof -
  obtain c where c: "poller_config_new 12000 (f64_of_rat (1 / 2)) 10 = Some c"
    using poller_config_half [of 12000 10] by auto
  obtain d where d: "poller_config_new 1 (f64_of_rat (1 / 2)) 10 = Some d"
    using poller_config_half [of 1 10] by auto
  show ?thesis using c d half_block_interval [OF c] half_block_interval [OF d] by auto
qed

end
