(* ===== verification/Backend.thy ===== *)
theory Backend
  imports Core_Types
begin

text \<open>
  The crate \<^verbatim>\<open>driftbrake-revm-backend\<close> (\<^verbatim>\<open>revm-backend/src/backend.rs\<close>, \<^verbatim>\<open>tx.rs\<close>): what a simulation
  hands to the EVM, what it makes of the EVM's result, its errors and its timeout, and the
  semaphore that bounds the simulations in flight. The EVM itself and the database factory are
  parameters; the types of REVM appear with the fields the code fills or reads.
\<close>

section \<open>Data\<close>

record CandidateTx =
  ct_caller :: address20
  ct_to :: address20
  ct_value :: u128
  ct_data :: bytes
  ct_gas_limit :: u64

record BlockContext =
  bc_number :: u64
  bc_timestamp :: u64
  bc_gas_limit :: u64
  bc_basefee :: u128
  bc_coinbase :: address20

text \<open>The environments of REVM; a \<^verbatim>\<open>U256\<close> is a word of 256 bits.\<close>

type_synonym U256 = "256 word"

record BlockEnv =
  be_number :: U256
  be_coinbase :: address20
  be_timestamp :: U256
  be_gas_limit :: U256
  be_basefee :: U256
  be_difficulty :: U256
  be_prevrandao :: "hash32 option"
  be_blob_excess_gas_and_price :: "U256 option"

datatype TransactTo = Call address20

record TxEnv =
  te_caller :: address20
  te_gas_limit :: u64
  te_gas_price :: U256
  te_transact_to :: TransactTo
  te_value :: U256
  te_data :: bytes
  te_nonce :: "u64 option"
  te_chain_id :: "u64 option"
  te_access_list :: "(address20 \<times> U256 list) list"
  te_gas_priority_fee :: "U256 option"
  te_blob_hashes :: "hash32 list"
  te_max_fee_per_blob_gas :: "U256 option"

record EvmLog =
  el_address :: address20
  el_topics :: "hash32 list"
  el_data :: bytes

text \<open>
  The result of a transaction; the reason of a halt is given by its \<^verbatim>\<open>Debug\<close> rendering.
\<close>

datatype ExecutionResult =
    ExecSuccess u64 "EvmLog list" bytes
  | ExecRevert u64 bytes
  | ExecHalt bytes u64

record RevmBackend =
  rb_block :: BlockContext
  rb_block_time_ms :: u64
  rb_timeout_fraction :: f64
  rb_concurrency :: nat

definition revm_backend_new :: "BlockContext \<Rightarrow> u64 \<Rightarrow> f64 \<Rightarrow> nat \<Rightarrow> RevmBackend option" where
  "revm_backend_new block block_time_ms timeout_fraction concurrency_limit =
     do { _ \<leftarrow> assert_that (f64_lt (f64_of_int 0) timeout_fraction \<and> f64_le timeout_fraction (f64_of_int 1));
          _ \<leftarrow> assert_that (0 < concurrency_limit);
          Some \<lparr>rb_block = block, rb_block_time_ms = block_time_ms,
                rb_timeout_fraction = timeout_fraction, rb_concurrency = concurrency_limit\<rparr> }"

section \<open>One simulation\<close>

definition simulation_timeout :: "RevmBackend \<Rightarrow> duration" where
  "simulation_timeout b =
     duration_from_millis
       (f64_as_u64 (f64_mul (f64_of_int (uint (rb_block_time_ms b))) (rb_timeout_fraction b)))"

definition block_env :: "RevmBackend \<Rightarrow> BlockEnv" where
  "block_env b =
     \<lparr>be_number = ucast (bc_number (rb_block b)),
      be_coinbase = bc_coinbase (rb_block b),
      be_timestamp = ucast (bc_timestamp (rb_block b)),
      be_gas_limit = ucast (bc_gas_limit (rb_block b)),
      be_basefee = ucast (bc_basefee (rb_block b)),
      be_difficulty = 0,
      be_prevrandao = Some 0,
      be_blob_excess_gas_and_price = None\<rparr>"

definition tx_env :: "CandidateTx \<Rightarrow> u128 \<Rightarrow> TxEnv" where
  "tx_env tx basefee =
     \<lparr>te_caller = ct_caller tx,
      te_gas_limit = ct_gas_limit tx,
      te_gas_price = ucast basefee,
      te_transact_to = Call (ct_to tx),
      te_value = ucast (ct_value tx),
      te_data = ct_data tx,
      te_nonce = None,
      te_chain_id = None,
      te_access_list = [],
      te_gas_priority_fee = None,
      te_blob_hashes = [],
      te_max_fee_per_blob_gas = None\<rparr>"

definition convert_log :: "EvmLog \<Rightarrow> Log" where
  "convert_log l =
     \<lparr>log_address = to_be_bytes (el_address l), log_topics = el_topics l, log_data = el_data l\<rparr>"

primrec convert_result :: "ExecutionResult \<Rightarrow> RawSimOutput" where
  "convert_result (ExecSuccess gas_used logs output) =
     \<lparr>so_return_data = output, so_gas_used = gas_used, so_revert_reason = None,
      so_logs = map convert_log logs\<rparr>"
| "convert_result (ExecRevert gas_used output) =
     \<lparr>so_return_data = output, so_gas_used = gas_used, so_revert_reason = Some (str ''reverted''),
      so_logs = []\<rparr>"
| "convert_result (ExecHalt reason gas_used) =
     \<lparr>so_return_data = [], so_gas_used = gas_used, so_revert_reason = Some (str ''halted: '' @ reason),
      so_logs = []\<rparr>"

text \<open>
  The errors a simulation boxes into \<^verbatim>\<open>SimError::Backend\<close>: of the database factory, of the EVM,
  of a blocking task that panicked, of a semaphore that was closed.
\<close>

datatype ('f, 'x) backend_error = FreshDbError 'f | TransactError 'x | TaskPanicked | SemaphoreClosed

text \<open>
  The closure of the blocking task: \<open>fresh\<close> is what the factory returned, \<open>transact\<close> the EVM on a
  fresh database; \<^term>\<open>None\<close> is a panic inside either.
\<close>

definition blocking_task ::
  "('f + 'db) option \<Rightarrow> (BlockEnv \<Rightarrow> TxEnv \<Rightarrow> 'db \<Rightarrow> ('x + ExecutionResult) option)
   \<Rightarrow> RevmBackend \<Rightarrow> CandidateTx \<Rightarrow> (('f, 'x) backend_error SimError + RawSimOutput) option" where
  "blocking_task fresh transact b tx =
     do { db \<leftarrow> fresh;
          case db of
            Inl e \<Rightarrow> Some (Inl (SimBackend (FreshDbError e)))
          | Inr db \<Rightarrow>
              do { result \<leftarrow> transact (block_env b) (tx_env tx (bc_basefee (rb_block b))) db;
                   case result of
                     Inl e \<Rightarrow> Some (Inl (SimBackend (TransactError e)))
                   | Inr r \<Rightarrow> Some (Inr (convert_result r)) } }"

text \<open>
  The whole call: a permit (or a closed semaphore), then the blocking task under the timeout.
  \<open>elapsed\<close> is the time the task takes to be done.
\<close>

definition simulate ::
  "bool \<Rightarrow> ('f + 'db) option \<Rightarrow> (BlockEnv \<Rightarrow> TxEnv \<Rightarrow> 'db \<Rightarrow> ('x + ExecutionResult) option) \<Rightarrow> duration
   \<Rightarrow> RevmBackend \<Rightarrow> CandidateTx \<Rightarrow> ('f, 'x) backend_error SimError + RawSimOutput" where
  "simulate permit fresh transact elapsed b tx =
     (if \<not> permit then Inl (SimBackend SemaphoreClosed)
      else if elapsed \<le> simulation_timeout b then
        (case blocking_task fresh transact b tx of
           Some inner \<Rightarrow> inner
         | None \<Rightarrow> Inl (SimBackend TaskPanicked))
      else Inl (SimTimeout (simulation_timeout b)))"

section \<open>Simulations in flight\<close>

text \<open>
  The calls of \<^verbatim>\<open>simulate\<close> on one backend, numbered in the order they are made. A call first
  waits for a permit; its task then owns the permit until the task is done, whether or not the caller
  still waits: a timeout, which fires once, ends the wait of the caller and not the task.
\<close>

record sim_pool =
  sp_calls :: nat
  sp_permits :: nat
  sp_waiting :: "nat list"
  sp_running :: "nat list"
  sp_timed_out :: "nat list"

definition sim_pool_new :: "RevmBackend \<Rightarrow> sim_pool" where
  "sim_pool_new b =
     \<lparr>sp_calls = 0, sp_permits = rb_concurrency b, sp_waiting = [], sp_running = [], sp_timed_out = []\<rparr>"

datatype sim_event = SimCall | SimAcquire | SimTimeOut nat | SimFinish nat

inductive sim_step :: "sim_pool \<Rightarrow> sim_event \<Rightarrow> sim_pool \<Rightarrow> bool" where
  call: "sim_step s SimCall (s\<lparr>sp_calls := sp_calls s + 1, sp_waiting := sp_waiting s @ [sp_calls s]\<rparr>)"
| acquire: "sp_waiting s = i # is \<Longrightarrow> 0 < sp_permits s \<Longrightarrow>
    sim_step s SimAcquire (s\<lparr>sp_waiting := is, sp_permits := sp_permits s - 1, sp_running := i # sp_running s\<rparr>)"
| time_out: "i \<in> set (sp_running s) \<Longrightarrow> i \<notin> set (sp_timed_out s) \<Longrightarrow>
    sim_step s (SimTimeOut i) (s\<lparr>sp_timed_out := i # sp_timed_out s\<rparr>)"
| finish: "i \<in> set (sp_running s) \<Longrightarrow>
    sim_step s (SimFinish i) (s\<lparr>sp_permits := sp_permits s + 1, sp_running := remove1 i (sp_running s)\<rparr>)"

inductive sim_run :: "sim_pool \<Rightarrow> sim_event list \<Rightarrow> sim_pool \<Rightarrow> bool" where
  idle: "sim_run s [] s"
| more: "sim_step s ev t \<Longrightarrow> sim_run t evs u \<Longrightarrow> sim_run s (ev # evs) u"

inductive sim_reach :: "RevmBackend \<Rightarrow> sim_pool \<Rightarrow> bool" for b where
  start: "sim_reach b (sim_pool_new b)"
| step: "sim_reach b s \<Longrightarrow> sim_step s ev t \<Longrightarrow> sim_reach b t"

inductive_cases sim_stepE: "sim_step s ev t"

lemma sim_step_permits:
  assumes "sim_step s ev t"
  shows "sp_permits t + length (sp_running t) = sp_permits s + length (sp_running s)"
  using assms
proof cases
  case (finish i)
  then have "0 < length (sp_running s)" by (cases "sp_running s") auto
  with finish show ?thesis by (simp add: length_remove1)
qed simp_all

text \<open>Filling the pool with tasks whose callers give up.\<close>

lemma reach_stuck:
  "k \<le> rb_concurrency b \<Longrightarrow>
   sim_reach b \<lparr>sp_calls = k, sp_permits = rb_concurrency b - k, sp_waiting = [], sp_running = rev [0..<k],
                sp_timed_out = rev [0..<k]\<rparr>"
proof (induction k)
  case 0
  show ?case using sim_reach.start [of b] by (simp add: sim_pool_new_def)
next
  case (Suc k)
  let ?s = "\<lambda>c p w r t. \<lparr>sp_calls = c, sp_permits = p, sp_waiting = w, sp_running = r, sp_timed_out = t\<rparr>"
  let ?n = "rb_concurrency b" and ?ks = "rev [0..<k]"
  have "sim_reach b (?s (Suc k) (?n - k) [k] ?ks ?ks)"
    using sim_reach.step [OF _ call] Suc by fastforce
  then have "sim_reach b (?s (Suc k) (?n - k - 1) [] (k # ?ks) ?ks)"
    using sim_reach.step [OF _ acquire] Suc.prems by fastforce
  then have "sim_reach b (?s (Suc k) (?n - k - 1) [] (k # ?ks) (k # ?ks))"
    using sim_reach.step [OF _ time_out] by fastforce
  then show ?case by simp
qed

text \<open>While no permit is free, nothing but the completion of a task lets a waiting call on.\<close>

lemma step_without_permit:
  assumes "sim_step s ev t" "sp_permits s = 0" "\<And>i. ev \<noteq> SimFinish i"
  shows "sp_permits t = 0 \<and> sp_running t = sp_running s \<and> prefix (sp_waiting s) (sp_waiting t)"
  using assms by cases auto

lemma run_without_permit:
  assumes "sim_run s evs t" "sp_permits s = 0" "\<And>i. SimFinish i \<notin> set evs"
  shows "sp_running t = sp_running s \<and> prefix (sp_waiting s) (sp_waiting t)"
  using assms
proof induction
  case (more s ev t evs u)
  have s: "sp_permits t = 0" "sp_running t = sp_running s" "prefix (sp_waiting s) (sp_waiting t)"
    using step_without_permit [OF more.hyps(1) more.prems(1)] more.prems(2) by auto
  then show ?case using more.IH more.prems(2) by (auto intro: prefix_order.trans)
qed simp

text \<open>
  C18. Bounded concurrency: however calls, permits, timeouts and completions interleave, the permits
  free and the tasks running add up to the concurrency limit, so no more tasks than the limit ever
  run, tasks whose caller has timed out included.
\<close>

theorem simulations_bounded:
  assumes "sim_reach b s"
  shows "sp_permits s + length (sp_running s) = rb_concurrency b"
  using assms
proof induction
  case start
  show ?case by (simp add: sim_pool_new_def)
qed (simp add: sim_step_permits)

text \<open>Three of four permits held by tasks whose callers have timed out: one permit is left.\<close>

theorem simulations_bounded_witness:
  "let b = \<lparr>rb_block = \<lparr>bc_number = 1, bc_timestamp = 1, bc_gas_limit = 30000000, bc_basefee = 0, bc_coinbase = 0\<rparr>, rb_block_time_ms = 12000, rb_timeout_fraction = f64_of_rat (1 / 2), rb_concurrency = 4\<rparr>;
       s = \<lparr>sp_calls = 3, sp_permits = 1, sp_waiting = [], sp_running = [2, 1, 0], sp_timed_out = [2, 1, 0]\<rparr>
   in sim_reach b s \<and> sp_permits s + length (sp_running s) = 4"
proof -
  let ?b = "\<lparr>rb_block = \<lparr>bc_number = 1, bc_timestamp = 1, bc_gas_limit = 30000000, bc_basefee = 0, bc_coinbase = 0\<rparr>, rb_block_time_ms = 12000, rb_timeout_fraction = f64_of_rat (1 / 2), rb_concurrency = 4\<rparr>"
  have "sim_reach ?b \<lparr>sp_calls = 3, sp_permits = 1, sp_waiting = [], sp_running = [2, 1, 0], sp_timed_out = [2, 1, 0]\<rparr>"
    using reach_stuck [of 3 ?b] by (simp add: numeral_2_eq_2 numeral_3_eq_3)
  then show ?thesis using simulations_bounded [of ?b] unfolding Let_def by fastforce
qed

text \<open>
  C37. A timeout ends the wait of the caller, and keeps the permit. The state is reachable in which
  as many tasks as the limit are running, the callers of all of them have timed out, and one more
  call has been made. Whatever happens from there, other calls and timeouts included, as long as no
  task completes that call waits for a permit, without any timeout of its own; and the completion of
  any one of the tasks lets it run.
\<close>

theorem hung_tasks_block_simulation:
  "\<exists>s i. sim_reach b s \<and> sp_waiting s = [i] \<and>
     length (sp_running s) = rb_concurrency b \<and> set (sp_running s) \<subseteq> set (sp_timed_out s) \<and>
     (\<nexists>evs t. sim_run s evs t \<and> (\<nexists>j. SimFinish j \<in> set evs) \<and> i \<notin> set (sp_waiting t)) \<and>
     set (sp_running s) \<subseteq> {j. \<exists>t. sim_run s [SimFinish j, SimAcquire] t \<and> i \<in> set (sp_running t)}"
proof -
  let ?n = "rb_concurrency b"
  let ?s = "\<lparr>sp_calls = Suc ?n, sp_permits = 0, sp_waiting = [?n], sp_running = rev [0..<?n], sp_timed_out = rev [0..<?n]\<rparr>"
  have reach: "sim_reach b ?s"
    using sim_reach.step [OF reach_stuck [of ?n b] call] by simp
  have stuck: "?n \<in> set (sp_waiting t)" if "sim_run ?s evs t" "\<And>j. SimFinish j \<notin> set evs" for evs t
    using run_without_permit [OF that(1)] that(2) by (auto simp: prefix_def)
  have free: "\<exists>t. sim_run ?s [SimFinish j, SimAcquire] t \<and> ?n \<in> set (sp_running t)" if "j \<in> set (sp_running ?s)" for j
    by (intro exI conjI, rule sim_run.more, rule finish [OF that], rule sim_run.more, rule acquire [where i = ?n], simp, simp)
      (rule sim_run.idle, simp)
  have "\<nexists>evs t. sim_run ?s evs t \<and> (\<nexists>j. SimFinish j \<in> set evs) \<and> ?n \<notin> set (sp_waiting t)"
    using stuck by blast
  moreover have "set (sp_running ?s) \<subseteq> {j. \<exists>t. sim_run ?s [SimFinish j, SimAcquire] t \<and> ?n \<in> set (sp_running t)}"
    using free by blast
  ultimately show ?thesis
    using reach by (intro exI [of _ ?s] exI [of _ ?n]) simp
qed

end
