(* ===== verification/Toy_Decoder.thy ===== *)
theory Toy_Decoder
  imports Backend
begin

text \<open>
  The contract interface of the example \<^verbatim>\<open>toy-arbitrage\<close>: ABI helpers (\<^verbatim>\<open>abi.rs\<close>), pool prices
  (\<^verbatim>\<open>pools.rs\<close>) and the decoders (\<^verbatim>\<open>decoder.rs\<close>) that implement the two decoder traits of the core.
  Keccak-256 comes from REVM and is a parameter.
\<close>

section \<open>ABI\<close>

type_synonym keccak = "bytes \<Rightarrow> hash32"

definition function_selector :: "keccak \<Rightarrow> bytes \<Rightarrow> bytes" where
  "function_selector keccak256 signature = take 4 (to_be_bytes (keccak256 signature))"

definition event_topic0 :: "keccak \<Rightarrow> bytes \<Rightarrow> hash32" where
  "event_topic0 keccak256 signature = keccak256 signature"

definition encode_address :: "address20 \<Rightarrow> bytes" where
  "encode_address addr = replicate 12 0 @ to_be_bytes addr"

definition encode_u256 :: "u128 \<Rightarrow> bytes" where
  "encode_u256 v = replicate 16 0 @ to_be_bytes v"

definition encode_arb_call :: "bytes \<Rightarrow> address20 \<Rightarrow> address20 \<Rightarrow> u128 \<Rightarrow> bytes" where
  "encode_arb_call selector buy_pool sell_pool amount =
     selector @ encode_address buy_pool @ encode_address sell_pool @ encode_u256 amount"

definition encode_no_arg_call :: "bytes \<Rightarrow> bytes" where
  "encode_no_arg_call selector = selector"

text \<open>\<^verbatim>\<open>slice.get(a..b)\<close>.\<close>

definition get_range :: "nat \<Rightarrow> nat \<Rightarrow> bytes \<Rightarrow> bytes option" where
  "get_range a b bs = (if a \<le> b \<and> b \<le> length bs then Some (take (b - a) (drop a bs)) else None)"

definition decode_u256_word :: "bytes \<Rightarrow> nat \<Rightarrow> u128 option" where
  "decode_u256_word data word_index =
     do { let start = word_index * 32;
          word \<leftarrow> get_range start (start + 32) data;
          buf \<leftarrow> get_range 16 32 word;
          Some (from_be_bytes buf) }"

section \<open>Pools\<close>

definition GET_RESERVES_SIGNATURE :: bytes where
  "GET_RESERVES_SIGNATURE = str ''getReserves()''"

record PoolReserves =
  reserve0 :: u128
  reserve1 :: u128

definition price_token0_in_token1 :: "PoolReserves \<Rightarrow> f64" where
  "price_token0_in_token1 p = f64_div (f64_of_int (uint (reserve1 p))) (f64_of_int (uint (reserve0 p)))"

datatype 'e PoolReadError = PoolSim 'e | PoolMalformed

definition decode_reserves :: "RawSimOutput \<Rightarrow> PoolReserves option" where
  "decode_reserves raw =
     do { r0 \<leftarrow> decode_u256_word (so_return_data raw) 0;
          r1 \<leftarrow> decode_u256_word (so_return_data raw) 1;
          Some \<lparr>reserve0 = r0, reserve1 = r1\<rparr> }"

text \<open>A simulation engine acts on a world (the network, the clock).\<close>

type_synonym ('e, 'w) sim_engine = "CandidateTx \<Rightarrow> 'w \<Rightarrow> ('e SimError + RawSimOutput) \<times> 'w"

definition read_reserves ::
  "keccak \<Rightarrow> ('e, 'w) sim_engine \<Rightarrow> address20 \<Rightarrow> address20 \<Rightarrow> 'w
   \<Rightarrow> ('e SimError PoolReadError + PoolReserves) \<times> 'w" where
  "read_reserves keccak256 engine caller pool w =
     (let tx = \<lparr>ct_caller = caller, ct_to = pool, ct_value = 0,
                ct_data = encode_no_arg_call (function_selector keccak256 GET_RESERVES_SIGNATURE),
                ct_gas_limit = 100000\<rparr>
      in case engine tx w of
           (Inl e, w') \<Rightarrow> (Inl (PoolSim e), w')
         | (Inr raw, w') \<Rightarrow>
             (case decode_reserves raw of
                Some r \<Rightarrow> (Inr r, w')
              | None \<Rightarrow> (Inl PoolMalformed, w')))"

definition price_divergence :: "PoolReserves \<Rightarrow> PoolReserves \<Rightarrow> f64" where
  "price_divergence a b =
     (let pa = price_token0_in_token1 a; pb = price_token0_in_token1 b;
          (low, high) = if f64_lt pa pb then (pa, pb) else (pb, pa)
      in f64_div (f64_sub high low) low)"

section \<open>Decoders\<close>

definition EXECUTE_ARB_SIGNATURE :: bytes where
  "EXECUTE_ARB_SIGNATURE = str ''executeArb(address,address,uint256)''"

definition PROFIT_EVENT_SIGNATURE :: bytes where
  "PROFIT_EVENT_SIGNATURE = str ''Profit(uint256)''"

text \<open>\<^verbatim>\<open>profit as i128\<close> keeps the 128 bits.\<close>

definition toy_decode_predicted :: profit_decoder where
  "toy_decode_predicted raw =
     (if so_revert_reason raw \<noteq> None then Inl DecodeReverted
      else case decode_u256_word (so_return_data raw) 0 of
             None \<Rightarrow> Inl (MalformedData (str ''executeArb return data too short for one uint256''))
           | Some profit \<Rightarrow> Inr (PredictedProfit profit))"

definition first_topic_is :: "hash32 \<Rightarrow> Log \<Rightarrow> bool" where
  "first_topic_is topic0 l = (case log_topics l of [] \<Rightarrow> False | t # ts \<Rightarrow> t = topic0)"

definition toy_decode_realized :: "keccak \<Rightarrow> profile \<Rightarrow> unit realized_decoder" where
  "toy_decode_realized keccak256 pf receipt logs u =
     (if rc_status receipt \<noteq> TxConfirmed
      then Some (Inl (DecodeOther (str ''decode_realized called on a non-confirmed receipt'')), u)
      else
        let topic0 = event_topic0 keccak256 PROFIT_EVENT_SIGNATURE
        in case find (first_topic_is topic0) logs of
             None \<Rightarrow> Some (Inl MissingProfitEvent, u)
           | Some profit_log \<Rightarrow>
               (case decode_u256_word (log_data profit_log) 0 of
                  None \<Rightarrow> Some (Inl (MalformedData (str ''Profit event data too short for one uint256'')), u)
                | Some gross \<Rightarrow>
                    do { gas_cost \<leftarrow> u_mul pf (ucast (rc_gas_used receipt)) (rc_effective_gas_price receipt);
                         net \<leftarrow> s_sub pf gross gas_cost;
                         Some (Inr (RealizedProfit net), u) }))"

text \<open>The drift injector around a decoder, with its atomic counter.\<close>

record 'd DriftInjectingDecoder =
  di_inner :: 'd
  di_calls_so_far :: u64
  di_drift_after :: u64
  di_damping_factor :: f64

definition drift_injecting_new :: "'d \<Rightarrow> u64 \<Rightarrow> f64 \<Rightarrow> 'd DriftInjectingDecoder" where
  "drift_injecting_new inner drift_after damping_factor =
     \<lparr>di_inner = inner, di_calls_so_far = 0, di_drift_after = drift_after,
      di_damping_factor = damping_factor\<rparr>"

definition f64_as_i128 :: "f64 \<Rightarrow> i128" where
  "f64_as_i128 x = word_of_int (f64_as_int (- (2 ^ 127)) (2 ^ 127 - 1) x)"

definition drift_decode_realized :: "'d realized_decoder \<Rightarrow> 'd DriftInjectingDecoder realized_decoder" where
  "drift_decode_realized inner receipt logs s =
     do { (res, d) \<leftarrow> inner receipt logs (di_inner s);
          case res of
            Inl e \<Rightarrow> Some (Inl e, s\<lparr>di_inner := d\<rparr>)
          | Inr realized \<Rightarrow>
              let n = di_calls_so_far s; s' = s\<lparr>di_inner := d, di_calls_so_far := n + 1\<rparr>
              in if n < di_drift_after s then Some (Inr realized, s')
                 else let dampened = f64_as_i128 (f64_round (f64_mul (f64_of_int (sint (realized_wei realized)))
                                                                    (di_damping_factor s)))
                      in Some (Inr (RealizedProfit dampened), s') }"

section \<open>EVM words\<close>

text \<open>The 256-bit word at an index, as the EVM reads it.\<close>

definition word_at :: "bytes \<Rightarrow> nat \<Rightarrow> U256" where
  "word_at data i = from_be_bytes (take 32 (drop (i * 32) data))"

lemma from_be_bytes_low:
  assumes "length bs = 32"
  shows "(from_be_bytes (drop 16 bs) :: u128) = ucast (from_be_bytes bs :: U256)"
proof -
  have "nat_of_be bs = nat_of_be (take 16 bs @ drop 16 bs)" by simp
  also have "\<dots> = nat_of_be (take 16 bs) * 2 ^ 128 + nat_of_be (drop 16 bs)"
    using assms by (simp only: nat_of_be_append) simp
  finally have m: "nat_of_be bs mod 2 ^ 128 = nat_of_be (drop 16 bs) mod 2 ^ 128" by simp
  have "nat_of_be bs < 2 ^ 256" using nat_of_be_less [of bs] assms by simp
  then have "(ucast (from_be_bytes bs :: U256) :: u128) = word_of_nat (nat_of_be bs)"
    by (simp add: from_be_bytes_def unsigned_of_nat take_bit_nat_eq_self)
  also have "\<dots> = word_of_nat (nat_of_be (drop 16 bs))"
    using m by (simp add: word_of_nat_eq_iff take_bit_eq_mod)
  finally show ?thesis by (simp add: from_be_bytes_def)
qed

lemma decode_u256_word_eq:
  "decode_u256_word data i =
     (if i * 32 + 32 \<le> length data then Some (ucast (word_at data i)) else None)"
proof (cases "i * 32 + 32 \<le> length data")
  case True
  let ?w = "take 32 (drop (i * 32) data)"
  have "length ?w = 32" using True by simp
  then have "decode_u256_word data i = Some (from_be_bytes (drop 16 ?w))"
    using True by (simp add: decode_u256_word_def get_range_def)
  then show ?thesis using True from_be_bytes_low [OF \<open>length ?w = 32\<close>] by (simp add: word_at_def)
qed (simp add: decode_u256_word_def get_range_def)

lemma from_be_zeros:
  fixes w :: "'a::len word"
  assumes "8 dvd LENGTH('a)" "LENGTH('a) \<le> LENGTH('b::len)"
  shows "(from_be_bytes (replicate k 0 @ to_be_bytes w) :: 'b word) = ucast w"
  by (simp add: from_be_bytes_def nat_of_be_append nat_of_to_be_bytes [OF assms(1)])

section \<open>Properties\<close>

text \<open>
  Calldata: the call the example submits is the selector followed by three words that read back
  as the two pools and the notional, whatever the hash function is.
\<close>

theorem arb_call_round_trip:
  "let call = encode_arb_call (function_selector keccak256 EXECUTE_ARB_SIGNATURE) buy sell amount;
       args = drop 4 call
   in length call = 100 \<and> take 4 call = function_selector keccak256 EXECUTE_ARB_SIGNATURE \<and>
      word_at args 0 = ucast buy \<and> word_at args 1 = ucast sell \<and> decode_u256_word args 2 = Some amount"
proof -
  let ?sel = "function_selector keccak256 EXECUTE_ARB_SIGNATURE"
  have s: "length ?sel = 4" by (simp add: function_selector_def length_to_be_bytes)
  have a: "length (encode_address x) = 32" "from_be_bytes (encode_address x) = (ucast x :: U256)" for x
    using from_be_zeros [where 'a = 160 and 'b = 256, of 12 x]
    by (simp_all add: encode_address_def length_to_be_bytes)
  have u: "length (encode_u256 x) = 32" "drop 16 (encode_u256 x) = to_be_bytes x" for x
    by (simp_all add: encode_u256_def length_to_be_bytes)
  show ?thesis
    using s a u from_to_be_bytes [of amount]
    by (simp add: Let_def encode_arb_call_def word_at_def decode_u256_word_def get_range_def length_to_be_bytes)
qed

context sound_profit_decoder
begin

lemma failed_simulation:
  "decode_predicted (convert_result (ExecRevert g out)) = Inl DecodeReverted"
  "decode_predicted (convert_result (ExecHalt reason g)) = Inl DecodeReverted"
  by (auto intro: reverted_is_error)

end

interpretation toy_profit: sound_profit_decoder toy_decode_predicted
  by unfold_locales (simp add: toy_decode_predicted_def)

text \<open>
  A return word is read modulo \<open>2 ^ 128\<close> and the profit as a signed number: of the results of
  the EVM only a success is a prediction, the low 128 bits of its first word; a revert or a halt is
  an error, a short return value too.
\<close>

theorem prediction_of_result:
  "toy_decode_predicted (convert_result r) =
     (case r of
        ExecSuccess gas logs out \<Rightarrow>
          if 32 \<le> length out then Inr (PredictedProfit (ucast (word_at out 0)))
          else Inl (MalformedData (str ''executeArb return data too short for one uint256''))
      | ExecRevert gas out \<Rightarrow> Inl DecodeReverted
      | ExecHalt reason gas \<Rightarrow> Inl DecodeReverted)"
  by (cases r) (simp_all only: toy_profit.failed_simulation ExecutionResult.case,
      simp add: toy_decode_predicted_def decode_u256_word_eq)

lemma unat_low_128:
  assumes "unat (w :: U256) < 2 ^ 127"
  shows "unat (ucast w :: u128) = unat w" "sint (ucast w :: u128) = int (unat w)"
proof -
  show u: "unat (ucast w :: u128) = unat w"
    using assms by (simp add: unsigned_ucast_eq take_bit_nat_eq_self_iff)
  show "sint (ucast w :: u128) = int (unat w)"
    using sint_nonneg_half [of "ucast w :: u128"] assms u by simp
qed

text \<open>The first log of the event decides, and the result is net of gas.\<close>

lemma realized_of_first:
  assumes "rc_status receipt = TxConfirmed"
    and "find (first_topic_is (keccak PROFIT_EVENT_SIGNATURE)) logs = Some l" "32 \<le> length (log_data l)"
    and gross: "unat (word_at (log_data l) 0) < 2 ^ 127"
    and cost: "unat (rc_gas_used receipt) * unat (rc_effective_gas_price receipt) < 2 ^ 127"
  shows "\<exists>net. toy_decode_realized keccak pf receipt logs u = Some (Inr (RealizedProfit net), u) \<and>
     sint net = int (unat (word_at (log_data l) 0))
              - int (unat (rc_gas_used receipt)) * int (unat (rc_effective_gas_price receipt))"
proof -
  let ?g = "ucast (rc_gas_used receipt) :: u128" and ?p = "rc_effective_gas_price receipt"
  let ?w = "ucast (word_at (log_data l) 0) :: u128"
  have g: "unat ?g = unat (rc_gas_used receipt)"
    using unsigned_less [of "rc_gas_used receipt", where 'a = nat]
    by (simp add: unsigned_ucast_eq take_bit_nat_eq_self_iff)
  have m: "u_mul pf ?g ?p = Some (?g * ?p)" "unat (?g * ?p) = unat ?g * unat ?p"
    using u_mul_exact [of ?g ?p] cost by (simp_all add: g)
  have "in_srange TYPE(128) (int a - int b)" if "a < 2 ^ 127" "b < 2 ^ 127" for a b
    using that by (simp add: in_srange_def)
  note diff = this [OF gross cost]
  have sw: "sint ?w = int (unat (word_at (log_data l) 0))" by (rule unat_low_128 [OF gross])
  have sc: "sint (?g * ?p) = int (unat (rc_gas_used receipt) * unat ?p)"
    using sint_nonneg_half [of "?g * ?p"] cost by (simp add: m(2) g del: of_nat_unat)
  have r: "in_srange TYPE(128) (sint ?w - sint (?g * ?p))" using diff by (simp only: sw sc)
  show ?thesis
    using s_sub_exact(1) [OF r, of pf] s_sub_exact(2) [OF r] sw sc
    by (simp add: toy_decode_realized_def assms(1-3) event_topic0_def decode_u256_word_eq m(1) del: of_nat_unat)
qed

lemma find_after: "list_all (\<lambda>m. \<not> P m) before \<Longrightarrow> P l \<Longrightarrow> find P (before @ l # after) = Some l"
  by (induction before) auto

text \<open>
  C33. Realized profit is net of gas: the first log whose first topic is the \<^verbatim>\<open>Profit\<close> event decides,
  later ones are not added up, and the result is its amount minus gas used times effective gas
  price, exactly, as long as both are below \<open>2 ^ 127\<close>.
\<close>

theorem realized_is_net_of_gas:
  assumes "rc_status receipt = TxConfirmed"
    and "logs = before @ l # after" "list_all (\<lambda>m. \<not> first_topic_is (keccak PROFIT_EVENT_SIGNATURE) m) before"
    and "first_topic_is (keccak PROFIT_EVENT_SIGNATURE) l" "32 \<le> length (log_data l)"
    and gross: "unat (word_at (log_data l) 0) < 2 ^ 127"
    and cost: "unat (rc_gas_used receipt) * unat (rc_effective_gas_price receipt) < 2 ^ 127"
  shows "\<exists>net. toy_decode_realized keccak pf receipt logs u = Some (Inr (RealizedProfit net), u) \<and>
     sint net = int (unat (word_at (log_data l) 0))
              - int (unat (rc_gas_used receipt)) * int (unat (rc_effective_gas_price receipt))"
  using assms(1,5-) by (intro realized_of_first) (simp_all add: assms(2) find_after assms(3,4))

lemma word_at_single [simp]: "word_at (to_be_bytes w) 0 = w"
  using from_to_be_bytes [of w] by (simp add: word_at_def length_to_be_bytes)

theorem realized_is_net_of_gas_witness:
  "let l = \<lparr>log_address = [], log_topics = [7], log_data = to_be_bytes (1000000 :: U256)\<rparr>;
       other = \<lparr>log_address = [], log_topics = [], log_data = []\<rparr>;
       receipt = \<lparr>rc_tx_hash = 1, rc_block_number = 5, rc_status = TxConfirmed, rc_gas_used = 21000,
                  rc_effective_gas_price = 10\<rparr>
   in \<exists>net. toy_decode_realized (\<lambda>_. 7) Debug receipt [other, l] () = Some (Inr (RealizedProfit net), ())
        \<and> sint net = 790000"
  using realized_is_net_of_gas [where
      receipt = "\<lparr>rc_tx_hash = 1, rc_block_number = 5, rc_status = TxConfirmed, rc_gas_used = 21000,
                  rc_effective_gas_price = 10\<rparr>"
      and before = "[\<lparr>log_address = [], log_topics = [], log_data = []\<rparr>]"
      and l = "\<lparr>log_address = [], log_topics = [7], log_data = to_be_bytes (1000000 :: U256)\<rparr>"
      and after = "[]" and keccak = "\<lambda>_. 7" and u = "()" and pf = Debug, OF _ refl]
  by (simp add: first_topic_is_def length_to_be_bytes)

text \<open>The drift injector keeps the contract of the decoder it wraps.\<close>

context sound_realized_decoder
begin

lemma drift_sound: "sound_realized_decoder (drift_decode_realized decode_realized)"
proof unfold_locales
  fix receipt logs s res s'
  assume c: "rc_status receipt \<noteq> TxConfirmed"
    and r: "drift_decode_realized decode_realized receipt logs s = Some (res, s')"
  then obtain ires d where i: "decode_realized receipt logs (di_inner s) = Some (ires, d)"
    by (auto simp: drift_decode_realized_def bind_eq_Some_conv)
  then obtain e where "ires = Inl e" using unconfirmed_is_error [OF c i] by (cases ires) auto
  then show "isl res" using i r by (auto simp: drift_decode_realized_def)
qed

end

interpretation toy_realized: sound_realized_decoder "toy_decode_realized keccak256 pf" for keccak256 pf
  by unfold_locales (auto simp: toy_decode_realized_def)

interpretation toy_drift:
  sound_realized_decoder "drift_decode_realized (toy_decode_realized keccak256 pf)" for keccak256 pf
  by (rule toy_realized.drift_sound)

section \<open>Damping\<close>

text \<open>
  With a damping factor of at most one half, the rounded product of an amount lies between zero and
  the amount: profits shrink, and so do losses.
\<close>

lemma round_half_product:
  assumes "0 \<le> n" "n \<le> 2 ^ 127" "0 \<le> c" "c \<le> (1 / 2 :: rat)"
  defines "m \<equiv> round_mag (round_mag (of_int n) * c)"
  shows "0 \<le> m" "m \<le> 2 powi 127" "\<lfloor>m + 1 / 2\<rfloor> \<le> n" "0 \<le> \<lfloor>m + 1 / 2\<rfloor>"
proof -
  let ?a = "round_mag (of_int n)"
  have a: "0 \<le> ?a" using assms(1) by simp
  have ac: "0 \<le> ?a * c" "?a * c \<le> ?a / 2" using a assms(3,4) mult_left_mono [of c "1/2" ?a] by auto
  show m0: "0 \<le> m" using ac by (simp add: m_def)
  then show "0 \<le> \<lfloor>m + 1 / 2\<rfloor>" by simp
  have pow: "m \<le> 2 powi (k - 1)" if "of_int n \<le> (2::rat) powi k" "0 \<le> k" for k
  proof (cases "?a * c = 0")
    case True
    have "m = 0" unfolding m_def True by simp
    then show ?thesis by simp
  next
    case False
    then have "0 < n" using assms(1) by (cases "n = 0") auto
    then have "?a \<le> 2 powi k" using that by (intro round_mag_le_p2) auto
    then have "?a * c \<le> 2 powi (k - 1)" using ac by (simp add: power_int_diff)
    then show ?thesis unfolding m_def using ac(1) False that(2) by (intro round_mag_le_p2) (auto simp: less_le)
  qed
  have n127: "(of_int n :: rat) \<le> 2 powi 127"
  proof -
    have "(of_int n :: rat) \<le> of_int (2 ^ 127)" using assms(2) by (simp only: of_int_le_iff)
    then show ?thesis by simp
  qed
  have "m \<le> 2 powi 126" using pow [OF n127] by simp
  then show "m \<le> 2 powi 127" using p2_le_iff [of 126 127] by simp
  show "\<lfloor>m + 1 / 2\<rfloor> \<le> n"
  proof (cases "n \<le> 1")
    case True
    then have "n = 0 \<or> n = 1" using assms(1) by auto
    then show ?thesis
    proof
      assume "n = 0" then show ?thesis by (simp add: m_def)
    next
      assume n: "n = 1"
      have "m \<le> 2 powi (- 1)" using pow [of 0] n by simp
      then have "m + 1 / 2 < 2" by (simp add: power_int_def)
      then show ?thesis using n by (simp add: floor_le_iff)
    qed
  next
    case False
    define k where "k = ilog2 (of_int n - 1 :: rat) + 1"
    have pos: "0 < (of_int n - 1 :: rat)" using False by simp
    have lo: "2 powi (k - 1) \<le> (of_int n - 1 :: rat)" and hi: "(of_int n - 1 :: rat) < 2 powi k"
      using ilog2_bounds [OF pos] by (simp_all add: k_def)
    have k0: "1 \<le> k" using ilog2_ge [OF pos, of 0] False by (simp add: k_def)
    obtain j where j: "k = int j" using k0 by (metis nonneg_int_cases order.trans zero_le_one)
    have "(of_int (n - 1) :: rat) < of_int (2 ^ j)" using hi j by simp
    then have "n - 1 < 2 ^ j" by (simp only: of_int_less_iff)
    then have "n \<le> 2 ^ j" by simp
    then have "(of_int n :: rat) \<le> of_int (2 ^ j)" by (simp only: of_int_le_iff)
    then have "of_int n \<le> (2::rat) powi k" using j by simp
    then have "m \<le> 2 powi (k - 1)" using k0 by (intro pow) auto
    then have "m + 1 / 2 < of_int n" using lo by linarith
    then show ?thesis by (simp add: floor_le_iff)
  qed
qed

definition damp :: "f64 \<Rightarrow> i128 \<Rightarrow> i128" where
  "damp factor x = f64_as_i128 (f64_round (f64_mul (f64_of_int (sint x)) factor))"

lemma damp_value:
  assumes "0 \<le> c" "c \<le> 1 / 2"
  defines "z x \<equiv> \<lfloor>round_mag (round_mag (of_int \<bar>sint x\<bar>) * c) + 1 / 2\<rfloor>"
  shows "sint (damp (Fin False c) x) = (if sint x < 0 then - z x else z x)"
    "0 \<le> z x" "z x \<le> \<bar>sint x\<bar>"
proof -
  let ?n = "\<bar>sint x\<bar>" and ?neg = "sint x < 0"
  define m where "m = round_mag (round_mag (of_int ?n) * c)"
  have rng: "- (2 ^ 127) \<le> sint x" "sint x < 2 ^ 127"
    using sint_greater_eq [of x] sint_less [of x] by simp_all
  have n: "0 \<le> ?n" "?n \<le> 2 ^ 127" using rng by auto
  note m = round_half_product [OF n assms(1,2), folded m_def]
  have f: "f64_of_int (sint x) = Fin ?neg (round_mag (of_int ?n))"
    using i128_as_f64(1) [of x] by (auto simp: f64_of_int_def f64_of_rat_def pack_def Let_def split: if_splits)
  have "\<not> overflowed m"
  proof -
    have "\<bar>m\<bar> \<le> 2 powi 1023" using m(1,2) p2_le_iff [of 127 1023] by simp
    moreover have "round_mag \<bar>m\<bar> = m" using m(1) by (simp add: m_def abs_of_nonneg assms)
    ultimately show ?thesis using not_overflowed [of m] by simp
  qed
  then have "f64_mul (f64_of_int (sint x)) (Fin False c) = Fin ?neg m"
    by (simp add: f pack_def m_def Let_def)
  then have d: "damp (Fin False c) x = word_of_int (max (- (2 ^ 127)) (min (2 ^ 127 - 1)
      (if ?neg then - z x else z x)))"
    by (simp add: damp_def f64_as_i128_def z_def m_def)
  show z: "0 \<le> z x" "z x \<le> ?n" using m(3,4) by (simp_all add: z_def m_def)
  have "max (- (2 ^ 127)) (min (2 ^ 127 - 1) (if ?neg then - z x else z x)) = (if ?neg then - z x else z x)"
    "in_srange TYPE(128) (if ?neg then - z x else z x)"
    using z rng by (auto simp: in_srange_def)
  then show "sint (damp (Fin False c) x) = (if ?neg then - z x else z x)"
    unfolding d by (simp only: sint_of_srange)
qed

text \<open>The errors of the two roundings add up.\<close>

lemma error_sum:
  fixes a b c :: rat
  shows "\<bar>a - b\<bar> \<le> e1 \<Longrightarrow> \<bar>b - c\<bar> \<le> e2 \<Longrightarrow> \<bar>a - c\<bar> \<le> e1 + e2"
  by linarith

lemma error_chain:
  fixes a b c d :: rat
  shows "\<bar>a - b\<bar> \<le> e1 \<Longrightarrow> \<bar>b - c\<bar> \<le> e2 \<Longrightarrow> \<bar>d - a\<bar> \<le> e3 \<Longrightarrow> e1 + e2 = e \<Longrightarrow> \<bar>d - c\<bar> \<le> e3 + e"
  by linarith

lemma damped_product_error:
  assumes "0 \<le> n" "1 / 4 \<le> c" "c \<le> 1 / 2"
  shows "\<bar>round_mag (round_mag (of_int n) * c) - of_int n * c\<bar> \<le> 3 * of_int n / 2 ^ 54"
proof (cases "n = 0")
  case False
  let ?a = "round_mag (of_int n)"
  have n: "(1 :: rat) \<le> of_int n" using assms(1) False by simp
  have a: "\<bar>?a - of_int n\<bar> \<le> of_int n / 2 ^ 53" by (rule round_mag_int_error [OF assms(1)])
  have "of_int n / 2 ^ 53 \<le> (of_int n / 2 :: rat)" using n by (intro divide_left_mono) simp_all
  then have a1: "1 / 2 \<le> ?a" and a2: "?a \<le> 2 * of_int n" using n a by linarith+
  have e1: "\<bar>?a * c - of_int n * c\<bar> \<le> of_int n / 2 ^ 53 * (1 / 2)"
    using mult_mono [OF a, of "\<bar>c\<bar>" "1 / 2"] assms n by (simp add: abs_mult left_diff_distrib [symmetric])
  have "1 / 2 * (1 / 4) \<le> ?a * c" using a1 assms(2) by (intro mult_mono) auto
  moreover have "(2 :: rat) powi (- 1022) \<le> 2 powi (- 3)" by (simp only: p2_le_iff)
  moreover have "(2 :: rat) powi (- 3) = 1 / 2 * (1 / 4)" by (simp add: power_int_def power_one_over)
  ultimately have "2 powi (- 1022) \<le> ?a * c" by linarith
  then have e2: "\<bar>round_mag (?a * c) - ?a * c\<bar> \<le> ?a * c / 2 ^ 53" by (rule round_mag_relative)
  have "?a * c \<le> ?a * (1 / 2)" using a1 assms(3) by (intro mult_left_mono) auto
  then have "?a * c \<le> of_int n" using a2 by linarith
  then have "?a * c / 2 ^ 53 \<le> of_int n / 2 ^ 53" by (intro divide_right_mono) simp_all
  with e2 have e3: "\<bar>round_mag (?a * c) - ?a * c\<bar> \<le> of_int n / 2 ^ 53" by (rule order.trans)
  have "\<bar>round_mag (?a * c) - of_int n * c\<bar> \<le> of_int n / 2 ^ 53 + of_int n / 2 ^ 53 * (1 / 2)"
    by (rule error_sum [OF e3 e1])
  then show ?thesis by simp
qed simp

lemma literal_three_tenths: "f64_of_rat (3 / 10) = Fin False (round_mag (3 / 10))"
proof -
  have "is_finite (f64_of_rat (3 / 10))" using f64_val_literal [of "3 / 10"] by simp
  then show ?thesis by (auto simp: f64_of_rat_def pack_def Let_def split: if_splits)
qed

lemma three_tenths_near: "\<bar>round_mag (3 / 10) - 3 / 10 :: rat\<bar> \<le> 1 / 2 ^ 54"
proof -
  have "(2 :: rat) powi (- 1022) \<le> 2 powi (- 2)" by (simp only: p2_le_iff)
  also have "(2 :: rat) powi (- 2) \<le> 3 / 10" by (simp add: power_int_def field_simps)
  finally have "\<bar>round_mag (3 / 10) - 3 / 10 :: rat\<bar> \<le> 3 / 10 / 2 ^ 53" by (rule round_mag_relative)
  then show ?thesis by simp
qed

lemma three_tenths_le_half: "round_mag (3 / 10) \<le> 1 / 2"
  and three_tenths_ge_quarter: "1 / 4 \<le> round_mag (3 / 10)"
proof -
  have "\<bar>round_mag (3 / 10) - 3 / 10 :: rat\<bar> \<le> 1 / 20" using three_tenths_near by (rule order.trans) simp
  then show "round_mag (3 / 10) \<le> 1 / 2" "1 / 4 \<le> round_mag (3 / 10)" by linarith+
qed

text \<open>With the factor 0.3: three tenths, to the nearest wei, up to the error of the floats.\<close>

lemma damp_three_tenths:
  defines "y x \<equiv> damp (Fin False (round_mag (3 / 10))) x"
  shows "\<bar>of_int (sint (y x)) - 3 / 10 * of_int (sint x) :: rat\<bar> \<le> 1 / 2 + \<bar>of_int (sint x)\<bar> / 2 ^ 52"
    "if 0 \<le> sint x then 0 \<le> sint (y x) else sint (y x) \<le> 0"
proof -
  let ?c = "round_mag (3 / 10)" and ?n = "\<bar>sint x\<bar>"
  let ?m = "round_mag (round_mag (of_int ?n) * ?c)"
  have c: "0 \<le> ?c" "?c \<le> 1 / 2" "1 / 4 \<le> ?c" using three_tenths_le_half three_tenths_ge_quarter by auto
  note v = damp_value [OF c(1,2), of x, folded y_def]
  have "\<bar>?m - of_int ?n * ?c\<bar> \<le> 3 * of_int ?n / 2 ^ 54" by (rule damped_product_error) (use c in auto)
  moreover have "\<bar>of_int ?n * ?c - of_int ?n * (3 / 10)\<bar> \<le> of_int ?n * (1 / 2 ^ 54 :: rat)"
  proof -
    have "of_int ?n * ?c - of_int ?n * (3 / 10) = of_int ?n * (?c - 3 / 10)" by (rule right_diff_distrib [symmetric])
    then have "\<bar>of_int ?n * ?c - of_int ?n * (3 / 10)\<bar> = of_int ?n * \<bar>?c - 3 / 10\<bar>" by (simp add: abs_mult)
    then show ?thesis using mult_left_mono [OF three_tenths_near, of "of_int ?n"] by simp
  qed
  moreover have "\<bar>of_int \<lfloor>?m + 1 / 2\<rfloor> - ?m\<bar> \<le> 1 / 2" by linarith
  moreover have "3 * of_int ?n / 2 ^ 54 + of_int ?n * (1 / 2 ^ 54) = (of_int ?n / 2 ^ 52 :: rat)" by simp
  ultimately have "\<bar>of_int \<lfloor>?m + 1 / 2\<rfloor> - of_int ?n * (3 / 10) :: rat\<bar> \<le> 1 / 2 + of_int ?n / 2 ^ 52"
    by (rule error_chain)
  then show "\<bar>of_int (sint (y x)) - 3 / 10 * of_int (sint x) :: rat\<bar> \<le> 1 / 2 + \<bar>of_int (sint x)\<bar> / 2 ^ 52"
    unfolding v(1) by (auto simp: abs_if algebra_simps split: if_splits)
  show "if 0 \<le> sint x then 0 \<le> sint (y x) else sint (y x) \<le> 0" using v by auto
qed

lemma damp_strict:
  assumes "\<bar>of_int y - 3 / 10 * of_int x :: rat\<bar> \<le> 1 / 2 + \<bar>of_int x\<bar> / 2 ^ 52" "x \<noteq> 0"
  shows "\<bar>y\<bar> < \<bar>x\<bar>"
proof -
  have "1 \<le> \<bar>x\<bar>" using assms(2) by linarith
  then have x: "(1 :: rat) \<le> \<bar>of_int x\<bar>" by (simp only: of_int_abs [symmetric] of_int_1_le_iff)
  have "\<bar>of_int y :: rat\<bar> < \<bar>of_int x\<bar>" using assms(1) x by (simp add: abs_if split: if_splits)
  then show ?thesis by (simp only: of_int_abs [symmetric] of_int_less_iff)
qed

text \<open>
  C32. Drift injection with the factor 0.3 of the example: the first \<open>drift_after\<close> decoded profits
  pass unchanged. Every later one becomes three tenths of itself: to the nearest wei, up to the
  rounding of the floats (one part in \<open>2 ^ 52\<close> of the amount). So every amount but zero is moved
  strictly towards zero and not past it: a profit shrinks, and so does a net loss.
\<close>

theorem drift_injection_damps:
  assumes "inner receipt logs (di_inner s) = Some (Inr (RealizedProfit x), d)"
    and "di_damping_factor s = f64_of_rat (3 / 10)"
  shows "\<exists>y s'. drift_decode_realized inner receipt logs s = Some (Inr (RealizedProfit y), s') \<and>
     di_calls_so_far s' = di_calls_so_far s + 1 \<and>
     (if di_calls_so_far s < di_drift_after s then y = x
      else \<bar>of_int (sint y) - 3 / 10 * of_int (sint x) :: rat\<bar> \<le> 1 / 2 + \<bar>of_int (sint x)\<bar> / 2 ^ 52 \<and>
        (if sint x = 0 then sint y = 0
         else if 0 < sint x then 0 \<le> sint y \<and> sint y < sint x
         else sint x < sint y \<and> sint y \<le> 0))"
proof (cases "di_calls_so_far s < di_drift_after s")
  case False
  define y where "y = damp (Fin False (round_mag (3 / 10))) x"
  note near = damp_three_tenths [of x, folded y_def]
  have "if sint x = 0 then sint y = 0
        else if 0 < sint x then 0 \<le> sint y \<and> sint y < sint x
        else sint x < sint y \<and> sint y \<le> 0"
  proof (cases "sint x = 0")
    case True
    have "\<bar>of_int (sint y) :: rat\<bar> \<le> 1 / 2" using near(1) by (simp add: True)
    then have "sint y = 0" by linarith
    with True show ?thesis by simp
  next
    case False
    then show ?thesis using damp_strict [OF near(1) False] near(2) by (auto split: if_splits)
  qed
  moreover have "drift_decode_realized inner receipt logs s =
      Some (Inr (RealizedProfit y), s\<lparr>di_inner := d, di_calls_so_far := di_calls_so_far s + 1\<rparr>)"
    using False assms by (simp add: y_def drift_decode_realized_def Let_def damp_def literal_three_tenths)
  ultimately show ?thesis using False near(1) by auto
qed (simp add: drift_decode_realized_def Let_def assms)

theorem drift_injection_damps_witness:
  "let s = (drift_injecting_new () 0 (f64_of_rat (3 / 10)));
       receipt = \<lparr>rc_tx_hash = 1, rc_block_number = 5, rc_status = TxConfirmed, rc_gas_used = 21000, rc_effective_gas_price = 10\<rparr>
   in \<exists>y s'. drift_decode_realized (\<lambda>_ _ u. Some (Inr (RealizedProfit (- 100)), u)) receipt [] s
          = Some (Inr (RealizedProfit y), s') \<and> sint y = - 30"
proof -
  have s: "sint (- 100 :: i128) = - 100" by simp
  have n: "k = - 30" if "\<bar>of_int k + 30 :: rat\<bar> * 1125899906842624 \<le> 562949953421337" for k :: int
  proof -
    have "\<bar>of_int k + 30 :: rat\<bar> \<le> 562949953421337 / 1125899906842624" using that by (simp add: pos_le_divide_eq)
    also have "\<dots> \<le> (3 / 4 :: rat)" by simp
    finally have "\<bar>of_int k + 30 :: rat\<bar> \<le> 3 / 4" .
    then have "of_int k + 30 \<le> (3 / 4 :: rat)" "- (of_int k + 30) \<le> (3 / 4 :: rat)" by (simp_all only: abs_le_iff)
    then have "of_int k < (- 29 :: rat)" "- 31 < (of_int k :: rat)" by linarith+
    then have "(of_int (- 31) :: rat) < of_int k" "(of_int k :: rat) < of_int (- 29)" by simp_all
    then show ?thesis unfolding of_int_less_iff by linarith
  qed
  show ?thesis
    using drift_injection_damps [of "\<lambda>_ _ u. Some (Inr (RealizedProfit (- 100)), u)" "\<lparr>rc_tx_hash = 1, rc_block_number = 5, rc_status = TxConfirmed, rc_gas_used = 21000, rc_effective_gas_price = 10\<rparr>" "[]"
        "drift_injecting_new () 0 (f64_of_rat (3 / 10))" "- 100" "()"]
    by (auto simp: drift_injecting_new_def Let_def s dest!: n)
qed

text \<open>A price is never negative: not a number, infinite, or a number with the sign plus.\<close>

lemma nonneg_as_f64:
  assumes "0 \<le> n" "n \<le> 2 ^ 128"
  shows "f64_of_int n = Fin False (round_mag (of_int n))"
proof -
  have "(of_int n :: rat) \<le> of_int (2 ^ 128)" using assms(2) by (simp only: of_int_le_iff)
  then have "\<bar>of_int n :: rat\<bar> \<le> 2 powi 1023"
    using p2_le_iff [of 128 1023] assms(1) by (simp add: abs_of_nonneg)
  then show ?thesis
    using not_overflowed [of "of_int n"] assms(1) by (simp add: f64_of_int_def f64_of_rat_def pack_def Let_def)
qed

lemma u128_as_f64: "\<exists>q. f64_of_int (uint (x :: u128)) = Fin False q \<and> 0 \<le> q"
proof -
  have "f64_of_int n = Fin False (round_mag (of_int n)) \<and> 0 \<le> round_mag (of_int n)" if "0 \<le> n" "n < 2 ^ 128" for n
    using that nonneg_as_f64 [of n] by simp
  then show ?thesis using uint_lt2p [of x] by fastforce
qed

lemma price_cases:
  obtains "price_token0_in_token1 p = NaN" | "price_token0_in_token1 p = Inf False"
  | q where "price_token0_in_token1 p = Fin False q" "0 \<le> q"
proof -
  obtain a b where "f64_of_int (uint (reserve1 p)) = Fin False a" "0 \<le> a"
    "f64_of_int (uint (reserve0 p)) = Fin False b" "0 \<le> b"
    using u128_as_f64 by metis
  then have "price_token0_in_token1 p =
      (if b = 0 then if a = 0 then NaN else Inf False else pack False (a / b))" "0 \<le> round_mag (a / b)"
    by (simp_all add: price_token0_in_token1_def)
  then show thesis
    using that by (cases "b = 0"; cases "a = 0"; cases "overflowed (round_mag (a / b))") (auto simp: pack_def Let_def)
qed

lemma self_divergence: "\<not> f64_lt (f64_of_rat (2 / 100)) (price_divergence a a)"
proof -
  have "f64_of_rat (2 / 100) = Fin False (round_mag (2 / 100))"
    using f64_val_literal [of "2 / 100"] by (auto simp: f64_of_rat_def pack_def Let_def split: if_splits)
  moreover have "price_divergence a a = NaN \<or> price_divergence a a = Fin False 0"
    by (cases a rule: price_cases) (auto simp: price_divergence_def f64_sub_def Let_def pack_def)
  moreover have "\<not> round_mag (2 / 100) < 0" unfolding not_less by (rule round_mag_nonneg) simp
  ultimately show ?thesis by (auto simp del: divide_numeral_1)
qed

text \<open>
  The price pre-filter does not depend on the order of the pools, not even where a reserve is
  zero and a price is infinite or not a number, and a pool never diverges from itself.
\<close>

theorem divergence_symmetric:
  "price_divergence a b = price_divergence b a \<and>
   \<not> f64_lt (f64_of_rat (2 / 100)) (price_divergence a a)"
proof
  show "price_divergence a b = price_divergence b a"
    by (cases a rule: price_cases; cases b rule: price_cases)
      (auto simp: price_divergence_def f64_sub_def Let_def)
qed (rule self_divergence)

end
