(* ===== verification/Rpc.thy ===== *)
theory Rpc
  imports Hex Rlp Poller Toy_Decoder
begin

text \<open>
  The live-network half of the example (\<^verbatim>\<open>examples/toy-arbitrage/src/rpc.rs\<close>): the JSON-RPC client,
  the forked database, the receipt source and the transaction submitter. The network is a clock and
  an oracle: the \<open>k\<close>-th request gets the \<open>k\<close>-th reply after the \<open>k\<close>-th delay. The hash, the parser of
  256-bit numbers and the signing key come from other crates and are parameters.
\<close>

section \<open>JSON and the network\<close>

text \<open>A JSON value; a number is its text, which the code never reads.\<close>

datatype Value =
    JNull
  | JBool bool
  | JNumber bytes
  | JString bytes
  | JArray "Value list"
  | JObject "(bytes \<times> Value) list"

fun json_get :: "bytes \<Rightarrow> Value \<Rightarrow> Value option" where
  "json_get key (JObject members) = map_of members key"
| "json_get key v = None"

fun as_str :: "Value \<Rightarrow> bytes option" where
  "as_str (JString s) = Some s"
| "as_str v = None"

fun as_array :: "Value \<Rightarrow> Value list option" where
  "as_array (JArray vs) = Some vs"
| "as_array v = None"

text \<open>A reply: no response, a body that is not JSON, or a JSON body.\<close>

datatype http_reply = HttpFailed bytes | BodyInvalid bytes | Body Value

record network =
  net_clock :: nat
  net_sent :: "(bytes \<times> Value) list"
  net_replies :: "nat \<Rightarrow> nat \<times> http_reply"
  net_lag :: "nat \<Rightarrow> nat"

text \<open>\<^verbatim>\<open>tokio::time::sleep\<close> returns some time after what was asked.\<close>

definition net_sleep :: "duration \<Rightarrow> network \<Rightarrow> network" where
  "net_sleep d w = w\<lparr>net_clock := net_clock w + d + net_lag w (net_clock w)\<rparr>"

type_synonym rpc_error = "Value RpcError"

record JsonRpcClient =
  client_url :: bytes

definition json_rpc_client_new :: "bytes \<Rightarrow> JsonRpcClient" where
  "json_rpc_client_new url = \<lparr>client_url = url\<rparr>"

definition client_call :: "JsonRpcClient \<Rightarrow> bytes \<Rightarrow> Value \<Rightarrow> network \<Rightarrow> (rpc_error + Value) \<times> network" where
  "client_call client rpc_method params w =
     (let body = JObject [(str ''jsonrpc'', JString (str ''2.0'')), (str ''id'', JNumber (str ''1'')),
                          (str ''method'', JString rpc_method), (str ''params'', params)];
          (delay, reply) = net_replies w (length (net_sent w));
          w' = w\<lparr>net_clock := net_clock w + delay, net_sent := net_sent w @ [(client_url client, body)]\<rparr>
      in case reply of
           HttpFailed e \<Rightarrow> (Inl (Transport (HttpCause e)), w')
         | BodyInvalid e \<Rightarrow> (Inl (Malformed e), w')
         | Body response \<Rightarrow>
             (case json_get (str ''error'') response of
                Some error \<Rightarrow> (Inl (Rpc error), w')
              | None \<Rightarrow>
                  (case json_get (str ''result'') response of
                     Some result \<Rightarrow> (Inr result, w')
                   | None \<Rightarrow> (Inl (Malformed (str ''response had neither result nor error'')), w'))))"

text \<open>
  Sequencing over the network: \<open>rpc_then\<close> is \<^verbatim>\<open>?\<close> after a call, \<open>pure_res\<close> a computation that does
  not touch the network.
\<close>

type_synonym ('e, 'a) net = "network \<Rightarrow> ('e, 'a) res \<times> network"
type_synonym 'a rpc = "(rpc_error, 'a) net"

definition rpc_then :: "('e, 'a) net \<Rightarrow> ('a \<Rightarrow> ('e, 'b) net) \<Rightarrow> ('e, 'b) net" where
  "rpc_then act k w =
     (case act w of
        (None, w') \<Rightarrow> (None, w')
      | (Some (Inl e), w') \<Rightarrow> (Some (Inl e), w')
      | (Some (Inr x), w') \<Rightarrow> k x w')"

definition rpc_call :: "JsonRpcClient \<Rightarrow> bytes \<Rightarrow> Value list \<Rightarrow> Value rpc" where
  "rpc_call client rpc_method params w =
     (let (r, w') = client_call client rpc_method (JArray params) w in (Some r, w'))"

definition pure_res :: "('e, 'a) res \<Rightarrow> ('e, 'a) net" where
  "pure_res r w = (r, w)"

text \<open>\<^verbatim>\<open>copy_from_slice\<close> into an array of 32 bytes panics on any other length.\<close>

definition copy_32 :: "bytes \<Rightarrow> ('e, hash32) res" where
  "copy_32 bs = (if length bs = 32 then Some (Inr (from_be_bytes bs)) else panic)"

section \<open>The forked database\<close>

record RpcDbFactory =
  df_client :: JsonRpcClient
  df_block_tag :: bytes

definition rpc_db_factory_new :: "JsonRpcClient \<Rightarrow> bytes \<Rightarrow> RpcDbFactory" where
  "rpc_db_factory_new client block_tag = \<lparr>df_client = client, df_block_tag = block_tag\<rparr>"

record RpcDb =
  db_client :: JsonRpcClient
  db_block_tag :: bytes
  db_code_cache :: "hash32 \<rightharpoonup> bytes"

record AccountInfo =
  ai_balance :: U256
  ai_nonce :: u64
  ai_code_hash :: hash32
  ai_code :: "bytes option"

definition fresh_db :: "RpcDbFactory \<Rightarrow> (rpc_error, RpcDb) res" where
  "fresh_db f = Some (Inr \<lparr>db_client = df_client f, db_block_tag = df_block_tag f, db_code_cache = Map.empty\<rparr>)"

text \<open>The hash of a bytecode is the keccak of its bytes.\<close>

definition db_account :: "keccak \<Rightarrow> RpcDb \<Rightarrow> U256 \<Rightarrow> u64 \<Rightarrow> bytes \<Rightarrow> AccountInfo \<times> RpcDb" where
  "db_account keccak256 db balance nonce code_bytes =
     (let code = if code_bytes = [] then None else Some code_bytes;
          db' = (case code of
                   None \<Rightarrow> db
                 | Some bytecode \<Rightarrow> db\<lparr>db_code_cache := (db_code_cache db)(keccak256 bytecode \<mapsto> bytecode)\<rparr>);
          code_hash = (case code of Some c \<Rightarrow> keccak256 c | None \<Rightarrow> keccak256 [])
      in (\<lparr>ai_balance = balance, ai_nonce = nonce, ai_code_hash = code_hash, ai_code = code\<rparr>, db'))"

definition db_basic ::
  "keccak \<Rightarrow> u256_parser \<Rightarrow> RpcDb \<Rightarrow> address20 \<Rightarrow> (AccountInfo option \<times> RpcDb) rpc" where
  "db_basic keccak256 u256_from_str_radix db address =
     (let params = [JString (address_hex address), JString (db_block_tag db)]
      in rpc_then (rpc_call (db_client db) (str ''eth_getBalance'') params) (\<lambda>balance_hex.
         rpc_then (rpc_call (db_client db) (str ''eth_getTransactionCount'') params) (\<lambda>nonce_hex.
         rpc_then (rpc_call (db_client db) (str ''eth_getCode'') params) (\<lambda>code_hex.
         rpc_then (pure_res (hex_to_u256 u256_from_str_radix (or_default (str ''0x0'') (as_str balance_hex)))) (\<lambda>balance.
         rpc_then (pure_res (hex_to_u64 (or_default (str ''0x0'') (as_str nonce_hex)))) (\<lambda>nonce.
         rpc_then (pure_res (hex_to_bytes (or_default (str ''0x'') (as_str code_hex)))) (\<lambda>code_bytes.
           pure_res (let (info, db') = db_account keccak256 db balance nonce code_bytes
                     in Some (Inr (Some info, db'))))))))))"

text \<open>The text of the error names the hash with the \<^verbatim>\<open>Display\<close> of \<^verbatim>\<open>B256\<close>, a parameter.\<close>

definition db_code_by_hash :: "(hash32 \<Rightarrow> bytes) \<Rightarrow> RpcDb \<Rightarrow> hash32 \<Rightarrow> (rpc_error, bytes) res" where
  "db_code_by_hash display db code_hash =
     (case db_code_cache db code_hash of
        Some code \<Rightarrow> Some (Inr code)
      | None \<Rightarrow> Some (Inl (Malformed (str ''code for hash '' @ display code_hash @ str '' was not seen via basic()''))))"

definition db_storage :: "u256_parser \<Rightarrow> RpcDb \<Rightarrow> address20 \<Rightarrow> U256 \<Rightarrow> U256 rpc" where
  "db_storage u256_from_str_radix db address index =
     (let slot_hex = str ''0x'' @ hex_of_nat (unat index)
      in rpc_then (rpc_call (db_client db) (str ''eth_getStorageAt'')
                     [JString (address_hex address), JString slot_hex, JString (db_block_tag db)])
           (\<lambda>value_hex. pure_res (hex_to_u256 u256_from_str_radix (or_default (str ''0x0'') (as_str value_hex)))))"

definition db_block_hash :: "RpcDb \<Rightarrow> U256 \<Rightarrow> hash32 rpc" where
  "db_block_hash db number =
     (let number_hex = str ''0x'' @ hex_of_nat (unat number)
      in rpc_then (rpc_call (db_client db) (str ''eth_getBlockByNumber'') [JString number_hex, JBool False])
           (\<lambda>block.
              case Option.bind (json_get (str ''hash'') block) as_str of
                None \<Rightarrow> pure_res (Some (Inl (Malformed (str ''block response missing hash''))))
              | Some hash_hex \<Rightarrow> pure_res (and_then (hex_to_bytes hash_hex) copy_32)))"

section \<open>Receipts\<close>

definition field_str :: "bytes \<Rightarrow> Value \<Rightarrow> bytes option" where
  "field_str key v = Option.bind (json_get key v) as_str"

definition required :: "bytes \<Rightarrow> bytes \<Rightarrow> Value \<Rightarrow> (rpc_error, bytes) res" where
  "required key message v =
     (case field_str key v of None \<Rightarrow> Some (Inl (Malformed message)) | Some s \<Rightarrow> Some (Inr s))"

definition parse_topic :: "Value \<Rightarrow> (rpc_error, hash32) res" where
  "parse_topic t = and_then (hex_to_bytes (or_default (str ''0x'') (as_str t))) copy_32"

definition parse_log :: "Value \<Rightarrow> (rpc_error, Log) res" where
  "parse_log log_json =
     and_then (hex_to_bytes (or_default (str ''0x'') (field_str (str ''address'') log_json))) (\<lambda>address.
     and_then (collect_res parse_topic
                 (or_default [] (Option.bind (json_get (str ''topics'') log_json) as_array))) (\<lambda>topics.
     and_then (hex_to_bytes (or_default (str ''0x'') (field_str (str ''data'') log_json))) (\<lambda>log_bytes.
       Some (Inr \<lparr>log_address = address, log_topics = topics, log_data = log_bytes\<rparr>))))"

definition parse_receipt :: "hash32 \<Rightarrow> Value \<Rightarrow> (rpc_error, (TxReceipt \<times> Log list) option) res" where
  "parse_receipt tx_hash result =
     (if result = JNull then Some (Inr None)
      else
        and_then (required (str ''status'') (str ''receipt missing status'') result) (\<lambda>status_hex.
        and_then (hex_to_u64 status_hex) (\<lambda>status_code.
        let status = if status_code = 1 then TxConfirmed else TxReverted in
        and_then (and_then (required (str ''blockNumber'') (str ''receipt missing blockNumber'') result) hex_to_u64)
          (\<lambda>block_number.
        and_then (and_then (required (str ''gasUsed'') (str ''receipt missing gasUsed'') result) hex_to_u64)
          (\<lambda>gas_used.
        and_then (hex_to_u128 (or_default (str ''0x0'') (field_str (str ''effectiveGasPrice'') result)))
          (\<lambda>effective_gas_price.
        and_then (collect_res parse_log
                    (or_default [] (Option.bind (json_get (str ''logs'') result) as_array)))
          (\<lambda>logs.
            Some (Inr (Some
              (\<lparr>rc_tx_hash = tx_hash, rc_block_number = block_number, rc_status = status,
                rc_gas_used = gas_used, rc_effective_gas_price = effective_gas_price\<rparr>, logs))))))))))"

definition parse_receipt_response :: "JsonRpcClient \<Rightarrow> bytes \<Rightarrow> hash32 \<Rightarrow> (TxReceipt \<times> Log list) option rpc" where
  "parse_receipt_response client hash_hex tx_hash =
     rpc_then (rpc_call client (str ''eth_getTransactionReceipt'') [JString hash_hex])
       (\<lambda>result. pure_res (parse_receipt tx_hash result))"

text \<open>
  A blocking task that panics is a \<^verbatim>\<open>JoinError\<close>, which the callers turn into a transport error.
\<close>

definition spawn_blocking :: "'a rpc \<Rightarrow> network \<Rightarrow> (rpc_error + 'a) \<times> network" where
  "spawn_blocking task w =
     (case task w of (None, w') \<Rightarrow> (Inl (Transport JoinFailed), w') | (Some r, w') \<Rightarrow> (r, w'))"

definition rpc_get_receipt :: "JsonRpcClient \<Rightarrow> (rpc_error, network) lookup" where
  "rpc_get_receipt client tx_hash =
     spawn_blocking (parse_receipt_response client (str ''0x'' @ hex_encode (to_be_bytes tx_hash)) tx_hash)"

section \<open>Transactions\<close>

record UnsignedTx =
  ut_nonce :: u64
  ut_gas_price :: u128
  ut_gas_limit :: u64
  ut_to :: address20
  ut_value :: u128
  ut_data :: bytes
  ut_chain_id :: u64

definition signing_hash :: "keccak \<Rightarrow> UnsignedTx \<Rightarrow> hash32" where
  "signing_hash keccak256 tx =
     keccak256 (encode (List
       [item_uint (ucast (ut_nonce tx)), item_uint (ut_gas_price tx), item_uint (ucast (ut_gas_limit tx)),
        item_address (ut_to tx), item_uint (ut_value tx), Bytes (ut_data tx),
        item_uint (ucast (ut_chain_id tx)), item_uint 0, item_uint 0]))"

definition eip155_v :: "profile \<Rightarrow> u64 \<Rightarrow> u8 \<Rightarrow> u64 option" where
  "eip155_v pf chain_id recovery_id =
     do { a \<leftarrow> u_mul pf chain_id 2; b \<leftarrow> u_add pf a 35; u_add pf b (ucast recovery_id) }"

definition signed_tx_rlp :: "profile \<Rightarrow> UnsignedTx \<Rightarrow> hash32 \<Rightarrow> hash32 \<Rightarrow> u8 \<Rightarrow> bytes option" where
  "signed_tx_rlp pf tx r s recovery_id =
     do { v \<leftarrow> eip155_v pf (ut_chain_id tx) recovery_id;
          Some (encode (List
            [item_uint (ucast (ut_nonce tx)), item_uint (ut_gas_price tx), item_uint (ucast (ut_gas_limit tx)),
             item_address (ut_to tx), item_uint (ut_value tx), Bytes (ut_data tx),
             item_uint (ucast v), big_uint_bytes (to_be_bytes r), big_uint_bytes (to_be_bytes s)])) }"

text \<open>
  The \<^verbatim>\<open>k256\<close> signing key: signing, low-S normalisation (nothing when \<open>s\<close> is low already), and the
  byte of a recovery id with its two flags.
\<close>

record signature =
  sig_r :: hash32
  sig_s :: hash32

record recovery_id =
  ri_is_y_odd :: bool
  ri_is_x_reduced :: bool

record signing_key =
  sk_sign_prehash :: "hash32 \<Rightarrow> bytes + (signature \<times> recovery_id)"
  sk_normalize_s :: "signature \<Rightarrow> signature option"
  sk_recovery_byte :: "recovery_id \<Rightarrow> u8"

definition sign_normalized :: "signing_key \<Rightarrow> hash32 \<Rightarrow> rpc_error + (signature \<times> recovery_id)" where
  "sign_normalized key hash =
     (case sk_sign_prehash key hash of
        Inl e \<Rightarrow> Inl (Malformed (str ''signing failed: '' @ e))
      | Inr (sig, rid) \<Rightarrow>
          (case sk_normalize_s key sig of
             Some normalized \<Rightarrow>
               Inr (normalized, \<lparr>ri_is_y_odd = \<not> ri_is_y_odd rid, ri_is_x_reduced = ri_is_x_reduced rid\<rparr>)
           | None \<Rightarrow> Inr (sig, rid)))"

record RpcTxSubmitter =
  sub_client :: JsonRpcClient
  sub_signing_key :: signing_key

definition rpc_tx_submitter_new :: "JsonRpcClient \<Rightarrow> signing_key \<Rightarrow> RpcTxSubmitter" where
  "rpc_tx_submitter_new client signing_key = \<lparr>sub_client = client, sub_signing_key = signing_key\<rparr>"

definition send_raw :: "JsonRpcClient \<Rightarrow> bytes \<Rightarrow> hash32 rpc" where
  "send_raw client raw =
     rpc_then (rpc_call client (str ''eth_sendRawTransaction'') [JString (str ''0x'' @ hex_encode raw)])
       (\<lambda>result.
          case as_str result of
            None \<Rightarrow> pure_res (Some (Inl (Malformed (str ''eth_sendRawTransaction did not return a tx hash''))))
          | Some hash_hex \<Rightarrow> pure_res (and_then (hex_to_bytes hash_hex) copy_32))"

definition submit :: "keccak \<Rightarrow> profile \<Rightarrow> RpcTxSubmitter \<Rightarrow> UnsignedTx \<Rightarrow> hash32 rpc" where
  "submit keccak256 pf sub tx w =
     (case sign_normalized (sub_signing_key sub) (signing_hash keccak256 tx) of
        Inl e \<Rightarrow> (Some (Inl e), w)
      | Inr (sig, rid) \<Rightarrow>
          (case signed_tx_rlp pf tx (sig_r sig) (sig_s sig) (sk_recovery_byte (sub_signing_key sub) rid) of
             None \<Rightarrow> (None, w)
           | Some raw \<Rightarrow>
               let (res, w') = spawn_blocking (send_raw (sub_client sub) raw) w in (Some res, w')))"

end
