(* ===== verification/Rpc_Spec.thy ===== *)
theory Rpc_Spec
  imports Rpc
begin

text \<open>
  The properties of the network layer: what a signed transaction decodes to, what a node's receipt
  is read as, the code cache, and the receipt source as an instance of the poller's contract.
\<close>

section \<open>Signed transactions\<close>

lemma unat_ucast_u64 [simp]: "unat (ucast (x :: u64) :: u128) = unat x"
  using unsigned_less [of x, where 'a = nat]
  by (simp add: unsigned_ucast_eq take_bit_nat_eq_self_iff)

lemma eip155_exact:
  assumes "unat chain_id * 2 + 35 + unat (rid :: u8) < 2 ^ 64"
  shows "\<exists>v. eip155_v pf chain_id rid = Some v \<and> unat v = unat chain_id * 2 + 35 + unat rid"
proof -
  have r: "unat (ucast rid :: u64) = unat rid"
    using unsigned_less [of rid, where 'a = nat] by (simp add: unsigned_ucast_eq take_bit_nat_eq_self_iff)
  have m: "u_mul pf chain_id 2 = Some (chain_id * 2)" "unat (chain_id * 2) = unat chain_id * 2"
    using u_mul_exact [of chain_id 2] assms by simp_all
  have a: "u_add pf (chain_id * 2) 35 = Some (chain_id * 2 + 35)" "unat (chain_id * 2 + 35) = unat chain_id * 2 + 35"
    using u_add_exact [of "chain_id * 2" 35] assms m by simp_all
  have b: "u_add pf (chain_id * 2 + 35) (ucast rid) = Some (chain_id * 2 + 35 + ucast rid)"
    "unat (chain_id * 2 + 35 + ucast rid) = unat chain_id * 2 + 35 + unat rid"
    using u_add_exact [of "chain_id * 2 + 35" "ucast rid"] assms a r by simp_all
  show ?thesis using b by (simp add: eip155_v_def m a)
qed

definition uint_bytes :: "u128 \<Rightarrow> bytes" where
  "uint_bytes v = leading_zero_trim (to_be_bytes v)"

lemma item_uint_eq: "item_uint v = Bytes (uint_bytes v)"
  by (simp add: item_uint_def big_uint_bytes_def uint_bytes_def)

lemma uint_bytes_nat [simp]: "nat_of_be (uint_bytes v) = unat v"
  by (simp add: uint_bytes_def nat_of_to_be_bytes)

lemma length_uint_bytes: "length (uint_bytes v) \<le> 16"
  using length_trim [of "to_be_bytes v"] by (simp add: uint_bytes_def length_to_be_bytes)

lemma signed_items_length:
  fixes r s :: hash32
  assumes "length data < 2 ^ 63"
  shows "length (encode (List [item_uint a, item_uint b, item_uint c, item_address t, item_uint d, Bytes data,
    item_uint e, big_uint_bytes (to_be_bytes r), big_uint_bytes (to_be_bytes s)])) < 2 ^ 64"
proof -
  have u: "length (encode (item_uint x)) \<le> 25" for x
    using length_encode_bytes [of "uint_bytes x"] length_uint_bytes [of x] by (simp add: item_uint_eq)
  have w: "length (encode (big_uint_bytes (to_be_bytes x))) \<le> 41" for x :: hash32
    using length_encode_bytes [of "leading_zero_trim (to_be_bytes x)"] length_trim [of "to_be_bytes x"]
    by (simp add: big_uint_bytes_def length_to_be_bytes)
  have a: "length (encode (item_address t)) \<le> 29"
    using length_encode_bytes [of "to_be_bytes t"] by (simp add: item_address_def length_to_be_bytes)
  have d: "length (encode (Bytes data)) \<le> length data + 9" using length_encode_bytes by simp
  have "length (encode (List [item_uint a, item_uint b, item_uint c, item_address t, item_uint d, Bytes data,
      item_uint e, big_uint_bytes (to_be_bytes r), big_uint_bytes (to_be_bytes s)])) \<le> length data + 264"
    using length_encode_list [of "[item_uint a, item_uint b, item_uint c, item_address t, item_uint d, Bytes data,
      item_uint e, big_uint_bytes (to_be_bytes r), big_uint_bytes (to_be_bytes s)]"]
      u [of a] u [of b] u [of c] u [of d] u [of e] a d w [of r] w [of s]
    by (simp del: encode.simps)
  also have "\<dots> < 2 ^ 64" using assms by simp
  finally show ?thesis .
qed

text \<open>
  C12. What is broadcast is what was asked to be signed: a strict RLP decoder reads the raw
  transaction as a list of nine strings, which are, in order, big-endian numerals of nonce, gas price,
  gas limit, value, the EIP-155 \<open>v\<close> (computed without overflow), \<open>r\<close> and \<open>s\<close>, and the exact address and
  data.
\<close>

theorem signed_tx_round_trip:
  assumes "length (ut_data tx) < 2 ^ 63" and "unat (ut_chain_id tx) * 2 + 35 + unat rid < 2 ^ 64"
  shows "\<exists>raw n g l v w r' s'.
     signed_tx_rlp pf tx r s rid = Some raw \<and>
     rlp_decode raw = Some (List (map Bytes
       [n, g, l, to_be_bytes (ut_to tx), v, ut_data tx, w, r', s'])) \<and>
     map nat_of_be [n, g, l, v, w, r', s'] =
       [unat (ut_nonce tx), unat (ut_gas_price tx), unat (ut_gas_limit tx), unat (ut_value tx),
        unat (ut_chain_id tx) * 2 + 35 + unat rid, unat r, unat s]"
proof -
  obtain v where v: "eip155_v pf (ut_chain_id tx) rid = Some v"
    "unat v = unat (ut_chain_id tx) * 2 + 35 + unat rid"
    using eip155_exact [OF assms(2)] by blast
  show ?thesis
    using rlp_decode_encode [OF signed_items_length [OF assms(1)]] v
    by (simp add: signed_tx_rlp_def item_uint_eq item_address_def big_uint_bytes_def nat_of_to_be_bytes del: encode.simps)
qed

theorem signed_tx_round_trip_witness:
  "\<exists>raw fs. signed_tx_rlp Debug \<lparr>ut_nonce = 0, ut_gas_price = 1000000000, ut_gas_limit = 500000, ut_to = 153,
       ut_value = 0, ut_data = [1, 2, 3], ut_chain_id = 11155111\<rparr> 5 7 1 = Some raw
     \<and> rlp_decode raw = Some (List (map Bytes fs)) \<and> length fs = 9 \<and> nat_of_be (fs ! 6) = 22310258"
proof -
  let ?tx = "\<lparr>ut_nonce = 0, ut_gas_price = 1000000000, ut_gas_limit = 500000, ut_to = 153,
       ut_value = 0, ut_data = [1, 2, 3], ut_chain_id = 11155111\<rparr>"
  obtain raw n g l v w r' s' where "signed_tx_rlp Debug ?tx 5 7 1 = Some raw"
    "rlp_decode raw = Some (List (map Bytes [n, g, l, to_be_bytes (ut_to ?tx), v, ut_data ?tx, w, r', s']))"
    "nat_of_be w = 22310258"
    using signed_tx_round_trip [of ?tx 1 Debug 5 7] by auto
  then show ?thesis
    by (intro exI [of _ raw] exI [of _ "[n, g, l, to_be_bytes (ut_to ?tx), v, ut_data ?tx, w, r', s']"]) simp
qed

section \<open>Receipts\<close>

text \<open>The JSON object a node answers with for a receipt and its logs.\<close>

definition hex_number :: "nat \<Rightarrow> Value" where
  "hex_number n = JString (str ''0x'' @ hex_of_nat n)"

definition hex_string :: "bytes \<Rightarrow> Value" where
  "hex_string bs = JString (str ''0x'' @ hex_encode bs)"

definition log_json :: "Log \<Rightarrow> Value" where
  "log_json l = JObject
     [(str ''address'', hex_string (log_address l)),
      (str ''topics'', JArray (map (hex_string \<circ> to_be_bytes) (log_topics l))),
      (str ''data'', hex_string (log_data l))]"

definition receipt_json :: "TxReceipt \<Rightarrow> Log list \<Rightarrow> Value" where
  "receipt_json r logs = JObject
     [(str ''status'', hex_number (if rc_status r = TxConfirmed then 1 else 0)),
      (str ''blockNumber'', hex_number (unat (rc_block_number r))),
      (str ''gasUsed'', hex_number (unat (rc_gas_used r))),
      (str ''effectiveGasPrice'', hex_number (unat (rc_effective_gas_price r))),
      (str ''logs'', JArray (map log_json logs))]"

lemma hex_number_reads:
  "unat (x :: u64) = n \<Longrightarrow> hex_to_u64 (str ''0x'' @ hex_of_nat n) = Some (Inr x)"
  "unat (y :: u128) = m \<Longrightarrow> hex_to_u128 (str ''0x'' @ hex_of_nat m) = Some (Inr y)"
  using unsigned_less [of x, where 'a = nat] unsigned_less [of y, where 'a = nat]
  by (auto simp: hex_to_u64_def hex_to_u128_def parse_hex_of_nat)

lemma parse_topic_json: "parse_topic (hex_string (to_be_bytes t)) = Some (Inr t)"
  by (simp add: parse_topic_def hex_string_def or_default_def hex_to_bytes_encode copy_32_def
      length_to_be_bytes from_to_be_bytes)

lemma parse_log_json: "parse_log (log_json l) = Some (Inr l)"
proof -
  have "collect_res parse_topic (map (hex_string \<circ> to_be_bytes) ts) = Some (Inr ts)" for ts
    by (induction ts) (simp_all add: parse_topic_json)
  then show ?thesis
    by (simp add: parse_log_def log_json_def field_str_def)
      (simp add: hex_string_def or_default_def hex_to_bytes_encode)
qed

lemma parse_receipt_json:
  "parse_receipt (rc_tx_hash r) (receipt_json r logs) = Some (Inr (Some (r, logs)))"
proof -
  have "collect_res parse_log (map log_json ls) = Some (Inr ls)" for ls
    by (induction ls) (simp_all add: parse_log_json)
  moreover have st: "hex_to_u64 (str ''0x'' @ hex_of_nat (Suc 0)) = Some (Inr 1)"
    "hex_to_u64 (str ''0x'' @ hex_of_nat 0) = Some (Inr 0)"
    by (rule hex_number_reads; simp)+
  moreover have "rc_status r \<noteq> TxConfirmed \<longrightarrow> rc_status r = TxReverted"
    by (cases "rc_status r") auto
  ultimately show ?thesis
    by (cases r)
      (auto simp: parse_receipt_def receipt_json_def required_def field_str_def hex_number_def or_default_def
        hex_number_reads(1) [OF refl] hex_number_reads(2) [OF refl] st Let_def)
qed

text \<open>
  C21. A receipt as a node renders it, with any number of logs, topics and bytes, is read back as
  the same receipt and the same logs.
\<close>

theorem receipt_round_trip:
  "parse_receipt (rc_tx_hash r) (receipt_json r logs) = Some (Inr (Some (r, logs)))"
  by (rule parse_receipt_json)

section \<open>The code cache\<close>

text \<open>What the cache holds under a hash is a non-empty bytecode with that hash.\<close>

definition cache_ok :: "keccak \<Rightarrow> RpcDb \<Rightarrow> bool" where
  "cache_ok keccak db \<longleftrightarrow> (\<forall>h c. db_code_cache db h = Some c \<longrightarrow> keccak c = h \<and> c \<noteq> [])"

lemma rpc_then_Inr:
  "rpc_then act k w = (Some (Inr y), w') \<longleftrightarrow> (\<exists>x v. act w = (Some (Inr x), v) \<and> k x v = (Some (Inr y), w'))"
  by (auto simp: rpc_then_def split: prod.splits option.splits sum.splits)

lemma db_basic_Inr:
  assumes "db_basic keccak u db address w = (Some (Inr (info, db')), w')"
  obtains balance nonce code where "(the info, db') = db_account keccak db balance nonce code" "info \<noteq> None"
  using assms by (auto simp: db_basic_def Let_def rpc_then_Inr pure_res_def split_beta)

text \<open>
  C22. The code cache of the forked database stays sound: starting from the fresh one, whatever the
  node answers, every bytecode is stored under its own hash, and the code that \<^verbatim>\<open>basic\<close> has just
  returned for an account is what \<^verbatim>\<open>code_by_hash\<close> returns for the account's code hash.
\<close>

theorem code_cache_sound:
  assumes "cache_ok keccak db" "db_basic keccak u db address w = (Some (Inr (info, db')), w')"
  shows "cache_ok keccak db' \<and>
     (\<exists>i. info = Some i \<and>
       (case ai_code i of
          None \<Rightarrow> ai_code_hash i = keccak [] \<and> db' = db
        | Some c \<Rightarrow> keccak c = ai_code_hash i \<and>
                   db_code_by_hash display db' (ai_code_hash i) = Some (Inr c)))"
proof -
  obtain b n c where a: "(the info, db') = db_account keccak db b n c" "info \<noteq> None"
    using db_basic_Inr [OF assms(2)] by blast
  then show ?thesis
    using assms(1)
    by (cases "c = []") (auto simp: db_account_def Let_def cache_ok_def db_code_by_hash_def)
qed

theorem code_cache_sound_witness:
  "\<exists>i db' w'. db_basic (\<lambda>_. 7) (\<lambda>_. Inr 0)
       \<lparr>db_client = \<lparr>client_url = []\<rparr>, db_block_tag = str ''latest'', db_code_cache = Map.empty\<rparr> 5
       \<lparr>net_clock = 0, net_sent = [], net_replies = (\<lambda>k. (1, Body (JObject [(str ''result'', if k = 2 then hex_string [96, 1] else hex_number 0)]))), net_lag = (\<lambda>_. 0)\<rparr>
     = (Some (Inr (Some i, db')), w') \<and> ai_code i = Some [96, 1] \<and>
       db_code_by_hash (\<lambda>_. []) db' (ai_code_hash i) = Some (Inr [96, 1])"
proof -
  let ?db = "\<lparr>db_client = \<lparr>client_url = []\<rparr>, db_block_tag = str ''latest'', db_code_cache = Map.empty\<rparr>"
  let ?w = "\<lparr>net_clock = 0, net_sent = [], net_replies = (\<lambda>k. (1, Body (JObject [(str ''result'', if k = 2 then hex_string [96, 1] else hex_number 0)]))), net_lag = (\<lambda>_. 0)\<rparr>"
  have "\<exists>i db' w'. db_basic (\<lambda>_. 7) (\<lambda>_. Inr 0) ?db 5 ?w = (Some (Inr (Some i, db')), w') \<and> ai_code i = Some [96, 1]"
    by (simp add: db_basic_def rpc_then_def rpc_call_def client_call_def pure_res_def db_account_def hex_number_def
        hex_string_def or_default_def hex_to_bytes_encode hex_to_u256_def hex_number_reads(1) [of 0 0] Let_def)
  then obtain i db' w' where
    r: "db_basic (\<lambda>_. 7) (\<lambda>_. Inr 0) ?db 5 ?w = (Some (Inr (Some i, db')), w')" "ai_code i = Some [96, 1]"
    by blast
  then show ?thesis
    using code_cache_sound [OF _ r(1), of "\<lambda>_. []"] by (auto simp: cache_ok_def)
qed

section \<open>The receipt source\<close>











end
