(* ===== verification/Decimal.thy ===== *)
theory Decimal
  imports Hex
begin

text \<open>
  Decimal text of the standard library, as the command lines read it and the programs print it:
  \<^verbatim>\<open>parse::<u64>\<close> and \<^verbatim>\<open>parse::<f64>\<close>, the formats of integers, \<^verbatim>\<open>{}\<close> of a float (the shortest digits
  that read back as the same number) and \<^verbatim>\<open>{:.n}\<close> (a fixed number of places). The main lemma:
  reading what \<^verbatim>\<open>{}\<close> prints gives the number.
\<close>

section \<open>Digits\<close>

definition is_digit :: "u8 \<Rightarrow> bool" where
  "is_digit b \<longleftrightarrow> 48 \<le> unat b \<and> unat b \<le> 57"

definition digit_of :: "nat \<Rightarrow> u8" where
  "digit_of d = word_of_nat (48 + d)"

fun dec_nat :: "nat \<Rightarrow> bytes" where
  "dec_nat n = (if n < 10 then [digit_of n] else dec_nat (n div 10) @ [digit_of (n mod 10)])"

declare dec_nat.simps [simp del]

definition digits_value :: "bytes \<Rightarrow> nat" where
  "digits_value ds = foldl (\<lambda>acc b. 10 * acc + (unat b - 48)) 0 ds"

lemma digit_of [simp]:
  assumes "d < 10"
  shows "unat (digit_of d) = 48 + d" "is_digit (digit_of d)"
  using assms by (simp_all add: digit_of_def is_digit_def unat_of_nat del: of_nat_add)

lemma digits_value_simps [simp]:
  "digits_value [] = 0" "digits_value (ds @ [b]) = 10 * digits_value ds + (unat b - 48)"
  by (simp_all add: digits_value_def)

lemma digits_value_zeros [simp]: "digits_value (ds @ replicate n 48) = digits_value ds * 10 ^ n"
proof (induction n)
  case (Suc n)
  have "digits_value (ds @ replicate (Suc n) 48) = digits_value ((ds @ replicate n 48) @ [48])"
    by (simp add: replicate_append_same)
  then show ?case using Suc by (simp only: digits_value_simps) simp
qed simp

lemma digits_value_leading [simp]: "digits_value (replicate n 48 @ ds) = digits_value ds"
proof (induction ds rule: rev_induct)
  case Nil then show ?case using digits_value_zeros [of "[]" n] by simp
next
  case (snoc b ds) then show ?case by (simp flip: append_assoc)
qed

lemma dec_nat_value [simp]: "digits_value (dec_nat n) = n"
  by (induction n rule: dec_nat.induct) (subst dec_nat.simps, auto simp: digits_value_def)

lemma dec_nat_digits: "list_all is_digit (dec_nat n)"
  by (induction n rule: dec_nat.induct) (subst dec_nat.simps, auto)

lemma dec_nat_not_Nil [simp]: "dec_nat n \<noteq> []"
  by (subst dec_nat.simps) simp

lemma dec_nat_length:
  assumes "0 < n"
  shows "10 ^ (length (dec_nat n) - 1) \<le> n" and "n < 10 ^ length (dec_nat n)"
proof -
  have "10 ^ (length (dec_nat n) - 1) \<le> n \<and> n < 10 ^ length (dec_nat n)"
    using assms
  proof (induction n rule: dec_nat.induct)
    case (1 n)
    show ?case
    proof (cases "n < 10")
      case False
      then have IH: "10 ^ (length (dec_nat (n div 10)) - 1) \<le> n div 10" "n div 10 < 10 ^ length (dec_nat (n div 10))"
        using "1.IH" by auto
      have "length (dec_nat (n div 10)) = Suc (length (dec_nat (n div 10)) - 1)" by (simp add: Suc_diff_1)
      then have "(10::nat) ^ length (dec_nat (n div 10)) = 10 * 10 ^ (length (dec_nat (n div 10)) - 1)"
        by (metis power_Suc)
      also have "\<dots> \<le> n" using IH(1) by linarith
      finally show ?thesis using False IH(2) by (subst (1 2) dec_nat.simps) auto
    qed (use 1 in \<open>simp add: dec_nat.simps\<close>)
  qed
  then show "10 ^ (length (dec_nat n) - 1) \<le> n" and "n < 10 ^ length (dec_nat n)" by auto
qed

section \<open>Integers\<close>

fun dec_digits :: "nat \<Rightarrow> nat \<Rightarrow> bytes \<Rightarrow> ParseIntError + nat" where
  "dec_digits bound acc [] = Inr acc"
| "dec_digits bound acc (b # bs) =
     (if unat b < 48 \<or> 57 < unat b then Inl InvalidDigit
      else let d = unat b - 48
           in if bound \<le> acc * 10 + d then Inl PosOverflow else dec_digits bound (acc * 10 + d) bs)"

text \<open>\<^verbatim>\<open>str::parse::<u64>\<close>.\<close>

definition parse_u64 :: "bytes \<Rightarrow> ParseIntError + u64" where
  "parse_u64 s =
     (if s = [] then Inl EmptyNumber
      else if s = str ''+'' \<or> s = str ''-'' then Inl InvalidDigit
      else map_sum id word_of_nat (dec_digits (2 ^ 64) 0 (if hd s = 43 then tl s else s)))"

definition ok_u64 :: "bytes \<Rightarrow> u64 option" where
  "ok_u64 s = (case parse_u64 s of Inl e \<Rightarrow> None | Inr v \<Rightarrow> Some v)"

text \<open>\<^verbatim>\<open>usize\<close> has 64 bits.\<close>

definition ok_usize :: "bytes \<Rightarrow> nat option" where
  "ok_usize s = map_option unat (ok_u64 s)"

lemma dec_digits_value:
  assumes "list_all is_digit ds" "foldl (\<lambda>acc b. 10 * acc + (unat b - 48)) acc ds < bound"
  shows "dec_digits bound acc ds = Inr (foldl (\<lambda>acc b. 10 * acc + (unat b - 48)) acc ds)"
proof -
  have ge: "a \<le> foldl (\<lambda>acc b. 10 * acc + (unat b - 48)) a bs" for a :: nat and bs :: bytes
  proof (induction bs arbitrary: a)
    case (Cons b bs)
    from Cons [of "10 * a + (unat b - 48)"] show ?case by simp
  qed simp
  show ?thesis using assms
  proof (induction ds arbitrary: acc)
    case (Cons b ds)
    then have "\<not> bound \<le> acc * 10 + (unat b - 48)"
      using ge [of "10 * acc + (unat b - 48)" ds] by (simp add: mult.commute)
    then show ?case using Cons by (simp add: is_digit_def Let_def mult.commute not_less)
  qed simp
qed

lemma ok_u64_dec_nat [simp]: "ok_u64 (dec_nat (unat n)) = Some n"
proof -
  have "dec_digits (2 ^ 64) 0 (dec_nat (unat n)) = Inr (unat n)"
    using dec_digits_value [OF dec_nat_digits, of 0 "unat n" "2 ^ 64"] unsigned_less [of n]
      dec_nat_value [of "unat n"] by (simp add: digits_value_def)
  moreover have "\<not> list_all is_digit (str ''+'')" "\<not> list_all is_digit (str ''-'')" "\<not> is_digit 43"
    by (simp_all add: str_def is_digit_def)
  then have "dec_nat (unat n) \<noteq> str ''+''" "dec_nat (unat n) \<noteq> str ''-''" "hd (dec_nat (unat n)) \<noteq> 43"
    using dec_nat_digits [of "unat n"] by (metis, metis, cases "dec_nat (unat n)") auto
  ultimately show ?thesis by (simp add: ok_u64_def parse_u64_def)
qed

lemma ok_usize_dec_nat [simp]: "n < 2 ^ 64 \<Longrightarrow> ok_usize (dec_nat n) = Some n"
  using ok_u64_dec_nat [of "word_of_nat n"] by (simp add: ok_usize_def unat_of_nat)

text \<open>A value on the command line is the argument after the first occurrence of its flag.\<close>

fun arg_after :: "bytes \<Rightarrow> bytes list \<Rightarrow> bytes option" where
  "arg_after flag [] = None"
| "arg_after flag (a # rest) =
     (if a = flag then (case rest of [] \<Rightarrow> None | v # vs \<Rightarrow> Some v) else arg_after flag rest)"

section \<open>The shortest digits\<close>

text \<open>The exponent of the first digit of a positive number.\<close>

definition dec_exp :: "rat \<Rightarrow> int" where
  "dec_exp q =
     (if 1 \<le> q then int (length (dec_nat (nat \<lfloor>q\<rfloor>))) - 1
      else - int (length (dec_nat (nat (\<lceil>1 / q\<rceil> - 1)))))"

text \<open>
  Digits are added until the number cut off there, or the one a unit above, rounds to \<^term>\<open>q\<close>; of
  the two the closer is taken, the upper one when they are equally close. Seventeen digits are
  always enough.
\<close>

fun shortest_digits :: "nat \<Rightarrow> rat \<Rightarrow> int \<Rightarrow> nat \<times> int" where
  "shortest_digits n q e =
     (let u = 10 powi e; m = nat \<lfloor>q / u\<rfloor>; down = (round_mag (of_nat m * u) = q);
          up = (round_mag (of_nat (m + 1) * u) = q)
      in if up \<and> (\<not> down \<or> u \<le> 2 * (q - of_nat m * u)) then (if m + 1 = 10 then (1, e + 1) else (m + 1, e))
         else if down then (m, e)
         else case n of 0 \<Rightarrow> (m, e) | Suc n' \<Rightarrow> shortest_digits n' q (e - 1))"

declare shortest_digits.simps [simp del]

lemma dec_exp_le:
  assumes "0 < q"
  shows "10 powi (dec_exp q) \<le> q"
proof (cases "1 \<le> q")
  case True
  let ?n = "nat \<lfloor>q\<rfloor>"
  have n: "0 < ?n" using True by simp
  have "(10::rat) ^ (length (dec_nat ?n) - 1) = of_nat (10 ^ (length (dec_nat ?n) - 1))" by simp
  also have "\<dots> \<le> of_nat ?n" using dec_nat_length(1) [OF n] by (simp only: of_nat_le_iff)
  also have "\<dots> \<le> q" using True by simp
  finally have "(10::rat) powi int (length (dec_nat ?n) - 1) \<le> q" by simp
  moreover have "int (length (dec_nat ?n)) - 1 = int (length (dec_nat ?n) - 1)"
    by (cases "dec_nat ?n") auto
  ultimately show ?thesis using True by (simp only: dec_exp_def if_True)
next
  case False
  let ?n = "nat (\<lceil>1 / q\<rceil> - 1)"
  have "1 < 1 / q" using False assms by simp
  then have n: "0 < ?n" by linarith
  have "1 / q \<le> of_int \<lceil>1 / q\<rceil>" by (rule le_of_int_ceiling)
  also have "\<lceil>1 / q\<rceil> = int (?n + 1)" using n by linarith
  also have "rat_of_int (int (?n + 1)) = of_nat (?n + 1)" by (rule of_int_of_nat_eq)
  also have "\<dots> \<le> of_nat (10 ^ length (dec_nat ?n))"
    using dec_nat_length(2) [OF n] by (simp only: of_nat_le_iff)
  finally have "1 / q \<le> 10 ^ length (dec_nat ?n)" by simp
  then show ?thesis using False assms by (simp add: dec_exp_def power_int_def field_simps)
qed

text \<open>Numbers close to a float round to it.\<close>

lemma round_half_even_near: "\<bar>y - of_int k\<bar> < 1 / 2 \<Longrightarrow> round_half_even y = k"
  using round_half_even_error [of y] by linarith

lemma round_mag_at:
  assumes "0 < x" "q = of_int k * 2 powi (ulp_exp x)" "\<bar>x - q\<bar> < 2 powi (ulp_exp x) / 2"
  shows "round_mag x = q"
proof -
  let ?u = "(2::rat) powi (ulp_exp x)"
  have "\<bar>x / ?u - of_int k\<bar> = \<bar>x - q\<bar> / ?u" by (simp add: assms(2) abs_divide field_simps flip: diff_divide_distrib)
  also have "\<dots> < 1 / 2" using assms(3) by (simp add: divide_less_eq)
  finally show ?thesis using assms(1,2) round_half_even_near by (simp add: round_mag_def Let_def)
qed

lemma p2_multiple:
  assumes "e \<le> k"
  obtains n :: int where "(2::rat) powi k = of_int n * 2 powi e"
proof -
  have "(2::rat) powi k = of_int (2 ^ nat (k - e)) * 2 powi e"
    using assms p2_add [of "k - e" e] by (simp add: power_int_nonneg_exp)
  then show ?thesis by (rule that)
qed

lemma round_mag_near:
  assumes "0 < q" "round_mag q = q" "\<bar>x - q\<bar> < q * 2 powi (- 54)"
  shows "round_mag x = q"
proof -
  define b where "b = ilog2 q"
  note lb = ilog2_bounds [OF assms(1), folded b_def]
  let ?U = "(2::rat) powi (ulp_exp q)"
  obtain k where k: "q = of_int k * ?U" "- 1074 \<le> ulp_exp q"
    using round_mag_form [OF assms(1)] assms(2) by metis
  have E: "ulp_exp q = max (b - 52) (- 1074)" by (simp add: ulp_exp_def b_def)
  have "0 < of_int k * ?U" using assms(1) k(1) by metis
  then have "1 \<le> k" using p2_pos [of "ulp_exp q"] by (auto simp: zero_less_mult_iff)
  then have "(1::rat) \<le> of_int k" by simp
  then have "?U \<le> q" using mult_right_mono [of 1 "of_int k" ?U] k(1) p2_nonneg by (metis mult_1)
  then have "(2::rat) powi ulp_exp q < 2 powi (b + 1)" using lb(2) by (rule le_less_trans)
  then have Eb: "ulp_exp q \<le> b" by (simp only: p2_less_iff)
  have x0: "0 < x" and near: "\<bar>x - q\<bar> < 2 powi (b - 53)"
  proof -
    have "q * 2 powi (- 54) < 2 powi (b + 1) * 2 powi (- 54)" using lb(2) by (intro mult_strict_right_mono) auto
    also have "\<dots> = 2 powi (b - 53)" by (simp only: p2_add [symmetric]) simp
    finally show "\<bar>x - q\<bar> < 2 powi (b - 53)" using assms(3) by (rule less_trans [rotated])
    have "q * 2 powi (- 54) \<le> q * 1" using assms(1) by (intro mult_left_mono) (auto simp: power_int_def power_le_one)
    then show "0 < x" using assms(3) by linarith
  qed
  have half: "(2::rat) powi (b - 53) \<le> ?U / 2"
  proof -
    have "(2::rat) powi (b - 53) \<le> 2 powi (ulp_exp q - 1)" by (subst p2_le_iff) (simp add: E)
    then show ?thesis by (simp add: p2_diff)
  qed
  obtain n1 where n1: "(2::rat) powi (b + 1) = of_int n1 * ?U" using Eb by (auto intro: p2_multiple [of "ulp_exp q" "b + 1"])
  obtain n0 where n0: "(2::rat) powi b = of_int n0 * ?U" using Eb by (rule p2_multiple)
  have "of_int k * ?U < of_int n1 * ?U" using lb(2) unfolding n1 k(1) [symmetric] .
  then have "k < n1" by simp
  then have "of_int k * ?U + ?U \<le> of_int n1 * ?U"
    using mult_right_mono [of "of_int (k + 1)" "of_int n1" ?U] by (simp add: algebra_simps)
  then have "q + ?U \<le> 2 powi (b + 1)" unfolding k(1) [symmetric] n1 [symmetric] .
  moreover have "0 < ?U" by simp
  ultimately have hi: "x < 2 powi (b + 1)" using near half by linarith
  show ?thesis
  proof (cases "2 powi b \<le> x")
    case True
    then have "ilog2 x = ilog2 q" using hi unfolding b_def by (rule ilog2_eqI)
    then have "ulp_exp x = ulp_exp q" by (simp only: ulp_exp_def)
    then show ?thesis using x0 k(1) near half by (intro round_mag_at) auto
  next
    case False
    have "q = 2 powi b"
    proof (rule ccontr)
      assume "q \<noteq> 2 powi b"
      then have "2 powi b < q" using lb(1) by simp
      then have "of_int n0 * ?U < of_int k * ?U" unfolding n0 k(1) [symmetric] .
      then have "n0 < k" by simp
      then have "of_int n0 * ?U + ?U \<le> of_int k * ?U"
        using mult_right_mono [of "of_int (n0 + 1)" "of_int k" ?U] by (simp add: algebra_simps)
      then have "2 powi b + ?U \<le> q" unfolding k(1) [symmetric] n0 [symmetric] .
      then show False using near half False \<open>0 < ?U\<close> by linarith
    qed
    have "(2::rat) powi b * 2 powi (- 54) = 2 powi (b - 54)" by (simp only: p2_add [symmetric]) simp
    then have near': "\<bar>x - q\<bar> < 2 powi (b - 54)" using assms(3) \<open>q = 2 powi b\<close> by metis
    have "(2::rat) powi (b - 54) \<le> 2 powi (b - 1)" by (subst p2_le_iff) simp
    moreover have "(2::rat) powi b = 2 * 2 powi (b - 1)" by (simp add: p2_diff)
    ultimately have "2 powi (b - 1) \<le> x" using near' \<open>q = 2 powi b\<close> by linarith
    then have ex: "ulp_exp x = max (b - 53) (- 1074)"
      using False ilog2_eqI [of "b - 1" x] by (simp add: ulp_exp_def)
    have "ulp_exp x \<le> b" using ex Eb E by auto
    then obtain n where n: "(2::rat) powi b = of_int n * 2 powi (ulp_exp x)" by (rule p2_multiple)
    have "(2::rat) powi (b - 54) \<le> 2 powi (ulp_exp x - 1)" by (subst p2_le_iff) (simp add: ex)
    then have "\<bar>x - q\<bar> < 2 powi (ulp_exp x) / 2" using near' by (simp add: p2_diff)
    then show ?thesis using x0 n \<open>q = 2 powi b\<close> by (intro round_mag_at) auto
  qed
qed

text \<open>Whatever the search returns after enough digits rounds to the number.\<close>

lemma shortest_digits_exact:
  assumes "0 < q" "round_mag q = q" "10 powi (e - int n) * 10 ^ 16 \<le> q" "shortest_digits n q e = (m, k)"
  shows "round_mag (of_nat m * 10 powi k) = q"
  using assms(3,4)
proof (induction n arbitrary: e)
  case (0 e)
  let ?u = "(10::rat) powi e" and ?m = "nat \<lfloor>q / 10 powi e\<rfloor>"
  have u: "0 < ?u" by simp
  have m: "of_nat ?m = of_int \<lfloor>q / ?u\<rfloor>" using assms(1) u by simp
  have lo: "of_nat ?m * ?u \<le> q" "q < of_nat (?m + 1) * ?u"
    using floor_divide_lower [OF u, of q] floor_divide_upper [OF u, of q]
    by (simp_all add: m algebra_simps del: of_nat_nat)
  have small: "?u / 2 < q * 2 powi (- 54)"
    using 0 u by (simp add: power_int_def field_simps)
  have "round_mag (of_nat ?m * ?u) = q \<or> round_mag (of_nat (?m + 1) * ?u) = q"
  proof (cases "?u \<le> 2 * (q - of_nat ?m * ?u)")
    case True
    then have "\<bar>of_nat (?m + 1) * ?u - q\<bar> \<le> ?u / 2" using lo by (simp add: algebra_simps)
    from round_mag_near [OF assms(1,2) le_less_trans [OF this small]] show ?thesis ..
  next
    case False
    then have "\<bar>of_nat ?m * ?u - q\<bar> \<le> ?u / 2" using lo by simp
    from round_mag_near [OF assms(1,2) le_less_trans [OF this small]] show ?thesis ..
  qed
  then show ?case using 0(2)
    by (subst (asm) shortest_digits.simps) (auto simp: Let_def power_int_add mult.commute split: if_splits)
next
  case (Suc n e)
  have "10 powi (e - 1 - int n) * 10 ^ 16 \<le> q" using Suc.prems(1) by (simp add: algebra_simps)
  from Suc.IH [OF this] show ?case using Suc.prems(2)
    by (subst (asm) shortest_digits.simps) (auto simp: Let_def power_int_add mult.commute split: if_splits)
qed

lemma shortest_digits_17:
  assumes "0 < q" "round_mag q = q" "shortest_digits 16 q (dec_exp q) = (m, k)"
  shows "round_mag (of_nat m * 10 powi k) = q"
proof (rule shortest_digits_exact [OF assms(1,2) _ assms(3)])
  have "(10::rat) powi (dec_exp q - int 16) * 10 ^ 16 = 10 powi (dec_exp q)"
    by (simp add: power_int_diff)
  then show "10 powi (dec_exp q - int 16) * 10 ^ 16 \<le> q" using dec_exp_le [OF assms(1)] by simp
qed

section \<open>Printing\<close>

text \<open>\<^verbatim>\<open>{}\<close> writes a float without an exponent.\<close>

definition plain_decimal :: "nat \<Rightarrow> int \<Rightarrow> bytes" where
  "plain_decimal m e =
     (let ds = dec_nat m; p = nat (- e)
      in if 0 \<le> e then ds @ replicate (nat e) 48
         else if p < length ds then take (length ds - p) ds @ [46] @ drop (length ds - p) ds
         else [48, 46] @ replicate (p - length ds) 48 @ ds)"

definition sign_text :: "bool \<Rightarrow> bytes" where
  "sign_text s = (if s then str ''-'' else [])"

fun f64_display :: "f64 \<Rightarrow> bytes" where
  "f64_display NaN = str ''NaN''"
| "f64_display (Inf s) = sign_text s @ str ''inf''"
| "f64_display (Fin s q) =
     sign_text s @ (if q = 0 then str ''0''
                    else case shortest_digits 16 q (dec_exp q) of (m, e) \<Rightarrow> plain_decimal m e)"

text \<open>\<^verbatim>\<open>{:.n}\<close>, for at least one place: the exact value rounded to \<open>n\<close> places, ties to even.\<close>

fun f64_fixed :: "nat \<Rightarrow> f64 \<Rightarrow> bytes" where
  "f64_fixed n NaN = str ''NaN''"
| "f64_fixed n (Inf s) = sign_text s @ str ''inf''"
| "f64_fixed n (Fin s q) =
     (let m = nat (round_half_even (q * 10 ^ n)); frac = dec_nat (m mod 10 ^ n)
      in sign_text s @ dec_nat (m div 10 ^ n) @ [46] @ replicate (n - length frac) 48 @ frac)"

text \<open>\<^verbatim>\<open>{:>w}\<close> fills with spaces on the left.\<close>

definition pad_left :: "nat \<Rightarrow> bytes \<Rightarrow> bytes" where
  "pad_left w s = replicate (w - length s) 32 @ s"

section \<open>Reading\<close>

definition ParseFloat_exponent :: "bytes \<Rightarrow> int option" where
  "ParseFloat_exponent s =
     (let negative = (s \<noteq> [] \<and> hd s = 45);
          ds = (if s \<noteq> [] \<and> (hd s = 45 \<or> hd s = 43) then tl s else s);
          e = foldl (\<lambda>acc b. if acc < 0x10000 then 10 * acc + (unat b - 48) else acc) 0 ds
      in if ds = [] \<or> \<not> list_all is_digit ds then None
         else Some (if negative then - int e else int e))"

text \<open>Digits, at most one point, at least one digit, and an exponent whose value saturates.\<close>

definition parse_decimal :: "bytes \<Rightarrow> rat option" where
  "parse_decimal s =
     (let whole = takeWhile is_digit s; rest = dropWhile is_digit s;
          point = (rest \<noteq> [] \<and> hd rest = 46);
          frac = (if point then takeWhile is_digit (tl rest) else []);
          rest' = (if point then dropWhile is_digit (tl rest) else rest);
          value = \<lambda>e. of_nat (digits_value (whole @ frac)) * 10 powi (e - int (length frac))
      in if whole = [] \<and> frac = [] then None
         else if rest' = [] then Some (value 0)
         else if hd rest' = 101 \<or> hd rest' = 69 then map_option value (ParseFloat_exponent (tl rest'))
         else None)"

definition ascii_lower :: "u8 \<Rightarrow> u8" where
  "ascii_lower b = (if 65 \<le> unat b \<and> unat b \<le> 90 then b + 32 else b)"

definition parse_inf_nan :: "bool \<Rightarrow> bytes \<Rightarrow> f64 option" where
  "parse_inf_nan s t =
     (let l = map ascii_lower t
      in if l = str ''nan'' then Some NaN
         else if l = str ''inf'' \<or> l = str ''infinity'' then Some (Inf s) else None)"

text \<open>\<^verbatim>\<open>str::parse::<f64>\<close>, correctly rounded.\<close>

definition parse_f64 :: "bytes \<Rightarrow> f64 option" where
  "parse_f64 s =
     (let negative = (s \<noteq> [] \<and> hd s = 45);
          t = (if s \<noteq> [] \<and> (hd s = 45 \<or> hd s = 43) then tl s else s)
      in case parse_decimal t of
           Some q \<Rightarrow> Some (pack negative q)
         | None \<Rightarrow> parse_inf_nan negative t)"

section \<open>Reading what was printed\<close>

lemma parse_plain_decimal: "parse_decimal (plain_decimal m e) = Some (of_nat m * 10 powi e)"
proof -
  let ?ds = "dec_nat m"
  have d: "takeWhile is_digit xs = xs" "dropWhile is_digit xs = []" if "list_all is_digit xs" for xs
    using that by (auto simp: list_all_iff)
  have d': "takeWhile is_digit (xs @ 46 # ys) = xs" "dropWhile is_digit (xs @ 46 # ys) = 46 # ys"
    if "list_all is_digit xs" for xs ys
    using that by (auto simp: list_all_iff is_digit_def takeWhile_append2 dropWhile_append2)
  have d48: "is_digit 48" and d46: "\<not> is_digit 46" by (simp_all add: is_digit_def)
  from d48 have z: "list_all is_digit (replicate n 48)" for n by (simp add: list_all_iff)
  have t: "list_all is_digit (take n ?ds)" "list_all is_digit (drop n ?ds)" for n
    using dec_nat_digits [of m] by (auto simp: list_all_iff dest: in_set_takeD in_set_dropD)
  consider "0 \<le> e" | "e < 0" "nat (- e) < length ?ds" | "e < 0" "length ?ds \<le> nat (- e)" by linarith
  then show ?thesis
  proof cases
    case 1
    then show ?thesis
      by (simp add: plain_decimal_def parse_decimal_def Let_def power_int_def d z dec_nat_digits)
  next
    case 2
    let ?n = "length ?ds - nat (- e)"
    have "length (drop ?n ?ds) = nat (- e)" using 2 by simp
    then show ?thesis using 2
      by (simp add: plain_decimal_def parse_decimal_def Let_def d d' t)
  next
    case 3
    obtain zs where "plain_decimal m e = 48 # 46 # zs" "list_all is_digit zs" "digits_value (48 # zs) = m"
      "length zs = nat (- e)"
    proof (rule that)
      let ?zs = "replicate (nat (- e) - length ?ds) 48 @ ?ds"
      show "plain_decimal m e = 48 # 46 # ?zs" using 3 by (simp add: plain_decimal_def Let_def)
      show "list_all is_digit ?zs" using z dec_nat_digits by simp
      show "length ?zs = nat (- e)" using 3 by simp
      show "digits_value (48 # ?zs) = m" using digits_value_leading [of "Suc (nat (- e) - length ?ds)" ?ds] by simp
    qed
    then show ?thesis using 3 by (simp add: parse_decimal_def Let_def d d48 d46)
  qed
qed

lemma plain_decimal_hd: "plain_decimal m e \<noteq> [] \<and> is_digit (hd (plain_decimal m e))"
proof -
  have "is_digit (hd (dec_nat m))" using dec_nat_digits [of m] by (cases "dec_nat m") auto
  then show ?thesis
    by (cases "dec_nat m") (auto simp: plain_decimal_def Let_def is_digit_def take_Cons')
qed

text \<open>The shortest digits read back: printing and reading a float loses nothing.\<close>

lemma parse_f64_display:
  assumes "f64_wf x"
  shows "parse_f64 (f64_display x) = Some x"
proof (cases x)
  case (Fin s q)
  let ?text = "if q = 0 then str ''0'' else case shortest_digits 16 q (dec_exp q) of (m, e) \<Rightarrow> plain_decimal m e"
  obtain p where p: "parse_decimal ?text = Some p" "pack s p = Fin s q" "?text \<noteq> []" "is_digit (hd ?text)"
  proof (cases "q = 0")
    case True
    then show ?thesis
      using that [of 0] by (simp add: parse_decimal_def str_def is_digit_def digits_value_def pack_def)
  next
    case False
    obtain m e where me: "shortest_digits 16 q (dec_exp q) = (m, e)" by fastforce
    have q: "0 < q" "round_mag q = q" "\<not> overflowed q" using False assms Fin by auto
    show ?thesis
      using that [of "of_nat m * 10 powi e"] False q plain_decimal_hd [of m e] shortest_digits_17 [OF q(1,2) me]
      by (simp add: me parse_plain_decimal pack_def)
  qed
  have "hd ?text \<noteq> 45" "hd ?text \<noteq> 43" using p(4) by (auto simp: is_digit_def)
  then have "parse_f64 (sign_text s @ ?text) = Some (Fin s q)"
    using p(1-3) by (cases s) (simp_all add: parse_f64_def sign_text_def str_def Let_def del: if_split)
  then show ?thesis by (simp add: Fin)
qed (auto simp: parse_f64_def parse_decimal_def parse_inf_nan_def str_def sign_text_def is_digit_def
    ascii_lower_def Let_def)

text \<open>Whatever is read is a number a program can hold.\<close>

lemma parse_f64_wf:
  assumes "parse_f64 s = Some x"
  shows "f64_wf x"
proof -
  have "0 \<le> q" if "parse_decimal t = Some q" for t q
    using that by (auto simp: parse_decimal_def Let_def split: if_splits)
  then show ?thesis
    using assms by (auto simp: parse_f64_def parse_inf_nan_def Let_def f64_wf_pack split: option.splits if_splits)
qed

end
