(* ===== verification/Toy_Main.thy ===== *)
theory Toy_Main
  imports Rpc Reconcile Decimal
begin

text \<open>
  The program of the example (\<^verbatim>\<open>examples/toy-arbitrage/src/main.rs\<close>): arguments and environment, the
  values read from the node at start, and the loop: read two pools, simulate, submit, wait for the
  settlement, evaluate the halt policy. The simulation engine is a parameter that acts on the
  network; output to the terminal is left out.
\<close>

section \<open>Configuration\<close>

definition EXECUTOR_ADDRESS :: address20 where "EXECUTOR_ADDRESS = from_be_bytes (replicate 20 0x99)"
definition POOL_A :: address20 where "POOL_A = from_be_bytes (replicate 20 0xA1)"
definition POOL_B :: address20 where "POOL_B = from_be_bytes (replicate 20 0xB2)"
definition TRADE_NOTIONAL :: u128 where "TRADE_NOTIONAL = 1000000000000000000"
definition MIN_DIVERGENCE :: f64 where "MIN_DIVERGENCE = f64_of_rat (2 / 100)"
definition GAS_LIMIT :: u64 where "GAS_LIMIT = 500000"

section \<open>Arguments\<close>

record CliArgs =
  cli_inject_drift :: bool
  cli_drift_after :: u64

definition parse_args :: "bytes list \<Rightarrow> CliArgs" where
  "parse_args args =
     \<lparr>cli_inject_drift = (str ''--inject-drift'' \<in> set args),
      cli_drift_after = or_default 5 (Option.bind (arg_after (str ''--drift-after'') args) ok_u64)\<rparr>"

section \<open>The .env file\<close>

text \<open>
  \<^verbatim>\<open>str::trim\<close> removes the characters with the Unicode property White\_Space, given here by their
  UTF-8 bytes; \<^verbatim>\<open>lines\<close> splits at line feeds and drops one carriage return before them.
\<close>

definition whitespace :: "bytes list" where
  "whitespace =
     map (\<lambda>b. [b]) [9, 10, 11, 12, 13, 32] @ [[0xC2, 0x85], [0xC2, 0xA0], [0xE1, 0x9A, 0x80]]
     @ map (\<lambda>b. [0xE2, 0x80, b]) [0x80, 0x81, 0x82, 0x83, 0x84, 0x85, 0x86, 0x87, 0x88, 0x89, 0x8A, 0xA8, 0xA9, 0xAF]
     @ [[0xE2, 0x81, 0x9F], [0xE3, 0x80, 0x80]]"

definition strip_one :: "bytes list \<Rightarrow> bytes \<Rightarrow> bytes option" where
  "strip_one ws s = map_option (\<lambda>w. drop (length w) s) (find (\<lambda>w. take (length w) s = w) ws)"

fun strip_all :: "nat \<Rightarrow> bytes list \<Rightarrow> bytes \<Rightarrow> bytes" where
  "strip_all 0 ws s = s"
| "strip_all (Suc n) ws s = (case strip_one ws s of None \<Rightarrow> s | Some t \<Rightarrow> strip_all n ws t)"

definition trim_start :: "bytes \<Rightarrow> bytes" where
  "trim_start s = strip_all (length s) whitespace s"

definition trim_end :: "bytes \<Rightarrow> bytes" where
  "trim_end s = rev (strip_all (length s) (map rev whitespace) (rev s))"

definition trim :: "bytes \<Rightarrow> bytes" where
  "trim s = trim_end (trim_start s)"

fun split_at_byte :: "u8 \<Rightarrow> bytes \<Rightarrow> bytes \<Rightarrow> bytes list" where
  "split_at_byte c cur [] = (if cur = [] then [] else [cur])"
| "split_at_byte c cur (b # bs) =
     (if b = c then cur # split_at_byte c [] bs else split_at_byte c (cur @ [b]) bs)"

definition drop_cr :: "bytes \<Rightarrow> bytes" where
  "drop_cr l = (if l \<noteq> [] \<and> last l = 13 then butlast l else l)"

text \<open>A carriage return is dropped only before a line feed, not at the end of the file.\<close>

definition str_lines :: "bytes \<Rightarrow> bytes list" where
  "str_lines s =
     (let ls = split_at_byte 10 [] s
      in if s \<noteq> [] \<and> last s \<noteq> 10 then map drop_cr (butlast ls) @ [last ls] else map drop_cr ls)"

definition split_once_eq :: "bytes \<Rightarrow> (bytes \<times> bytes) option" where
  "split_once_eq l =
     (if 61 \<in> set l then Some (takeWhile (\<lambda>b. b \<noteq> 61) l, tl (dropWhile (\<lambda>b. b \<noteq> 61) l)) else None)"

type_synonym environment = "bytes \<rightharpoonup> bytes"

text \<open>\<^verbatim>\<open>set_var\<close> panics on an empty name and on a zero byte.\<close>

definition set_var :: "bytes \<Rightarrow> bytes \<Rightarrow> environment \<Rightarrow> environment option" where
  "set_var key v env = (if key = [] \<or> 61 \<in> set key \<or> 0 \<in> set key \<or> 0 \<in> set v then panic else Some (env(key \<mapsto> v)))"

definition dotenv_line :: "environment \<Rightarrow> bytes \<Rightarrow> environment option" where
  "dotenv_line env l0 =
     (let l = trim l0
      in if l = [] \<or> hd l = 35 then Some env
         else case split_once_eq l of
                None \<Rightarrow> Some env
              | Some (key0, v) \<Rightarrow>
                  let key = trim key0
                  in if env key = None then set_var key (trim v) env else Some env)"

definition load_dotenv :: "bytes option \<Rightarrow> environment \<Rightarrow> environment option" where
  "load_dotenv contents env =
     (case contents of None \<Rightarrow> Some env | Some c \<Rightarrow> fold_run dotenv_line env (str_lines c))"

section \<open>Reading from the node\<close>

text \<open>The boxed errors of \<^verbatim>\<open>main\<close>, by where they come from.\<close>

datatype 'e main_error =
    MainRpc rpc_error
  | MainText bytes
  | MainParse ParseIntError
  | MainPool "'e SimError PoolReadError"
  | MainSim "'e SimError"
  | MainPoll "rpc_error PollError"

definition hex_to_bytes32 :: "bytes \<Rightarrow> ('e main_error, hash32) res" where
  "hex_to_bytes32 s0 =
     (let s = strip_0x s0
      in and_then
           (collect_res (\<lambda>i. case str_slice s i (i + 2) of
                               None \<Rightarrow> panic
                             | Some t \<Rightarrow> Some (map_sum MainParse id (from_str_radix16 t :: ParseIntError + u8)))
              (map (\<lambda>k. 2 * k) [0..<(length s + 1) div 2]))
           (\<lambda>bs. if length bs \<noteq> 32
                 then Some (Inl (MainText (str ''PRIVATE_KEY must be exactly 32 bytes of hex'')))
                 else Some (Inr (from_be_bytes bs))))"

text \<open>\<^verbatim>\<open>trim_start_matches("0x")\<close> strips the prefix as often as it occurs.\<close>

fun trim_0x :: "bytes \<Rightarrow> bytes" where
  "trim_0x (a # b # s) = (if a = 48 \<and> b = 120 then trim_0x s else a # b # s)"
| "trim_0x s = s"

definition parse_trimmed :: "bytes \<Rightarrow> 'e main_error + 'a::len word" where
  "parse_trimmed hex = map_sum MainParse id (from_str_radix16 (trim_0x hex))"

definition block_u64 :: "Value \<Rightarrow> bytes \<Rightarrow> 'e main_error + u64" where
  "block_u64 block field =
     (case field_str field block of
        None \<Rightarrow> Inl (MainText (str ''block response missing '' @ field))
      | Some hex \<Rightarrow> parse_trimmed hex)"

definition block_u128 :: "Value \<Rightarrow> bytes \<Rightarrow> 'e main_error + u128" where
  "block_u128 block field = parse_trimmed (or_default (str ''0x0'') (field_str field block))"

definition fetch_block_context :: "JsonRpcClient \<Rightarrow> network \<Rightarrow> ('e main_error + BlockContext) \<times> network" where
  "fetch_block_context client w =
     (case client_call client (str ''eth_getBlockByNumber'') (JArray [JString (str ''latest''), JBool False]) w of
        (Inl e, w') \<Rightarrow> (Inl (MainRpc e), w')
      | (Inr block, w') \<Rightarrow>
          (case block_u64 block (str ''number'') of Inl e \<Rightarrow> (Inl e, w') | Inr number \<Rightarrow>
          (case block_u64 block (str ''timestamp'') of Inl e \<Rightarrow> (Inl e, w') | Inr timestamp \<Rightarrow>
          (case block_u64 block (str ''gasLimit'') of Inl e \<Rightarrow> (Inl e, w') | Inr gas_limit \<Rightarrow>
             (Inr \<lparr>bc_number = number, bc_timestamp = timestamp, bc_gas_limit = gas_limit,
                   bc_basefee = (case (block_u128 block (str ''baseFeePerGas'') :: unit main_error + u128) of
                                   Inl e \<Rightarrow> 0 | Inr fee \<Rightarrow> fee),
                   bc_coinbase = 0\<rparr>, w')))))"

definition format_hash :: "bytes \<Rightarrow> bytes" where
  "format_hash bs = foldl (\<lambda>out b. out @ hex_byte b) (str ''0x'') bs"

definition fetch_nonce :: "JsonRpcClient \<Rightarrow> address20 \<Rightarrow> network \<Rightarrow> ('e main_error + u64) \<times> network" where
  "fetch_nonce client address w =
     (let addr_hex = foldl (\<lambda>out b. out @ hex_byte b) (str ''0x'') (to_be_bytes address)
      in case client_call client (str ''eth_getTransactionCount'') (JArray [JString addr_hex, JString (str ''pending'')]) w of
           (Inl e, w') \<Rightarrow> (Inl (MainRpc e), w')
         | (Inr result, w') \<Rightarrow>
             (case as_str result of
                None \<Rightarrow> (Inl (MainText (str ''eth_getTransactionCount did not return a string'')), w')
              | Some hex \<Rightarrow> (parse_trimmed hex, w')))"

definition fetch_gas_price :: "JsonRpcClient \<Rightarrow> network \<Rightarrow> ('e main_error + u128) \<times> network" where
  "fetch_gas_price client w =
     (case client_call client (str ''eth_gasPrice'') (JArray []) w of
        (Inl e, w') \<Rightarrow> (Inl (MainRpc e), w')
      | (Inr result, w') \<Rightarrow>
          (case as_str result of
             None \<Rightarrow> (Inl (MainText (str ''eth_gasPrice did not return a string'')), w')
           | Some hex \<Rightarrow> (parse_trimmed hex, w')))"

text \<open>The low 20 bytes of the hash of the uncompressed public key without its first byte.\<close>

definition address_from_public_key :: "keccak \<Rightarrow> bytes \<Rightarrow> address20" where
  "address_from_public_key keccak256 encoded =
     from_be_bytes (drop 12 (to_be_bytes (keccak256 (drop 1 encoded))))"

section \<open>The loop\<close>

record 'e toy_setup =
  ts_keccak :: keccak
  ts_profile :: profile
  ts_engine :: "('e, network) sim_engine"
  ts_caller :: address20
  ts_submitter :: RpcTxSubmitter
  ts_poller :: "(rpc_error, network, unit DriftInjectingDecoder) ReceiptPoller"
  ts_chain_id :: u64
  ts_gas_price :: u128
  ts_block_time_ms :: u64

record toy_state =
  to_nonce :: u64
  to_history :: ReconcileHistory
  to_policy :: ReconcilePolicy
  to_decoder :: "unit DriftInjectingDecoder"
  to_world :: network

datatype 'e step_result =
    Next toy_state
  | Halted HaltReason toy_state
  | Failed "'e main_error" toy_state

definition toy_calldata :: "'e toy_setup \<Rightarrow> PoolReserves \<Rightarrow> PoolReserves \<Rightarrow> bytes" where
  "toy_calldata ts reserves_a reserves_b =
     (let (buy_pool, sell_pool) =
            (if f64_lt (price_token0_in_token1 reserves_a) (price_token0_in_token1 reserves_b)
             then (POOL_A, POOL_B) else (POOL_B, POOL_A));
          selector = function_selector (ts_keccak ts) EXECUTE_ARB_SIGNATURE
      in encode_arb_call selector buy_pool sell_pool TRADE_NOTIONAL)"

definition toy_unsigned :: "'e toy_setup \<Rightarrow> u64 \<Rightarrow> bytes \<Rightarrow> UnsignedTx" where
  "toy_unsigned ts nonce calldata =
     \<lparr>ut_nonce = nonce, ut_gas_price = ts_gas_price ts, ut_gas_limit = GAS_LIMIT, ut_to = EXECUTOR_ADDRESS,
      ut_value = 0, ut_data = calldata, ut_chain_id = ts_chain_id ts\<rparr>"

text \<open>The arm for a profitable prediction: submit, settle, and evaluate after a realized profit.\<close>

definition toy_trade :: "'e toy_setup \<Rightarrow> PredictedProfit \<Rightarrow> bytes \<Rightarrow> toy_state \<Rightarrow> 'e step_result option" where
  "toy_trade ts predicted calldata st =
     (case submit (ts_keccak ts) (ts_profile ts) (ts_submitter ts) (toy_unsigned ts (to_nonce st) calldata) (to_world st) of
        (None, w) \<Rightarrow> panic
      | (Some (Inl e), w) \<Rightarrow> Some (Failed (MainRpc e) (st\<lparr>to_world := w\<rparr>))
      | (Some (Inr tx_hash), w) \<Rightarrow>
          do { nonce \<leftarrow> u_add (ts_profile ts) (to_nonce st) 1;
               (res, ps) \<leftarrow> poll_until_settled (ts_profile ts) (ts_poller ts) net_clock net_sleep tx_hash predicted
                            \<lparr>ps_history = to_history st, ps_decoder = to_decoder st, ps_world = w\<rparr>;
               let st' = st\<lparr>to_nonce := nonce, to_history := ps_history ps, to_decoder := ps_decoder ps,
                            to_world := ps_world ps\<rparr>
               in case res of
                    Inl e \<Rightarrow> Some (Failed (MainPoll e) st')
                  | Inr (Realized r) \<Rightarrow>
                      do { (decision, policy) \<leftarrow> policy_evaluate (ts_profile ts) (to_policy st') (to_history st');
                           Some (case decision of
                                   Halt reason \<Rightarrow> Halted reason (st'\<lparr>to_policy := policy\<rparr>)
                                 | Continue \<Rightarrow> Next (st'\<lparr>to_policy := policy\<rparr>)) }
                  | Inr outcome \<Rightarrow> Some (Next st') })"

definition toy_simulate ::
  "'e toy_setup \<Rightarrow> PoolReserves \<Rightarrow> PoolReserves \<Rightarrow> toy_state \<Rightarrow> 'e step_result option" where
  "toy_simulate ts reserves_a reserves_b st =
     (let calldata = toy_calldata ts reserves_a reserves_b;
          candidate = \<lparr>ct_caller = ts_caller ts, ct_to = EXECUTOR_ADDRESS, ct_value = 0,
                       ct_data = calldata, ct_gas_limit = GAS_LIMIT\<rparr>
      in case ts_engine ts candidate (to_world st) of
           (Inl e, w) \<Rightarrow> Some (Failed (MainSim e) (st\<lparr>to_world := w\<rparr>))
         | (Inr raw, w) \<Rightarrow>
             (case toy_decode_predicted raw of
                Inr predicted \<Rightarrow>
                  if 0 < sint (predicted_wei predicted)
                  then toy_trade ts predicted calldata (st\<lparr>to_world := w\<rparr>)
                  else Some (Next (st\<lparr>to_world := w\<rparr>))
              | Inl e \<Rightarrow> Some (Next (st\<lparr>to_world := w\<rparr>))))"

definition toy_iteration :: "'e toy_setup \<Rightarrow> toy_state \<Rightarrow> 'e step_result option" where
  "toy_iteration ts st =
     (case read_reserves (ts_keccak ts) (ts_engine ts) (ts_caller ts) POOL_A (to_world st) of
        (Inl e, w) \<Rightarrow> Some (Failed (MainPool e) (st\<lparr>to_world := w\<rparr>))
      | (Inr reserves_a, w1) \<Rightarrow>
     (case read_reserves (ts_keccak ts) (ts_engine ts) (ts_caller ts) POOL_B w1 of
        (Inl e, w) \<Rightarrow> Some (Failed (MainPool e) (st\<lparr>to_world := w\<rparr>))
      | (Inr reserves_b, w2) \<Rightarrow>
          do { result \<leftarrow> (if f64_lt MIN_DIVERGENCE (price_divergence reserves_a reserves_b)
                          then toy_simulate ts reserves_a reserves_b (st\<lparr>to_world := w2\<rparr>)
                          else Some (Next (st\<lparr>to_world := w2\<rparr>)));
               Some (case result of
                       Next st' \<Rightarrow> Next (st'\<lparr>to_world := net_sleep (duration_from_millis (ts_block_time_ms ts)) (to_world st')\<rparr>)
                     | stop \<Rightarrow> stop) }))"

text \<open>The program runs until the policy halts it, an error ends it or it panics (\<^term>\<open>None\<close>).\<close>

partial_function (option) toy_loop :: "'e toy_setup \<Rightarrow> toy_state \<Rightarrow> 'e step_result option" where
  "toy_loop ts st =
     do { result \<leftarrow> toy_iteration ts st;
          case result of Next st' \<Rightarrow> toy_loop ts st' | stop \<Rightarrow> Some stop }"

section \<open>Start\<close>

definition lift_main :: "('e main_error + 'a) \<times> network \<Rightarrow> ('e main_error, 'a) res \<times> network" where
  "lift_main x = (case x of (r, w) \<Rightarrow> (Some r, w))"

definition env_u64 :: "bytes \<Rightarrow> u64 \<Rightarrow> environment \<Rightarrow> u64" where
  "env_u64 key d env = or_default d (Option.bind (env key) ok_u64)"

text \<open>
  Everything before the loop. \<open>key_from_bytes\<close> is the constructor of \<^verbatim>\<open>SigningKey\<close> with the encoded
  public key, \<open>make_engine\<close> the engine on the forked database.
\<close>

definition toy_start ::
  "keccak \<Rightarrow> profile \<Rightarrow> (hash32 \<Rightarrow> bytes + (signing_key \<times> bytes)) \<Rightarrow> (RevmBackend \<Rightarrow> RpcDbFactory \<Rightarrow> ('e, network) sim_engine)
   \<Rightarrow> environment \<Rightarrow> bytes list \<Rightarrow> ('e main_error, 'e toy_setup \<times> toy_state) net" where
  "toy_start keccak256 pf key_from_bytes make_engine env args w0 =
     (let cli = parse_args args
      in case env (str ''TESTNET_RPC_URL'') of
           None \<Rightarrow> (Some (Inl (MainText (str ''set TESTNET_RPC_URL '' @ [0xE2, 0x80, 0x94] @ str '' see .env.example''))), w0)
         | Some rpc_url \<Rightarrow>
         (case env (str ''PRIVATE_KEY'') of
           None \<Rightarrow> (Some (Inl (MainText (str ''set PRIVATE_KEY '' @ [0xE2, 0x80, 0x94] @ str '' see .env.example''))), w0)
         | Some private_key_hex \<Rightarrow>
           let chain_id = env_u64 (str ''CHAIN_ID'') 11155111 env;
               block_time_ms = env_u64 (str ''BLOCK_TIME_MS'') 12000 env;
               client = json_rpc_client_new rpc_url
           in rpc_then (pure_res (hex_to_bytes32 private_key_hex)) (\<lambda>secret.
              rpc_then (pure_res (Some (map_sum MainText id (key_from_bytes secret)))) (\<lambda>(signing_key, public_key).
              let caller = address_from_public_key keccak256 public_key in
              rpc_then (\<lambda>w. lift_main (fetch_block_context client w)) (\<lambda>block.
              let db_factory = rpc_db_factory_new client (str ''0x'' @ hex_of_nat (unat (bc_number block))) in
              rpc_then (pure_res (map_option Inr (revm_backend_new block block_time_ms (f64_of_rat (1 / 2)) 4))) (\<lambda>backend.
              let (drift_after, damping) =
                    (if cli_inject_drift cli then (cli_drift_after cli, f64_of_rat (3 / 10))
                     else (2 ^ 64 - 1, f64_of_int 1));
                  decoder = drift_injecting_new () drift_after damping in
              rpc_then (pure_res (map_option Inr (poller_config_new block_time_ms (f64_of_rat (1 / 2)) 10))) (\<lambda>config.
              rpc_then (\<lambda>w. lift_main (fetch_nonce client caller w)) (\<lambda>nonce.
              rpc_then (\<lambda>w. lift_main (fetch_gas_price client w)) (\<lambda>gas_price.
              rpc_then (pure_res (map_option Inr (default_dual_guard pf))) (\<lambda>policy w.
                (Some (Inr
                   (\<lparr>ts_keccak = keccak256, ts_profile = pf, ts_engine = make_engine backend db_factory,
                     ts_caller = caller,
                     ts_submitter = rpc_tx_submitter_new client signing_key,
                     ts_poller = receipt_poller_new (rpc_get_receipt client)
                                   (drift_decode_realized (toy_decode_realized keccak256 pf)) config,
                     ts_chain_id = chain_id, ts_gas_price = gas_price, ts_block_time_ms = block_time_ms\<rparr>,
                    \<lparr>to_nonce = nonce, to_history = history_new, to_policy = policy, to_decoder = decoder,
                     to_world = w\<rparr>)), w))))))))) w0))"

text \<open>The whole program, from the contents of \<^verbatim>\<open>.env\<close>, the environment and the arguments.\<close>

datatype 'e main_exit = ExitOk HaltReason toy_state | ExitErr "'e main_error"

definition toy_main ::
  "keccak \<Rightarrow> profile \<Rightarrow> (hash32 \<Rightarrow> bytes + (signing_key \<times> bytes)) \<Rightarrow> (RevmBackend \<Rightarrow> RpcDbFactory \<Rightarrow> ('e, network) sim_engine)
   \<Rightarrow> bytes option \<Rightarrow> environment \<Rightarrow> bytes list \<Rightarrow> network \<Rightarrow> 'e main_exit option" where
  "toy_main keccak256 pf key_from_bytes make_engine dotenv env0 args w =
     do { env \<leftarrow> load_dotenv dotenv env0;
          started \<leftarrow> fst (toy_start keccak256 pf key_from_bytes make_engine env args w);
          case started of
            Inl e \<Rightarrow> Some (ExitErr e)
          | Inr (ts, st) \<Rightarrow>
              do { result \<leftarrow> toy_loop ts st;
                   case result of
                     Halted reason st' \<Rightarrow> Some (ExitOk reason st')
                   | Failed e st' \<Rightarrow> Some (ExitErr e)
                   | Next st' \<Rightarrow> None } }"

end
