(* ===== verification/Toy_Main_Spec.thy ===== *)
theory Toy_Main_Spec
  imports Toy_Main
begin

text \<open>
  The properties of the example's loop, where every component meets: what an iteration may do to
  the history, and what holds whenever the program goes on to trade again.
\<close>

section \<open>One iteration\<close>

text \<open>The effects an iteration may have, and the decision that allowed it to go on.\<close>

definition step_allowed :: "'e toy_setup \<Rightarrow> toy_state \<Rightarrow> 'e step_result \<Rightarrow> bool" where
  "step_allowed ts st result =
     (case result of
        Next st' \<Rightarrow>
          to_policy st' = to_policy st \<and>
          (to_history st' = to_history st \<or>
           (\<exists>e. to_history st' = history_record_revert (to_history st) e) \<or>
           (\<exists>p r. 0 < sint (predicted_wei p) \<and> to_history st' = history_append (to_history st) p r \<and>
                  run_guards (ts_profile ts) (to_policy st) (to_history st') = Some Continue))
      | Halted reason st' \<Rightarrow>
          \<exists>p r. 0 < sint (predicted_wei p) \<and> to_history st' = history_append (to_history st) p r \<and>
                run_guards (ts_profile ts) (to_policy st) (to_history st') = Some (Halt reason)
      | Failed e st' \<Rightarrow> to_history st' = to_history st)"

lemma toy_trade_allowed:
  assumes "toy_trade ts predicted calldata st = Some result" "0 < sint (predicted_wei predicted)"
  shows "step_allowed ts st result"
proof -
  let ?sub = "submit (ts_keccak ts) (ts_profile ts) (ts_submitter ts) (toy_unsigned ts (to_nonce st) calldata) (to_world st)"
  obtain sr w where sub: "?sub = (sr, w)" by (cases ?sub)
  consider e where "sr = Some (Inl e)" | tx where "sr = Some (Inr tx)"
    using assms(1) sub by (cases sr) (auto simp: toy_trade_def split: sum.splits)
  then show ?thesis
  proof cases
    case 1
    then show ?thesis using assms(1) sub by (auto simp: toy_trade_def step_allowed_def)
  next
    case (2 tx)
    let ?ps = "\<lparr>ps_history = to_history st, ps_decoder = to_decoder st, ps_world = w\<rparr>"
    obtain nonce res ps where
      poll: "poll_until_settled (ts_profile ts) (ts_poller ts) net_clock net_sleep tx predicted ?ps = Some (res, ps)"
      and rest: "(let st' = st\<lparr>to_nonce := nonce, to_history := ps_history ps, to_decoder := ps_decoder ps,
                            to_world := ps_world ps\<rparr>
               in case res of
                    Inl e \<Rightarrow> Some (Failed (MainPoll e) st')
                  | Inr (Realized r) \<Rightarrow>
                      do { (decision, policy) \<leftarrow> policy_evaluate (ts_profile ts) (to_policy st') (to_history st');
                           Some (case decision of
                                   Halt reason \<Rightarrow> Halted reason (st'\<lparr>to_policy := policy\<rparr>)
                                 | Continue \<Rightarrow> Next (st'\<lparr>to_policy := policy\<rparr>)) }
                  | Inr outcome \<Rightarrow> Some (Next st')) = Some result"
      using assms(1) sub 2 by (auto simp: toy_trade_def bind_eq_Some_conv)
    from poll obtain v where
      "poll_answer (poller_decoder (ts_poller ts)) tx predicted ?ps (poller_source (ts_poller ts) tx v) = Some (res, ps)"
      by (rule poll_until_settled_answer)
    then show ?thesis
    proof (cases rule: poll_answer_cases)
      case (realized receipt logs r d)
      then obtain decision where "run_guards (ts_profile ts) (to_policy st) (ps_history ps) = Some decision"
        using rest by (auto simp: Let_def policy_evaluate_def bind_eq_Some_conv)
      then show ?thesis
        using rest assms(2) realized by (cases decision) (auto simp: step_allowed_def Let_def policy_evaluate_def; blast)+
    qed (use rest in \<open>auto simp: step_allowed_def Let_def\<close>)
  qed
qed

lemma step_allowed_world:
  "step_allowed ts (st\<lparr>to_world := w\<rparr>) result = step_allowed ts st result"
  by (simp add: step_allowed_def split: step_result.split)

lemma step_allowed_idle: "step_allowed ts st (Next (st\<lparr>to_world := w\<rparr>))"
  by (simp add: step_allowed_def)

lemma step_allowed_failed: "step_allowed ts st (Failed e (st\<lparr>to_world := w\<rparr>))"
  by (simp add: step_allowed_def)

lemma toy_simulate_allowed:
  assumes "toy_simulate ts a b st = Some result"
  shows "step_allowed ts st result"
  using assms
  by (auto simp: toy_simulate_def Let_def step_allowed_idle step_allowed_failed
      dest!: toy_trade_allowed simp: step_allowed_world split: prod.splits sum.splits if_splits)

lemma step_allowed_next_world:
  "step_allowed ts st (Next (st'\<lparr>to_world := w\<rparr>)) = step_allowed ts st (Next st')"
  by (simp add: step_allowed_def)

lemma toy_iteration_allowed:
  assumes "toy_iteration ts st = Some result"
  shows "step_allowed ts st result"
proof -
  obtain ra w1 where a: "read_reserves (ts_keccak ts) (ts_engine ts) (ts_caller ts) POOL_A (to_world st) = (ra, w1)"
    by (metis surj_pair)
  obtain rb w2 where b: "read_reserves (ts_keccak ts) (ts_engine ts) (ts_caller ts) POOL_B w1 = (rb, w2)"
    by (metis surj_pair)
  show ?thesis
  proof (cases ra)
    case (Inl e)
    then show ?thesis using assms a by (auto simp: toy_iteration_def step_allowed_failed)
  next
    case ra: (Inr reserves_a)
    show ?thesis
    proof (cases rb)
      case (Inl e)
      then show ?thesis using assms a b ra by (auto simp: toy_iteration_def step_allowed_failed)
    next
      case (Inr reserves_b)
      then obtain r where
        r: "(if f64_lt MIN_DIVERGENCE (price_divergence reserves_a reserves_b)
             then toy_simulate ts reserves_a reserves_b (st\<lparr>to_world := w2\<rparr>)
             else Some (Next (st\<lparr>to_world := w2\<rparr>))) = Some r"
        and result: "result = (case r of
             Next st' \<Rightarrow> Next (st'\<lparr>to_world := net_sleep (duration_from_millis (ts_block_time_ms ts)) (to_world st')\<rparr>)
           | stop \<Rightarrow> stop)"
        using assms a b ra by (auto simp: toy_iteration_def bind_eq_Some_conv)
      have "step_allowed ts st r"
        using r toy_simulate_allowed [of ts reserves_a reserves_b "st\<lparr>to_world := w2\<rparr>" r]
        by (auto simp: step_allowed_world step_allowed_idle split: if_splits)
      then show ?thesis unfolding result by (cases r) (simp_all add: step_allowed_next_world)
    qed
  qed
qed

text \<open>
  C17. The order of settlement and decision: whatever the chain, the node and the engine do, an
  iteration adds at most one entry to the history; it goes on past a realized profit only when the
  policy decides to continue on the history with that profit, and it halts only directly after a
  realized profit, with the reason the policy gives. A revert, a timeout or a decode failure is never
  followed by a decision, so reverts alone never halt this loop.
\<close>

theorem iteration_respects_policy:
  "case toy_iteration ts st of
     None \<Rightarrow> True
   | Some (Next st') \<Rightarrow>
       to_history st' = to_history st \<or>
       (\<exists>e. to_history st' = history_record_revert (to_history st) e) \<or>
       (\<exists>p r. 0 < sint (predicted_wei p) \<and> to_history st' = history_append (to_history st) p r \<and>
              run_guards (ts_profile ts) (to_policy st) (to_history st') = Some Continue)
   | Some (Halted reason st') \<Rightarrow>
       (\<exists>p r. 0 < sint (predicted_wei p) \<and> to_history st' = history_append (to_history st) p r \<and>
              run_guards (ts_profile ts) (to_policy st) (to_history st') = Some (Halt reason))
   | Some (Failed e st') \<Rightarrow> to_history st' = to_history st"
proof (cases "toy_iteration ts st")
  case (Some result)
  then show ?thesis using toy_iteration_allowed [OF Some] by (cases result) (simp_all add: step_allowed_def)
qed simp

section \<open>Every state the loop reaches\<close>

inductive toy_reach :: "'e toy_setup \<Rightarrow> toy_state \<Rightarrow> toy_state \<Rightarrow> bool" for ts s0 where
  start: "toy_reach ts s0 s0"
| iterate: "toy_reach ts s0 s \<Longrightarrow> toy_iteration ts s = Some (Next t) \<Longrightarrow> toy_reach ts s0 t"

text \<open>No prefix of the timeline that ends with a realized profit has been decided as a halt.\<close>

definition never_overruled :: "profile \<Rightarrow> ReconcilePolicy \<Rightarrow> ReconcileHistory \<Rightarrow> bool" where
  "never_overruled pf P h \<longleftrightarrow> h = history_of (timeline h) \<and>
     (\<forall>es p r. prefix (es @ [ConfirmedPair p r]) (timeline h) \<longrightarrow>
        0 < sint (predicted_wei p) \<and> run_guards pf P (history_of (es @ [ConfirmedPair p r])) = Some Continue)"

lemma append_is_history_of:
  "history_append (history_of es) p r = history_of (es @ [ConfirmedPair p r])"
  "history_record_revert (history_of es) e = history_of (es @ [RevertedTx e])"
  by (simp_all add: history_of_def history_append_def history_record_revert_def)

lemma never_overruled_revert: "never_overruled pf P h \<Longrightarrow> never_overruled pf P (history_record_revert h e)"
  unfolding never_overruled_def using append_is_history_of(2) [of "timeline h" e]
  by (auto simp: prefix_snoc)

lemma never_overruled_append:
  assumes "never_overruled pf P h" "0 < sint (predicted_wei p)" "run_guards pf P (history_append h p r) = Some Continue"
  shows "never_overruled pf P (history_append h p r)"
  using assms append_is_history_of(1) [of "timeline h" p r] unfolding never_overruled_def
  by (auto simp: prefix_snoc)

lemma never_overruled_new: "never_overruled pf P history_new"
  by (simp add: never_overruled_def history_of_def history_new_def)

lemma reach_never_overruled:
  assumes "toy_reach ts s0 s" "to_history s0 = history_new"
  shows "to_policy s = to_policy s0 \<and> never_overruled (ts_profile ts) (to_policy s0) (to_history s)"
  using assms
proof induction
  case start
  then show ?case by (simp add: never_overruled_new)
next
  case (iterate s t)
  then show ?case
    using toy_iteration_allowed [OF iterate.hyps(2)] never_overruled_revert never_overruled_append
    by (auto simp: step_allowed_def)
qed

text \<open>
  C6. Drift brake: at every point where the program is about to trade again, the policy is the one
  it started with, the two pools are the projections of the timeline, every booked prediction was
  positive, and for every realized profit so far the policy decided to continue on the history as it
  was then. Once the policy halts on a realized profit, no further trade is made.
\<close>

theorem loop_never_outlives_a_halt:
  assumes "toy_reach ts s0 s" "to_history s0 = history_new"
  shows "to_policy s = to_policy s0 \<and> never_overruled (ts_profile ts) (to_policy s0) (to_history s)"
  by (rule reach_never_overruled [OF assms])

text \<open>A chain on which the two pools agree: the loop reads them, waits a block and goes on.\<close>

definition idle_setup :: "unit toy_setup" where
  "idle_setup = \<lparr>ts_keccak = (\<lambda>_. 7), ts_profile = Debug,
     ts_engine = (\<lambda>tx w. (Inr \<lparr>so_return_data = replicate 64 1, so_gas_used = 0,
                                 so_revert_reason = None, so_logs = []\<rparr>, w)),
     ts_caller = 1,
     ts_submitter = \<lparr>sub_client = \<lparr>client_url = []\<rparr>,
                     sub_signing_key = \<lparr>sk_sign_prehash = (\<lambda>_. Inl []), sk_normalize_s = (\<lambda>_. None),
                                        sk_recovery_byte = (\<lambda>_. 0)\<rparr>\<rparr>,
     ts_poller = receipt_poller_new (rpc_get_receipt \<lparr>client_url = []\<rparr>)
       (drift_decode_realized (toy_decode_realized (\<lambda>_. 7) Debug))
       \<lparr>pc_block_time_ms = 12000, pc_poll_interval_fraction = f64_of_rat (1 / 2),
        pc_confirmation_timeout_blocks = 10\<rparr>,
     ts_chain_id = 1, ts_gas_price = 1, ts_block_time_ms = 12000\<rparr>"

definition idle_state :: toy_state where
  "idle_state = \<lparr>to_nonce = 0, to_history = history_new,
     to_policy = \<lparr>rp_fast = fast_guard_default, rp_slow = slow_guard_default, rp_revert_burst = None,
                  rp_revert_gas = None, rp_volume_weighted = None, rp_drawdown = None\<rparr>,
     to_decoder = drift_injecting_new () 5 (f64_of_rat (3 / 10)),
     to_world = \<lparr>net_clock = 0, net_sent = [], net_replies = (\<lambda>_. (1, BodyInvalid [])), net_lag = (\<lambda>_. 0)\<rparr>\<rparr>"

lemma idle_run:
  obtains s where "toy_reach idle_setup idle_state s" "0 < net_clock (to_world s)"
proof -
  have "\<exists>s. toy_iteration idle_setup idle_state = Some (Next s) \<and> 0 < net_clock (to_world s)"
    by (simp add: toy_iteration_def read_reserves_def decode_reserves_def decode_u256_word_eq idle_setup_def
        idle_state_def MIN_DIVERGENCE_def self_divergence [simplified] net_sleep_def duration_from_millis_def)
  then obtain s where s: "toy_iteration idle_setup idle_state = Some (Next s)" "0 < net_clock (to_world s)" by blast
  show thesis by (rule that [OF toy_reach.iterate [OF toy_reach.start s(1)] s(2)])
qed

theorem loop_never_outlives_a_halt_witness:
  "\<exists>s. toy_reach idle_setup idle_state s \<and> 0 < net_clock (to_world s) \<and>
     to_policy s = to_policy idle_state \<and> never_overruled Debug (to_policy idle_state) (to_history s)"
proof -
  obtain s where "toy_reach idle_setup idle_state s" "0 < net_clock (to_world s)" by (rule idle_run)
  moreover have "to_history idle_state = history_new" "ts_profile idle_setup = Debug"
    by (simp_all add: idle_state_def idle_setup_def)
  ultimately show ?thesis
    using loop_never_outlives_a_halt [of idle_setup idle_state s] by (intro exI [of _ s]) simp
qed

end
