(* ===== verification/Toy_Demo.thy ===== *)
theory Toy_Demo
  imports Toy_Main_Spec Rpc_Spec Reconcile_Spec
begin

text \<open>
  The world of the demonstration of the README, \<^verbatim>\<open>--inject-drift --drift-after n\<close>, and its loop: a market that
  always offers the same profit and pays it, and a node that confirms every transaction at once.
\<close>

section \<open>The market and the node\<close>

definition demo_amount :: u128 where "demo_amount = 1000000"

definition demo_sim :: "bytes \<Rightarrow> RawSimOutput" where
  "demo_sim out = \<lparr>so_return_data = out, so_gas_used = 0, so_revert_reason = None, so_logs = []\<rparr>"

definition demo_engine :: "('e, network) sim_engine" where
  "demo_engine tx w =
     (Inr (demo_sim
        (if ct_to tx = POOL_A then to_be_bytes (1 :: U256) @ to_be_bytes (1 :: U256)
         else if ct_to tx = POOL_B then to_be_bytes (1 :: U256) @ to_be_bytes (2 :: U256)
         else to_be_bytes (1000000 :: U256))), w)"

definition demo_receipt :: TxReceipt where
  "demo_receipt = \<lparr>rc_tx_hash = 1, rc_block_number = 5, rc_status = TxConfirmed, rc_gas_used = 21000,
                   rc_effective_gas_price = 0\<rparr>"

definition demo_log :: "keccak \<Rightarrow> Log" where
  "demo_log keccak256 = \<lparr>log_address = [], log_topics = [keccak256 PROFIT_EVENT_SIGNATURE],
                         log_data = to_be_bytes (1000000 :: U256)\<rparr>"

text \<open>Even requests are submissions, odd ones ask for the receipt; delays are arbitrary.\<close>

definition demo_reply :: "keccak \<Rightarrow> (nat \<Rightarrow> nat) \<Rightarrow> nat \<Rightarrow> nat \<times> http_reply" where
  "demo_reply keccak256 delay k =
     (delay k, Body (JObject [(str ''result'',
        if even k then hex_string (to_be_bytes (1 :: hash32))
        else receipt_json demo_receipt [demo_log keccak256])]))"

definition demo_key :: signing_key where
  "demo_key = \<lparr>sk_sign_prehash = (\<lambda>h. Inr (\<lparr>sig_r = h, sig_s = h\<rparr>, \<lparr>ri_is_y_odd = False, ri_is_x_reduced = False\<rparr>)),
               sk_normalize_s = (\<lambda>_. None), sk_recovery_byte = (\<lambda>_. 0)\<rparr>"

definition demo_config :: PollerConfig where
  "demo_config = \<lparr>pc_block_time_ms = 12000, pc_poll_interval_fraction = f64_of_rat (1 / 2),
                  pc_confirmation_timeout_blocks = 10\<rparr>"

definition demo_setup :: "JsonRpcClient \<Rightarrow> address20 \<Rightarrow> keccak \<Rightarrow> profile \<Rightarrow> unit toy_setup" where
  "demo_setup client caller keccak256 pf =
     \<lparr>ts_keccak = keccak256, ts_profile = pf, ts_engine = demo_engine, ts_caller = caller,
      ts_submitter = \<lparr>sub_client = client, sub_signing_key = demo_key\<rparr>,
      ts_poller = receipt_poller_new (rpc_get_receipt client)
        (drift_decode_realized (toy_decode_realized keccak256 pf)) demo_config,
      ts_chain_id = 11155111, ts_gas_price = 1, ts_block_time_ms = 12000\<rparr>"

definition demo_start :: "keccak \<Rightarrow> (nat \<Rightarrow> nat) \<Rightarrow> (nat \<Rightarrow> nat) \<Rightarrow> u64 \<Rightarrow> toy_state" where
  "demo_start keccak256 delay lag drift_after =
     \<lparr>to_nonce = 0, to_history = history_new, to_policy = dual_guard,
      to_decoder = drift_injecting_new () drift_after (f64_of_rat (3 / 10)),
      to_world = \<lparr>net_clock = 0, net_sent = [], net_replies = demo_reply keccak256 delay, net_lag = lag\<rparr>\<rparr>"

section \<open>The calls of one iteration\<close>

lemma demo_addresses: "POOL_A \<noteq> POOL_B" "EXECUTOR_ADDRESS \<noteq> POOL_A" "EXECUTOR_ADDRESS \<noteq> POOL_B"
proof -
  have h: "hd (to_be_bytes (from_be_bytes (replicate 20 b) :: address20)) = b" for b
    by (subst to_from_be_bytes) simp_all
  have "hd (to_be_bytes POOL_A) = 0xA1" "hd (to_be_bytes POOL_B) = 0xB2" "hd (to_be_bytes EXECUTOR_ADDRESS) = 0x99"
    unfolding POOL_A_def POOL_B_def EXECUTOR_ADDRESS_def by (rule h)+
  then show "POOL_A \<noteq> POOL_B" "EXECUTOR_ADDRESS \<noteq> POOL_A" "EXECUTOR_ADDRESS \<noteq> POOL_B" by auto
qed

lemma demo_pools:
  "read_reserves k demo_engine caller POOL_A w = (Inr \<lparr>reserve0 = 1, reserve1 = 1\<rparr>, w)"
  "read_reserves k demo_engine caller POOL_B w = (Inr \<lparr>reserve0 = 1, reserve1 = 2\<rparr>, w)"
  "f64_lt MIN_DIVERGENCE (price_divergence \<lparr>reserve0 = 1, reserve1 = 1\<rparr> \<lparr>reserve0 = 1, reserve1 = 2\<rparr>)"
proof -
  have w: "word_at (to_be_bytes (a :: U256) @ to_be_bytes (b :: U256)) 0 = a"
    "word_at (to_be_bytes a @ to_be_bytes b) (Suc 0) = b" for a b
    using from_to_be_bytes [of a] from_to_be_bytes [of b] by (simp_all add: word_at_def length_to_be_bytes)
  note ab = demo_addresses
  show "read_reserves k demo_engine caller POOL_A w = (Inr \<lparr>reserve0 = 1, reserve1 = 1\<rparr>, w)"
    by (simp add: read_reserves_def demo_engine_def demo_sim_def decode_reserves_def decode_u256_word_eq w length_to_be_bytes)
  show "read_reserves k demo_engine caller POOL_B w = (Inr \<lparr>reserve0 = 1, reserve1 = 2\<rparr>, w)"
    using ab by (simp add: read_reserves_def demo_engine_def demo_sim_def decode_reserves_def decode_u256_word_eq w length_to_be_bytes)
  show "f64_lt MIN_DIVERGENCE (price_divergence \<lparr>reserve0 = 1, reserve1 = 1\<rparr> \<lparr>reserve0 = 1, reserve1 = 2\<rparr>)"
  proof -
    have one: "f64_of_int 1 = Fin False 1" "f64_of_int 2 = Fin False 2"
      using f64_of_int_exact [of 1] f64_of_int_exact [of 2] by simp_all
    have p: "pack False 1 = Fin False 1" "pack False 2 = Fin False 2"
      using pack_grid [of 1 0 False] pack_grid [of 2 0 False] by simp_all
    have "f64_lt (f64_of_rat (2 / 100)) (Fin False 1)"
      using f64_val_literal [of "2 / 100"] rnd_mono [of "2 / 100" "1 / 2"] rnd_p2 [of "- 1"]
      by (simp add: f64_lt_finite power_int_def field_simps)
    then show ?thesis
      by (simp add: price_divergence_def price_token0_in_token1_def one p f64_sub_def MIN_DIVERGENCE_def Let_def)
  qed
qed

lemma demo_simulated: "ct_to tx = EXECUTOR_ADDRESS \<Longrightarrow> demo_engine tx w = (Inr (demo_sim (to_be_bytes (1000000 :: U256))), w)"
  using demo_addresses by (simp add: demo_engine_def)

lemma demo_predicted:
  "toy_decode_predicted (demo_sim (to_be_bytes (1000000 :: U256))) = Inr (PredictedProfit demo_amount)"
  by (simp add: toy_decode_predicted_def demo_sim_def decode_u256_word_eq length_to_be_bytes demo_amount_def)

text \<open>From now on the node answers as the demonstration does from its request \<open>n\<close> on.\<close>

definition demo_world :: "keccak \<Rightarrow> (nat \<Rightarrow> nat) \<Rightarrow> nat \<Rightarrow> network \<Rightarrow> bool" where
  "demo_world keccak256 delay n w \<longleftrightarrow>
     (\<forall>j. net_replies w (length (net_sent w) + j) = demo_reply keccak256 delay (n + j))"

lemma demo_call:
  assumes "demo_world k delay n w"
  shows "\<exists>w'. rpc_call c m ps w = (Some (Inr (if even n then hex_string (to_be_bytes (1 :: hash32))
      else receipt_json demo_receipt [demo_log k])), w') \<and> demo_world k delay (Suc n) w'"
proof -
  have "net_replies w (length (net_sent w)) = demo_reply k delay n"
    "net_replies w (Suc (length (net_sent w)) + j) = demo_reply k delay (Suc n + j)" for j
    using assms [unfolded demo_world_def, rule_format, of 0] assms [unfolded demo_world_def, rule_format, of "Suc j"]
    by simp_all
  then show ?thesis by (auto simp: rpc_call_def client_call_def demo_world_def demo_reply_def Let_def)
qed

lemma as_str_hex_string: "as_str (hex_string bs) = Some (str ''0x'' @ hex_encode bs)"
  by (simp add: hex_string_def del: str_eq)

lemma copy_32_bytes: "copy_32 (to_be_bytes t) = Some (Inr t)"
  by (simp add: copy_32_def length_to_be_bytes from_to_be_bytes)

lemma demo_submit:
  assumes "demo_world k delay n w" "even n" "ut_chain_id tx = 11155111"
  shows "\<exists>w'. submit keccak256 pf (ts_submitter (demo_setup c2 a2 k2 pf2)) tx w = (Some (Inr 1), w') \<and> demo_world k delay (Suc n) w'"
proof -
  let ?h = "signing_hash keccak256 tx"
  have "\<exists>raw. signed_tx_rlp pf tx ?h ?h 0 = Some raw"
    using eip155_exact [of "ut_chain_id tx" 0 pf] assms(3) by (auto simp: signed_tx_rlp_def)
  then obtain raw where raw: "signed_tx_rlp pf tx ?h ?h 0 = Some raw" by blast
  obtain w' where w': "rpc_call c2 (str ''eth_sendRawTransaction'') [JString (str ''0x'' @ hex_encode raw)] w
      = (Some (Inr (hex_string (to_be_bytes (1 :: hash32)))), w')" "demo_world k delay (Suc n) w'"
    using demo_call [OF assms(1)] unfolding if_P [OF assms(2)] by blast
  have send: "send_raw c2 raw w = (Some (Inr 1), w')"
    by (simp only: send_raw_def rpc_then_def w'(1) prod.case option.case sum.case as_str_hex_string pure_res_def
        hex_to_bytes_encode and_then_def copy_32_bytes)
  have "submit keccak256 pf (ts_submitter (demo_setup c2 a2 k2 pf2)) tx w = (Some (Inr 1), w')"
    by (simp only: submit_def sign_normalized_def demo_setup_def demo_key_def spawn_blocking_def raw send
        toy_setup.select_convs RpcTxSubmitter.select_convs signing_key.select_convs signature.select_convs
        prod.case option.case sum.case Let_def)
  then show ?thesis using w'(2) by blast
qed


text \<open>The receipt is there at once; what it is booked as depends on the number of calls before.\<close>

lemma demo_receipt_reply:
  assumes "demo_world k delay n w" "odd n"
  shows "\<exists>w'. rpc_get_receipt c 1 w = (Inr (Some (demo_receipt, [demo_log k])), w') \<and> demo_world k delay (Suc n) w'"
proof -
  obtain w' where w': "rpc_call c (str ''eth_getTransactionReceipt'') [JString (str ''0x'' @ hex_encode (to_be_bytes (1 :: hash32)))] w
      = (Some (Inr (receipt_json demo_receipt [demo_log k])), w')" "demo_world k delay (Suc n) w'"
    using demo_call [OF assms(1)] unfolding if_not_P [OF assms(2)] by blast
  have "parse_receipt 1 (receipt_json demo_receipt [demo_log k]) = Some (Inr (Some (demo_receipt, [demo_log k])))"
    using parse_receipt_json [of demo_receipt] by (simp add: demo_receipt_def)
  then have "rpc_get_receipt c 1 w = (Inr (Some (demo_receipt, [demo_log k])), w')"
    by (simp only: rpc_get_receipt_def spawn_blocking_def parse_receipt_response_def rpc_then_def w'(1) pure_res_def
        prod.case option.case sum.case)
  then show ?thesis using w'(2) by blast
qed

definition demo_paid :: "nat \<Rightarrow> nat \<Rightarrow> i128" where
  "demo_paid drift_after n = (if n < drift_after then demo_amount else damp (f64_of_rat (3 / 10)) demo_amount)"

lemma demo_decode:
  assumes "unat (di_calls_so_far d) = n" "unat (di_drift_after d) = m" "di_damping_factor d = f64_of_rat (3 / 10)"
  shows "drift_decode_realized (toy_decode_realized k pf) demo_receipt [demo_log k] d =
    Some (Inr (RealizedProfit (demo_paid m n)), d\<lparr>di_inner := (), di_calls_so_far := di_calls_so_far d + 1\<rparr>)"
proof -
  have f: "find (first_topic_is (k PROFIT_EVENT_SIGNATURE)) [demo_log k] = Some (demo_log k)"
    by (simp add: demo_log_def first_topic_is_def)
  have g: "u_mul pf (ucast (21000 :: u64)) 0 = Some (0 :: u128)"
    using u_mul_exact(1) [of "ucast (21000 :: u64)" "0 :: u128" pf] by simp
  have "in_srange TYPE(128) (sint demo_amount - sint (0 :: i128))"
    by (simp add: in_srange_def demo_amount_def)
  then have s: "s_sub pf demo_amount 0 = Some demo_amount"
    using s_sub_exact(1) [of demo_amount 0 pf] by simp
  have r: "toy_decode_realized k pf demo_receipt [demo_log k] u = Some (Inr (RealizedProfit demo_amount), u)" for u
    using f g s by (simp add: toy_decode_realized_def event_topic0_def demo_receipt_def Let_def)
      (simp add: demo_log_def decode_u256_word_eq length_to_be_bytes demo_amount_def)
  show ?thesis
    using assms by (auto simp: drift_decode_realized_def r Let_def demo_paid_def damp_def word_less_nat_alt)
qed

lemma demo_poll:
  assumes "demo_world k delay n w" "odd n" "unat (di_calls_so_far d) = i" "unat (di_drift_after d) = m"
    "di_damping_factor d = f64_of_rat (3 / 10)"
  shows "\<exists>w'. poll_until_settled pf (ts_poller (demo_setup c a k pf)) net_clock net_sleep 1 p
       \<lparr>ps_history = h, ps_decoder = d, ps_world = w\<rparr>
     = Some (Inr (Realized (RealizedProfit (demo_paid m i))),
         \<lparr>ps_history = history_append h p (RealizedProfit (demo_paid m i)),
          ps_decoder = d\<lparr>di_inner := (), di_calls_so_far := di_calls_so_far d + 1\<rparr>, ps_world = w'\<rparr>)
     \<and> demo_world k delay (Suc n) w'"
proof -
  obtain w' where w': "rpc_get_receipt c 1 w = (Inr (Some (demo_receipt, [demo_log k])), w')"
    "demo_world k delay (Suc n) w'"
    using demo_receipt_reply [OF assms(1,2)] by blast
  have t: "poller_timeout pf demo_config = Some (duration_from_millis 120000)"
    using u_mul_exact(1) [of "12000 :: u64" 10 pf] by (simp add: poller_timeout_def demo_config_def)
  have c: "rc_status demo_receipt = TxConfirmed" by (simp add: demo_receipt_def)
  show ?thesis
    using w' by (simp add: poll_until_settled_def demo_setup_def receipt_poller_new_def t poll_loop.simps settle_def c
        demo_decode [OF assms(3-5)])
qed


section \<open>One iteration\<close>

definition demo_entries :: "nat \<Rightarrow> nat \<Rightarrow> HistoryEntry list" where
  "demo_entries m n = map (\<lambda>i. ConfirmedPair (PredictedProfit demo_amount) (RealizedProfit (demo_paid m i))) [0..<n]"

definition demo_inv :: "keccak \<Rightarrow> (nat \<Rightarrow> nat) \<Rightarrow> nat \<Rightarrow> nat \<Rightarrow> toy_state \<Rightarrow> bool" where
  "demo_inv k delay m n st \<longleftrightarrow>
     unat (to_nonce st) = n \<and> to_policy st = dual_guard \<and> to_history st = history_of (demo_entries m n) \<and>
     unat (di_calls_so_far (to_decoder st)) = n \<and> unat (di_drift_after (to_decoder st)) = m \<and>
     di_damping_factor (to_decoder st) = f64_of_rat (3 / 10) \<and> demo_world k delay (2 * n) (to_world st)"

lemma demo_entries_Suc:
  "history_append (history_of (demo_entries m n)) (PredictedProfit demo_amount) (RealizedProfit (demo_paid m n))
     = history_of (demo_entries m (Suc n))"
  by (simp add: demo_entries_def append_is_history_of)

lemma unat_succ: "unat (x :: u64) = n \<Longrightarrow> n + 1 < 2 ^ 64 \<Longrightarrow> unat (x + 1) = Suc n"
  using u_add_exact(2) [of x 1] by simp

lemma demo_trade:
  assumes inv: "demo_inv k delay m n st" and n: "n + 1 < 2 ^ 64"
    and guards: "run_guards pf dual_guard (history_of (demo_entries m (Suc n))) = Some d"
  shows "\<exists>t. demo_inv k delay m (Suc n) t \<and> toy_trade (demo_setup c a k pf) (PredictedProfit demo_amount) calldata st
     = Some (case d of Halt r \<Rightarrow> Halted r t | Continue \<Rightarrow> Next t)"
proof -
  have i: "to_policy st = dual_guard" "to_history st = history_of (demo_entries m n)" "unat (to_nonce st) = n"
    "unat (di_calls_so_far (to_decoder st)) = n" "unat (di_drift_after (to_decoder st)) = m"
    "di_damping_factor (to_decoder st) = f64_of_rat (3 / 10)" "demo_world k delay (2 * n) (to_world st)"
    using inv by (simp_all add: demo_inv_def)
  let ?tx = "toy_unsigned (demo_setup c a k pf) (to_nonce st) calldata"
  obtain w where w: "submit k pf (ts_submitter (demo_setup c a k pf)) ?tx (to_world st) = (Some (Inr 1), w)"
    "demo_world k delay (Suc (2 * n)) w"
    using demo_submit [OF i(7), of ?tx k pf c a k pf] by (auto simp: toy_unsigned_def demo_setup_def)
  let ?d = "(to_decoder st)\<lparr>di_inner := (), di_calls_so_far := di_calls_so_far (to_decoder st) + 1\<rparr>"
  obtain v where v: "poll_until_settled pf (ts_poller (demo_setup c a k pf)) net_clock net_sleep 1 (PredictedProfit demo_amount)
       \<lparr>ps_history = to_history st, ps_decoder = to_decoder st, ps_world = w\<rparr>
     = Some (Inr (Realized (RealizedProfit (demo_paid m n))),
         \<lparr>ps_history = history_of (demo_entries m (Suc n)), ps_decoder = ?d, ps_world = v\<rparr>)"
    "demo_world k delay (Suc (Suc (2 * n))) v"
    using demo_poll [OF w(2) _ i(4,5,6), where pf = pf and p = "PredictedProfit demo_amount" and h = "to_history st"]
    by (auto simp: i(2) demo_entries_Suc)
  have a: "u_add pf (to_nonce st) 1 = Some (to_nonce st + 1)" using u_add_exact(1) [of "to_nonce st" 1 pf] n i(3) by simp
  let ?t = "st\<lparr>to_nonce := to_nonce st + 1, to_history := history_of (demo_entries m (Suc n)), to_decoder := ?d,
              to_world := v, to_policy := dual_guard\<rparr>"
  have "demo_inv k delay m (Suc n) ?t"
    using i n v(2) unat_succ [OF i(3)] unat_succ [OF i(4)] by (simp add: demo_inv_def)
  moreover have "ts_keccak (demo_setup c a k pf) = k" "ts_profile (demo_setup c a k pf) = pf" by (simp_all add: demo_setup_def)
  then have "toy_trade (demo_setup c a k pf) (PredictedProfit demo_amount) calldata st
     = Some (case d of Halt r \<Rightarrow> Halted r ?t | Continue \<Rightarrow> Next ?t)"
    using w(1) v(1) a i(1) guards by (cases d) (simp_all add: toy_trade_def policy_evaluate_def Let_def)
  ultimately show ?thesis by blast
qed

lemma demo_inv_world: "demo_inv k delay m n st \<Longrightarrow> demo_inv k delay m n (st\<lparr>to_world := net_sleep x (to_world st)\<rparr>)"
  by (simp add: demo_inv_def demo_world_def net_sleep_def)

lemma demo_iteration:
  assumes inv: "demo_inv k delay m n st" and n: "n + 1 < 2 ^ 64"
    and guards: "run_guards pf dual_guard (history_of (demo_entries m (Suc n))) = Some d"
  shows "\<exists>t. demo_inv k delay m (Suc n) t \<and> toy_iteration (demo_setup c a k pf) st
     = Some (case d of Halt r \<Rightarrow> Halted r t | Continue \<Rightarrow> Next t)"
proof -
  let ?ts = "demo_setup c a k pf"
  have [simp]: "ts_keccak ?ts = k" "ts_engine ?ts = demo_engine" "ts_caller ?ts = a" by (simp_all add: demo_setup_def)
  let ?ra = "\<lparr>reserve0 = 1, reserve1 = 1\<rparr>" and ?rb = "\<lparr>reserve0 = 1, reserve1 = 2\<rparr>"
  obtain t where t: "demo_inv k delay m (Suc n) t"
    "toy_trade ?ts (PredictedProfit demo_amount) (toy_calldata ?ts ?ra ?rb) st
       = Some (case d of Halt r \<Rightarrow> Halted r t | Continue \<Rightarrow> Next t)"
    using demo_trade [OF assms] by blast
  have same: "st\<lparr>to_world := to_world st\<rparr> = st" by (cases st) simp
  have pos: "0 < sint demo_amount" by (simp add: demo_amount_def)
  have "toy_simulate ?ts ?ra ?rb st = Some (case d of Halt r \<Rightarrow> Halted r t | Continue \<Rightarrow> Next t)"
    using t(2) same pos by (simp add: toy_simulate_def Let_def demo_simulated demo_predicted)
  then have "toy_iteration ?ts st = Some (case d of Halt r \<Rightarrow> Halted r t
      | Continue \<Rightarrow> Next (t\<lparr>to_world := net_sleep (duration_from_millis (ts_block_time_ms ?ts)) (to_world t)\<rparr>))"
    using same by (cases d) (simp_all add: toy_iteration_def demo_pools)
  then show ?thesis using t(1) demo_inv_world [OF t(1)] by (cases d) auto
qed

section \<open>What the policy decides\<close>

lemma demo_damped:
  defines "y \<equiv> damp (f64_of_rat (3 / 10)) demo_amount"
  shows "0 \<le> sint y \<and> sint y \<le> 375000"
proof -
  define c where "c = round_mag (3 / 10)"
  have c: "0 \<le> c" "c \<le> 3 / 8"
    using round_mag_mono [of "3 / 10" "3 / 8"] round_mag_grid [of 3 "- 3"]
    by (simp_all add: c_def power_int_def field_simps)
  define m where "m = round_mag (1000000 * c)"
  have m: "0 \<le> m" "m \<le> 375000"
    using round_mag_mono [of "1000000 * c" 375000] round_mag_grid [of 375000 0] c by (simp_all add: m_def)
  have "\<bar>1000000 * c\<bar> \<le> 2 powi 1023"
  proof -
    have "1000000 * c \<le> 2 powi 20" using c(2) by simp
    then show ?thesis using p2_le_iff [of 20 1023] c(1) by simp
  qed
  then have "pack False (1000000 * c) = Fin False m"
    using not_overflowed [of "1000000 * c"] c(1) by (simp add: pack_def m_def Let_def)
  moreover have "f64_of_int 1000000 = Fin False 1000000" using f64_of_int_exact [of 1000000] by simp
  moreover have "sint demo_amount = 1000000" by (simp add: demo_amount_def)
  ultimately have "y = word_of_int (max (- (2 ^ 127)) (min (2 ^ 127 - 1) \<lfloor>m + 1 / 2\<rfloor>))"
    by (simp add: y_def damp_def literal_three_tenths c_def [symmetric] f64_as_i128_def)
  moreover obtain z where z: "z = \<lfloor>m + 1 / 2\<rfloor>" "0 \<le> z" "z \<le> 375000"
    using m by (simp add: floor_le_iff)
  moreover have "max (- (2 ^ 127)) (min (2 ^ 127 - 1) z) = z" "in_srange TYPE(128) z"
    using z(2,3) by (auto simp: in_srange_def)
  ultimately have "sint y = z" by (simp only: sint_of_srange)
  then show ?thesis using z by simp
qed

lemma demo_pairs: "confirmed_pairs (demo_entries m n)
    = map (\<lambda>i. (PredictedProfit demo_amount, RealizedProfit (demo_paid m i))) [0..<n]"
  unfolding demo_entries_def by (induction n) simp_all

lemma demo_no_reverts: "revert_events (demo_entries m n) = []"
  unfolding demo_entries_def by (induction n) simp_all

lemma dual_guard_total: "run_guards pf dual_guard h \<noteq> None"
  by (simp add: run_guards_def guard_or_def revert_gas_guard_def drawdown_guard_def volume_weighted_guard_def
      dual_guard_def split: option.split)

lemma demo_healthy:
  assumes "n \<le> m"
  shows "run_guards pf dual_guard (history_of (demo_entries m n)) = Some Continue"
proof -
  have "over_performing (history_of (demo_entries m n))"
    using assms by (auto simp: over_performing_def demo_pairs list_all_iff demo_paid_def)
  then have "fast_guard dual_guard (history_of (demo_entries m n)) = None"
    "slow_guard dual_guard (history_of (demo_entries m n)) = None"
    using over_performing_fast over_performing_slow dual_guard_tolerant dual_guard_ok by blast+
  then show ?thesis
    by (simp add: run_guards_Continue revert_burst_guard_def revert_gas_guard_def drawdown_guard_def
        volume_weighted_guard_def) (simp add: dual_guard_def)
qed

lemma demo_bad_ratio:
  "f64_lt (pair_ratio (PredictedProfit demo_amount, RealizedProfit (damp (f64_of_rat (3 / 10)) demo_amount))) (Fin False (1 / 2))"
proof -
  let ?y = "damp (f64_of_rat (3 / 10)) demo_amount"
  obtain t where t: "t = sint ?y" "0 \<le> t" "t \<le> 375000" using demo_damped by simp
  define q :: rat where "q = of_int t / 1000000"
  have "(of_int t :: rat) \<le> of_int 375000" using t(3) by (simp only: of_int_le_iff)
  then have q: "0 \<le> q" "q \<le> 3 / 8" using t(2) by (simp_all add: q_def)
  have a: "sint demo_amount = 1000000" by (simp add: demo_amount_def)
  have "round_mag q \<le> 3 / 8"
    using round_mag_mono [of q "3 / 8"] round_mag_grid [of 3 "- 3"] q by (simp add: power_int_def field_simps)
  moreover have "\<bar>q\<bar> \<le> 2 powi 1023"
  proof -
    have "q \<le> 2 powi 0" using q(2) by simp
    then show ?thesis using p2_le_iff [of 0 1023] q(1) by simp
  qed
  ultimately have "f64_lt (pack False q) (Fin False (1 / 2))"
    using not_overflowed [of q] q(1) by (simp add: pack_def Let_def)
  moreover have "pair_ratio (PredictedProfit demo_amount, RealizedProfit ?y) = pack False q"
    using pair_ratio_small [of demo_amount ?y] t(2,3) unfolding a t(1) [symmetric] q_def by simp
  ultimately show ?thesis by simp
qed

lemma demo_bad:
  "run_guards pf dual_guard (history_of (demo_entries m (m + 3))) \<noteq> Some Continue"
proof -
  let ?bad = "ConfirmedPair (PredictedProfit demo_amount) (RealizedProfit (damp (f64_of_rat (3 / 10)) demo_amount))"
  have "[0..<m + 3] = [0..<m] @ [m, m + 1, m + 2]" by (simp add: numeral_3_eq_3)
  then have e: "demo_entries m (m + 3) = demo_entries m m @ replicate 3 ?bad"
    by (simp add: demo_entries_def demo_paid_def numeral_3_eq_3)
  have "0 < sint demo_amount" by (simp add: demo_amount_def)
  then have "bad_streak dual_guard (replicate 3 ?bad)"
    using demo_bad_ratio
    by (simp add: bad_streak_def Let_def numeral_3_eq_3 positive_prediction_def dual_guard_def fast_guard_default_def literal_half)
  from bad_streak_halts [OF this history_of_ok, of pf "demo_entries m m"]
  show ?thesis by (simp only: e fold_history_push not_False_eq_True)
qed

section \<open>The loop\<close>

lemma demo_loop:
  assumes "demo_inv k delay m n st" "n < m + 3" "m + 3 < 2 ^ 64"
  shows "\<exists>r t j. toy_loop (demo_setup c a k pf) st = Some (Halted r t) \<and> n < j \<and> m < j \<and> j \<le> m + 3 \<and>
     to_history t = history_of (demo_entries m j)"
  using assms
proof (induction "m + 3 - n" arbitrary: n st)
  case (Suc x)
  let ?ts = "demo_setup c a k pf"
  obtain d where d: "run_guards pf dual_guard (history_of (demo_entries m (Suc n))) = Some d"
    using dual_guard_total by blast
  obtain t where t: "demo_inv k delay m (Suc n) t"
    "toy_iteration ?ts st = Some (case d of Halt r \<Rightarrow> Halted r t | Continue \<Rightarrow> Next t)"
    using demo_iteration [OF Suc.prems(1) _ d] Suc.prems by auto
  show ?case
  proof (cases d)
    case (Halt r)
    have "m < Suc n" using demo_healthy [of "Suc n" m pf] d Halt by (cases "Suc n \<le> m") auto
    moreover have "toy_loop ?ts st = Some (Halted r t)" using t(2) Halt by (simp add: toy_loop.simps)
    moreover have "to_history t = history_of (demo_entries m (Suc n))" using t(1) by (simp add: demo_inv_def)
    ultimately show ?thesis using Suc.prems(2) by (intro exI [of _ r] exI [of _ t] exI [of _ "Suc n"]) simp
  next
    case Continue
    then have "Suc n < m + 3" using d demo_bad [of pf m] Suc.prems(2) by (cases "Suc n = m + 3") auto
    moreover have "toy_loop ?ts st = toy_loop ?ts t" using t(2) Continue by (simp add: toy_loop.simps [of _ st])
    moreover have "x = m + 3 - Suc n" using Suc.hyps(2) by simp
    ultimately show ?thesis using Suc.hyps(1) [OF _ t(1)] Suc.prems(3) Suc_lessD by metis
  qed
qed simp

lemma demo_inv_start:
  "demo_inv keccak256 delay (unat drift_after) 0 (demo_start keccak256 delay lag drift_after)"
  by (simp add: demo_inv_def demo_start_def drift_injecting_new_def demo_world_def demo_entries_def history_of_def history_new_def)

lemma demo_reach:
  assumes "n \<le> unat drift_after"
  shows "\<exists>s. toy_reach (demo_setup c a k pf) (demo_start k delay lag drift_after) s \<and> demo_inv k delay (unat drift_after) n s"
  using assms
proof (induction n)
  case 0
  show ?case using demo_inv_start toy_reach.start by blast
next
  case (Suc n)
  then obtain s where s: "toy_reach (demo_setup c a k pf) (demo_start k delay lag drift_after) s"
    "demo_inv k delay (unat drift_after) n s" by auto
  have "n + 1 < 2 ^ 64" using Suc.prems unsigned_less [of drift_after, where 'a = nat] by simp
  from demo_iteration [OF s(2) this demo_healthy [OF Suc.prems], of c a pf]
  show ?case using toy_reach.iterate [OF s(1)] by auto
qed

end
