(* ===== verification/Toy_Program.thy ===== *)
theory Toy_Program
  imports Toy_Demo
begin

text \<open>
  The demonstration from the command line to the exit: \<^verbatim>\<open>main\<close> reads the environment and its
  arguments, asks the node for the block, the nonce and the gas price, and runs the loop of
  \<open>Toy_Demo\<close> until the policy halts it.
\<close>

section \<open>The node at start\<close>

definition quantity :: "'a::len word \<Rightarrow> Value" where
  "quantity n = JString (str ''0x'' @ hex_of_nat (unat n))"

definition demo_block :: "u64 \<Rightarrow> u64 \<Rightarrow> u64 \<Rightarrow> Value" where
  "demo_block number timestamp gas_limit =
     JObject [(str ''number'', quantity number), (str ''timestamp'', quantity timestamp),
              (str ''gasLimit'', quantity gas_limit)]"

text \<open>The first three requests are those of \<^verbatim>\<open>main\<close>; the loop's follow.\<close>

definition demo_network :: "keccak \<Rightarrow> Value \<Rightarrow> (nat \<Rightarrow> nat) \<Rightarrow> (nat \<Rightarrow> nat) \<Rightarrow> network" where
  "demo_network keccak256 block delay lag =
     \<lparr>net_clock = 0, net_sent = [],
      net_replies = (\<lambda>j.
        if j < 3
        then (delay j, Body (JObject [(str ''result'',
               if j = 0 then block else if j = 1 then quantity (0 :: u64) else quantity (1 :: u128))]))
        else demo_reply keccak256 (\<lambda>k. delay (k + 3)) (j - 3)),
      net_lag = lag\<rparr>"

lemma trim_0x_quantity: "trim_0x (str ''0x'' @ hex_of_nat n) = hex_of_nat n"
proof -
  have d: "digit_char e \<noteq> 120" if "e < 16" for e
  proof
    assume "digit_char e = 120"
    then have "hex_digit 120 = Some e" using that hex_digit_char [of e] by simp
    then show False by (simp add: hex_digit_def Let_def)
  qed
  have "\<forall>b \<in> set (hex_of_nat n). b \<noteq> 120"
  proof (induction n rule: hex_of_nat.induct)
    case (1 n)
    then show ?case by (subst hex_of_nat.simps) (auto simp: d)
  qed
  moreover have "trim_0x s = s" if "\<forall>b \<in> set s. b \<noteq> 120" for s
    using that by (cases s rule: trim_0x.cases) auto
  ultimately show ?thesis by (simp add: str_def)
qed

lemma parse_trimmed_quantity: "parse_trimmed (str ''0x'' @ hex_of_nat (unat n)) = Inr (n :: 'a::len word)"
  by (simp add: parse_trimmed_def trim_0x_quantity from_str_radix16_of_nat)

lemma hex_to_bytes32_encode:
  "(hex_to_bytes32 (str ''0x'' @ hex_encode (to_be_bytes secret)) :: ('e main_error, hash32) res) = Some (Inr secret)"
proof -
  let ?bs = "to_be_bytes secret"
  have l: "length ?bs = 32" by (simp add: length_to_be_bytes)
  have "collect_res (\<lambda>i. case str_slice (hex_encode ?bs) i (i + 2) of
          None \<Rightarrow> panic | Some t \<Rightarrow> Some (map_sum (MainParse :: _ \<Rightarrow> 'e main_error) id (from_str_radix16 t :: ParseIntError + u8)))
        (map (\<lambda>k. 2 * k) [0..<32])
      = Some (Inr (map (\<lambda>i. ?bs ! (i div 2)) (map (\<lambda>k. 2 * k) [0..<32])))"
    using str_slice_encode [of _ ?bs] by (intro collect_res_Inr) (auto simp: l from_str_radix16_byte)
  moreover have "map (\<lambda>i. ?bs ! (i div 2)) (map (\<lambda>k. 2 * k) [0..<32]) = ?bs"
    using map_nth [of ?bs] by (simp add: l comp_def)
  ultimately show ?thesis
    by (simp only: hex_to_bytes32_def strip_0x_prefix Let_def length_hex_encode l)
      (simp add: l from_to_be_bytes)
qed

lemma startup_call:
  assumes "net_replies w (length (net_sent w)) = (d, Body (JObject [(str ''result'', v)]))"
  obtains w' where "client_call c m ps w = (Inr v, w')" "net_replies w' = net_replies w"
    "length (net_sent w') = Suc (length (net_sent w))"
  using assms that by (simp add: client_call_def Let_def)

lemma startup_block:
  assumes "net_replies w (length (net_sent w)) = (d, Body (JObject [(str ''result'', demo_block n t g)]))"
  obtains b w' where "fetch_block_context c w = (Inr b :: unit main_error + BlockContext, w')" "net_replies w' = net_replies w"
    "length (net_sent w') = Suc (length (net_sent w))"
proof -
  obtain w' where w': "client_call c (str ''eth_getBlockByNumber'') (JArray [JString (str ''latest''), JBool False]) w
      = (Inr (demo_block n t g), w')" "net_replies w' = net_replies w" "length (net_sent w') = Suc (length (net_sent w))"
    using startup_call [OF assms] .
  have f: "block_u64 (demo_block n t g) (str ''number'') = Inr n" "block_u64 (demo_block n t g) (str ''timestamp'') = Inr t"
    "block_u64 (demo_block n t g) (str ''gasLimit'') = Inr g"
    by (simp_all add: block_u64_def field_str_def demo_block_def quantity_def parse_trimmed_quantity)
  show ?thesis using that w' by (simp add: fetch_block_context_def f)
qed

lemma startup_nonce:
  assumes "net_replies w (length (net_sent w)) = (d, Body (JObject [(str ''result'', quantity n)]))"
  obtains w' where "fetch_nonce c a w = (Inr n :: unit main_error + u64, w')" "net_replies w' = net_replies w"
    "length (net_sent w') = Suc (length (net_sent w))"
proof -
  obtain w' where "client_call c (str ''eth_getTransactionCount'')
        (JArray [JString (foldl (\<lambda>out b. out @ hex_byte b) (str ''0x'') (to_be_bytes a)), JString (str ''pending'')]) w
      = (Inr (quantity n), w')" "net_replies w' = net_replies w" "length (net_sent w') = Suc (length (net_sent w))"
    using startup_call [OF assms] .
  then show ?thesis
    using that by (simp add: fetch_nonce_def Let_def quantity_def parse_trimmed_quantity)
qed

lemma startup_gas_price:
  assumes "net_replies w (length (net_sent w)) = (d, Body (JObject [(str ''result'', quantity n)]))"
  obtains w' where "fetch_gas_price c w = (Inr n :: unit main_error + u128, w')" "net_replies w' = net_replies w"
    "length (net_sent w') = Suc (length (net_sent w))"
proof -
  obtain w' where "client_call c (str ''eth_gasPrice'') (JArray []) w = (Inr (quantity n), w')"
    "net_replies w' = net_replies w" "length (net_sent w') = Suc (length (net_sent w))"
    using startup_call [OF assms] .
  then show ?thesis using that by (simp add: fetch_gas_price_def quantity_def parse_trimmed_quantity)
qed

section \<open>From the arguments to the loop\<close>

definition demo_args :: "bytes \<Rightarrow> u64 \<Rightarrow> bytes list" where
  "demo_args prog drift_after =
     [prog, str ''--inject-drift'', str ''--drift-after'', dec_nat (unat drift_after)]"

definition demo_environment :: "environment \<Rightarrow> hash32 \<Rightarrow> bool" where
  "demo_environment env secret \<longleftrightarrow>
     env (str ''TESTNET_RPC_URL'') \<noteq> None \<and>
     env (str ''PRIVATE_KEY'') = Some (str ''0x'' @ hex_encode (to_be_bytes secret)) \<and>
     env (str ''CHAIN_ID'') = None \<and> env (str ''BLOCK_TIME_MS'') = None"

lemma demo_cli:
  "prog \<noteq> str ''--drift-after'' \<Longrightarrow>
   parse_args (demo_args prog n) = \<lparr>cli_inject_drift = True, cli_drift_after = n\<rparr>"
  by (simp add: parse_args_def demo_args_def or_default_def)

lemma half_ok: "f64_lt (f64_of_int 0) (f64_of_rat (1 / 2)) \<and> f64_le (f64_of_rat (1 / 2)) (f64_of_int 1)"
  using f64_of_int_exact [of 0] f64_of_int_exact [of 1] by (simp add: literal_half)

lemma demo_toy_start:
  assumes env: "demo_environment env secret" and prog: "prog \<noteq> str ''--drift-after''"
  obtains c a st where
    "fst (toy_start keccak256 pf (\<lambda>_. Inr (demo_key, public_key)) (\<lambda>_ _. demo_engine) env
        (demo_args prog drift_after) (demo_network keccak256 (demo_block n t g) delay lag))
       = Some (Inr (demo_setup c a keccak256 pf, st))"
    "demo_inv keccak256 (\<lambda>k. delay (k + 3)) (unat drift_after) 0 st"
proof -
  let ?w = "demo_network keccak256 (demo_block n t g) delay lag"
  obtain url where url: "env (str ''TESTNET_RPC_URL'') = Some url" using env by (auto simp: demo_environment_def)
  have vars: "env (str ''PRIVATE_KEY'') = Some (str ''0x'' @ hex_encode (to_be_bytes secret))"
    "env (str ''CHAIN_ID'') = None" "env (str ''BLOCK_TIME_MS'') = None"
    using env by (auto simp: demo_environment_def)
  let ?c = "\<lparr>client_url = url\<rparr>" and ?a = "address_from_public_key keccak256 public_key"
  obtain b w1 where w1: "fetch_block_context ?c ?w = (Inr b :: unit main_error + BlockContext, w1)"
    "net_replies w1 = net_replies ?w" "length (net_sent w1) = 1"
    by (rule startup_block [of ?w "delay 0" n t g ?c]) (auto simp: demo_network_def)
  obtain w2 where w2: "fetch_nonce ?c ?a w1 = (Inr 0 :: unit main_error + u64, w2)"
    "net_replies w2 = net_replies ?w" "length (net_sent w2) = 2"
    by (rule startup_nonce [of w1 "delay 1" 0 ?c ?a]) (use w1 in \<open>auto simp: demo_network_def\<close>)
  obtain w3 where w3: "fetch_gas_price ?c w2 = (Inr 1 :: unit main_error + u128, w3)"
    "net_replies w3 = net_replies ?w" "length (net_sent w3) = 3"
    by (rule startup_gas_price [of w2 "delay 2" 1 ?c]) (use w2 in \<open>auto simp: demo_network_def\<close>)
  let ?st = "\<lparr>to_nonce = 0, to_history = history_new, to_policy = dual_guard,
              to_decoder = drift_injecting_new () drift_after (f64_of_rat (3 / 10)), to_world = w3\<rparr>"
  have "net_replies w3 (length (net_sent w3) + j) = demo_reply keccak256 (\<lambda>k. delay (k + 3)) j" for j
    using w3(2,3) by (simp add: demo_network_def)
  then have inv: "demo_inv keccak256 (\<lambda>k. delay (k + 3)) (unat drift_after) 0 ?st"
    by (simp add: demo_inv_def drift_injecting_new_def demo_world_def demo_entries_def history_of_Nil)
  have cfg: "\<exists>r. revm_backend_new b' 12000 (f64_of_rat (1 / 2)) 4 = Some r"
    "poller_config_new 12000 (f64_of_rat (1 / 2)) 10 = Some demo_config" for b'
    using half_ok by (simp_all add: revm_backend_new_def poller_config_new_def demo_config_def)
  obtain be where be: "revm_backend_new b 12000 (f64_of_rat (1 / 2)) 4 = Some be" using cfg(1) by blast
  have "fst (toy_start keccak256 pf (\<lambda>_. Inr (demo_key, public_key)) (\<lambda>_ _. demo_engine) env
        (demo_args prog drift_after) ?w) = Some (Inr (demo_setup ?c ?a keccak256 pf, ?st))"
    by (simp add: be w1(1) w2(1) w3(1) toy_start_def demo_cli [OF prog] url vars hex_to_bytes32_encode env_u64_def or_default_def rpc_then_def
        pure_res_def lift_main_def cfg(2) default_dual_guard_eq demo_setup_def Let_def
        json_rpc_client_new_def rpc_db_factory_new_def rpc_tx_submitter_new_def)
  with inv show ?thesis using that by blast
qed

section \<open>The demonstration halts\<close>

text \<open>
  C7. The demonstration of the README works, from the command line to the exit: started with
  \<^verbatim>\<open>--inject-drift --drift-after n\<close> and an RPC URL and a private key in the environment (or in the
  \<^verbatim>\<open>.env\<close> file), in a market that always offers and pays the same profit, on a node that answers and
  confirms at once, with a signer that signs and with \<^verbatim>\<open>CHAIN_ID\<close> and \<^verbatim>\<open>BLOCK_TIME_MS\<close> left to their
  defaults, whatever the hash function, the public key, the build profile and the delays of network
  and timers are, the program returns, and it returns because the policy halted it: not during the
  first \<open>n\<close> trades, and within the three damped ones that follow.
\<close>

theorem injected_drift_halts:
  assumes "unat drift_after + 3 < 2 ^ 64" "prog \<noteq> str ''--drift-after''"
    and "load_dotenv dotenv env0 = Some env" "demo_environment env secret"
  shows "\<exists>reason st n.
     toy_main keccak256 pf (\<lambda>_. Inr (demo_key, public_key)) (\<lambda>_ _. demo_engine) dotenv env0
       (demo_args prog drift_after) (demo_network keccak256 (demo_block number timestamp gas_limit) delay lag)
       = Some (ExitOk reason st :: unit main_exit) \<and>
     unat drift_after < n \<and> n \<le> unat drift_after + 3 \<and>
     to_history st = history_of (demo_entries (unat drift_after) n)"
proof -
  obtain c a st where start:
    "fst (toy_start keccak256 pf (\<lambda>_. Inr (demo_key, public_key)) (\<lambda>_ _. demo_engine) env
        (demo_args prog drift_after) (demo_network keccak256 (demo_block number timestamp gas_limit) delay lag))
       = Some (Inr (demo_setup c a keccak256 pf, st))"
    "demo_inv keccak256 (\<lambda>k. delay (k + 3)) (unat drift_after) 0 st"
    by (rule demo_toy_start [OF assms(4,2)])
  obtain r t j where "toy_loop (demo_setup c a keccak256 pf) st = Some (Halted r t)"
    "unat drift_after < j" "j \<le> unat drift_after + 3" "to_history t = history_of (demo_entries (unat drift_after) j)"
    using demo_loop [OF start(2) _ assms(1), where pf = pf and c = c and a = a] by auto
  then show ?thesis by (auto simp: toy_main_def assms(3) start(1))
qed

definition demo_env :: environment where
  "demo_env = [str ''TESTNET_RPC_URL'' \<mapsto> str ''http://localhost:8545'',
               str ''PRIVATE_KEY'' \<mapsto> str ''0x'' @ hex_encode (to_be_bytes (1 :: hash32))]"

theorem injected_drift_halts_witness:
  "\<exists>reason st n.
     toy_main (\<lambda>_. 7) Debug (\<lambda>_. Inr (demo_key, [4])) (\<lambda>_ _. demo_engine) None demo_env
       (demo_args (str ''toy-arbitrage'') 5) (demo_network (\<lambda>_. 7) (demo_block 100 1700000000 30000000) (\<lambda>_. 40) (\<lambda>_. 0))
       = Some (ExitOk reason st :: unit main_exit) \<and>
     5 < n \<and> n \<le> 8 \<and> to_history st = history_of (demo_entries 5 n)"
proof -
  have "load_dotenv None demo_env = Some demo_env" by (simp add: load_dotenv_def)
  moreover have "demo_environment demo_env 1" by (simp add: demo_environment_def demo_env_def)
  ultimately show ?thesis
    using injected_drift_halts [of 5 "str ''toy-arbitrage''" None demo_env demo_env 1 "\<lambda>_. 7" Debug "[4]"
        100 1700000000 30000000 "\<lambda>_. 40" "\<lambda>_. 0"] by simp
qed

end
