(* ===== verification/Py_Bindings.thy ===== *)
theory Py_Bindings
  imports Reconcile_Spec Decimal
begin

text \<open>
  The Python bindings (\<^verbatim>\<open>driftbrake-py/src/lib.rs\<close>, \<^verbatim>\<open>batch.rs\<close>): the wrapped history, policy and
  decision, and the batch sweep over historical rows. A Python object is the value PyO3 converts;
  a raised exception is \<^term>\<open>Inl\<close> of its message.
\<close>

section \<open>Decisions\<close>

datatype py_value = PyStr bytes | PyFloat f64 | PyInt int | PyFloats "f64 list"

record PyHaltDecision =
  phd_should_halt :: bool
  phd_reason_name :: "bytes option"
  phd_decision :: HaltDecision

definition py_is_halted :: "PyHaltDecision \<Rightarrow> bool" where
  "py_is_halted d = phd_should_halt d"

definition py_reason :: "PyHaltDecision \<Rightarrow> bytes option" where
  "py_reason d = phd_reason_name d"

text \<open>\<^verbatim>\<open>as u64\<close> and \<^verbatim>\<open>as i64\<close> keep the low 64 bits.\<close>

primrec reason_details :: "HaltReason \<Rightarrow> (bytes \<times> py_value) list" where
  "reason_details (FastGuard window threshold) =
     [(str ''type'', PyStr (str ''FastGuard'')), (str ''threshold'', PyFloat threshold),
      (str ''recent_ratios'', PyFloats window)]"
| "reason_details (SlowGuard mean window_size threshold) =
     [(str ''type'', PyStr (str ''SlowGuard'')), (str ''mean_ratio'', PyFloat mean),
      (str ''window_size'', PyInt (int window_size)), (str ''threshold'', PyFloat threshold)]"
| "reason_details (RevertBurst consecutive limit) =
     [(str ''type'', PyStr (str ''RevertBurst'')), (str ''consecutive_reverts'', PyInt (int consecutive)),
      (str ''limit'', PyInt (int limit))]"
| "reason_details (RevertGasBudgetExceeded gas_cost_burned budget_limit window) =
     [(str ''type'', PyStr (str ''RevertGasBudgetExceeded'')),
      (str ''gas_cost_burned'', PyInt (uint (ucast gas_cost_burned :: u64))),
      (str ''budget_limit'', PyInt (uint (ucast budget_limit :: u64))),
      (str ''window'', PyInt (int window))]"
| "reason_details (VolumeWeightedDrift weighted_ratio threshold window) =
     [(str ''type'', PyStr (str ''VolumeWeightedDrift'')), (str ''weighted_ratio'', PyFloat weighted_ratio),
      (str ''threshold'', PyFloat threshold), (str ''window'', PyInt (int window))]"
| "reason_details (NetDrawdownExceeded net_slippage_loss max_drawdown_limit window) =
     [(str ''type'', PyStr (str ''NetDrawdownExceeded'')),
      (str ''net_slippage_loss'', PyInt (sint (ucast net_slippage_loss :: 64 word))),
      (str ''max_drawdown_limit'', PyInt (sint (ucast max_drawdown_limit :: 64 word))),
      (str ''window'', PyInt (int window))]"
| "reason_details (Custom s) = [(str ''type'', PyStr (str ''Custom'')), (str ''message'', PyStr s)]"

definition py_details :: "PyHaltDecision \<Rightarrow> (bytes \<times> py_value) list" where
  "py_details d = (case phd_decision d of Halt reason \<Rightarrow> reason_details reason | Continue \<Rightarrow> [])"

definition unwrap_or_raise :: "PyHaltDecision \<Rightarrow> bytes + unit" where
  "unwrap_or_raise d =
     (if phd_should_halt d
      then Inl (str ''Execution halted by Driftbrake: '' @ or_default (str ''Unknown driftbrake halt'') (phd_reason_name d))
      else Inr ())"

definition decision_repr :: "PyHaltDecision \<Rightarrow> bytes" where
  "decision_repr d =
     (if phd_should_halt d
      then str ''HaltDecision(should_halt=True, reason='' @ [39] @ or_default [] (phd_reason_name d) @ [39] @ str '')''
      else str ''HaltDecision(should_halt=False)'')"

section \<open>History and policy\<close>

record PyReconcileHistory =
  pyh_inner :: ReconcileHistory

definition py_history_new :: PyReconcileHistory where
  "py_history_new = \<lparr>pyh_inner = history_new\<rparr>"

definition py_append :: "PyReconcileHistory \<Rightarrow> i128 \<Rightarrow> i128 \<Rightarrow> PyReconcileHistory" where
  "py_append h predicted_profit realized_profit =
     h\<lparr>pyh_inner := history_append (pyh_inner h) (PredictedProfit predicted_profit) (RealizedProfit realized_profit)\<rparr>"

definition py_record_revert ::
  "PyReconcileHistory \<Rightarrow> hash32 \<Rightarrow> u64 \<Rightarrow> u64 \<Rightarrow> u128 \<Rightarrow> bytes option \<Rightarrow> PyReconcileHistory" where
  "py_record_revert h tx_hash block_number gas_used effective_gas_price reason =
     h\<lparr>pyh_inner := history_record_revert (pyh_inner h)
         \<lparr>rv_tx_hash = tx_hash, rv_block_number = block_number, rv_reason = reason,
          rv_gas_used = gas_used, rv_effective_gas_price = effective_gas_price\<rparr>\<rparr>"

definition py_recent_ratios :: "PyReconcileHistory \<Rightarrow> nat \<Rightarrow> f64 list" where
  "py_recent_ratios h n = recent_ratios (pyh_inner h) n"

definition py_len :: "PyReconcileHistory \<Rightarrow> nat" where
  "py_len h = length (pairs (pyh_inner h))"

definition py_total_reverts :: "PyReconcileHistory \<Rightarrow> nat" where
  "py_total_reverts h = length (reverts (pyh_inner h))"

definition py_consecutive_reverts :: "PyReconcileHistory \<Rightarrow> nat" where
  "py_consecutive_reverts h = consecutive_reverts (pyh_inner h)"

definition py_recent_revert_gas_burned :: "profile \<Rightarrow> PyReconcileHistory \<Rightarrow> nat \<Rightarrow> u128 option" where
  "py_recent_revert_gas_burned pf h window = recent_revert_gas_burned pf (pyh_inner h) window"

definition history_repr :: "PyReconcileHistory \<Rightarrow> bytes" where
  "history_repr h =
     str ''ReconcileHistory(pairs='' @ dec_nat (length (pairs (pyh_inner h)))
     @ str '', reverts='' @ dec_nat (length (reverts (pyh_inner h)))
     @ str '', consecutive_reverts='' @ dec_nat (consecutive_reverts (pyh_inner h)) @ str '')''"

record PyReconcilePolicy =
  pyp_inner :: ReconcilePolicy

text \<open>\<^verbatim>\<open>if let Some(x) = opt { policy = f(policy, x) }\<close>.\<close>

definition with_opt :: "'a option \<Rightarrow> ('p \<Rightarrow> 'a \<Rightarrow> 'p option) \<Rightarrow> 'p \<Rightarrow> 'p option" where
  "with_opt x f p = (case x of None \<Rightarrow> Some p | Some y \<Rightarrow> f p y)"

definition py_institutional ::
  "profile \<Rightarrow> f64 \<Rightarrow> nat \<Rightarrow> f64 \<Rightarrow> nat \<Rightarrow> nat option \<Rightarrow> f64 option \<Rightarrow> nat \<Rightarrow> u128 option \<Rightarrow> nat \<Rightarrow> i128 option \<Rightarrow> nat
   \<Rightarrow> PyReconcilePolicy option" where
  "py_institutional pf fast_threshold fast_window slow_threshold slow_window revert_burst_limit
       volume_weighted_threshold volume_weighted_window revert_gas_budget revert_gas_window
       drawdown_limit drawdown_window =
     do { p0 \<leftarrow> policy_new pf \<lparr>fg_threshold = fast_threshold, fg_window = fast_window\<rparr>
                              \<lparr>sg_threshold = slow_threshold, sg_window = slow_window\<rparr>;
          p1 \<leftarrow> with_opt revert_burst_limit (\<lambda>p limit. with_revert_burst p \<lparr>rb_limit = limit\<rparr>) p0;
          p2 \<leftarrow> with_opt volume_weighted_threshold
                  (\<lambda>p threshold. with_volume_weighted p \<lparr>vw_threshold = threshold, vw_window = volume_weighted_window\<rparr>) p1;
          p3 \<leftarrow> with_opt revert_gas_budget
                  (\<lambda>p budget_limit. with_revert_gas p \<lparr>rg_budget_limit = budget_limit, rg_window = revert_gas_window\<rparr>) p2;
          p4 \<leftarrow> with_opt drawdown_limit
                  (\<lambda>p max_drawdown_limit. with_drawdown p \<lparr>dd_max_drawdown_limit = max_drawdown_limit, dd_window = drawdown_window\<rparr>) p3;
          Some \<lparr>pyp_inner = p4\<rparr> }"

text \<open>The constructor: the same arguments (only the default values of the signatures differ).\<close>

definition py_policy_new ::
  "profile \<Rightarrow> f64 \<Rightarrow> nat \<Rightarrow> f64 \<Rightarrow> nat \<Rightarrow> nat option \<Rightarrow> f64 option \<Rightarrow> nat \<Rightarrow> u128 option \<Rightarrow> nat \<Rightarrow> i128 option \<Rightarrow> nat
   \<Rightarrow> PyReconcilePolicy option" where
  "py_policy_new pf fast_threshold fast_window slow_threshold slow_window revert_burst_limit
       volume_weighted_threshold volume_weighted_window revert_gas_budget revert_gas_window
       drawdown_limit drawdown_window =
     py_institutional pf fast_threshold fast_window slow_threshold slow_window revert_burst_limit
       volume_weighted_threshold volume_weighted_window revert_gas_budget revert_gas_window
       drawdown_limit drawdown_window"

definition py_default_dual_guard :: "profile \<Rightarrow> PyReconcilePolicy option" where
  "py_default_dual_guard pf = map_option (\<lambda>p. \<lparr>pyp_inner = p\<rparr>) (default_dual_guard pf)"

primrec reason_name :: "HaltReason \<Rightarrow> bytes" where
  "reason_name (FastGuard w t) = str ''FastGuard''"
| "reason_name (SlowGuard m w t) = str ''SlowGuard''"
| "reason_name (RevertBurst c l) = str ''RevertBurst''"
| "reason_name (RevertGasBudgetExceeded g b w) = str ''RevertGasBudgetExceeded''"
| "reason_name (VolumeWeightedDrift r t w) = str ''VolumeWeightedDrift''"
| "reason_name (NetDrawdownExceeded l m w) = str ''NetDrawdownExceeded''"
| "reason_name (Custom s) = str ''Custom''"

definition py_evaluate ::
  "profile \<Rightarrow> PyReconcilePolicy \<Rightarrow> PyReconcileHistory \<Rightarrow> (PyHaltDecision \<times> PyReconcilePolicy) option" where
  "py_evaluate pf p h =
     do { (decision, inner) \<leftarrow> policy_evaluate pf (pyp_inner p) (pyh_inner h);
          Some (case decision of
                  Continue \<Rightarrow> \<lparr>phd_should_halt = False, phd_reason_name = None, phd_decision = decision\<rparr>
                | Halt reason \<Rightarrow> \<lparr>phd_should_halt = True, phd_reason_name = Some (reason_name reason), phd_decision = decision\<rparr>,
                p\<lparr>pyp_inner := inner\<rparr>) }"

section \<open>The batch sweep\<close>

record PySweepResult =
  psr_fast_threshold :: f64
  psr_fast_window :: nat
  psr_slow_threshold :: f64
  psr_slow_window :: nat
  psr_revert_limit :: nat
  psr_total_halts :: nat
  psr_first_halt_index :: "nat option"
  psr_total_drawdown_prevented :: i128

definition sweep_result_repr :: "PySweepResult \<Rightarrow> bytes" where
  "sweep_result_repr r =
     str ''SweepResult(fast_T='' @ f64_display (psr_fast_threshold r)
     @ str '', slow_T='' @ f64_display (psr_slow_threshold r) @ str '', rev_limit='' @ dec_nat (psr_revert_limit r)
     @ str '', halts='' @ dec_nat (psr_total_halts r)
     @ str '', first_halt='' @ (case psr_first_halt_index r of None \<Rightarrow> str ''None''
                               | Some i \<Rightarrow> str ''Some('' @ dec_nat i @ str '')'') @ str '')''"

record columns =
  col_predicted :: "i128 list"
  col_realized :: "i128 list"
  col_is_revert :: "bool list"
  col_gas_used :: "u64 list"
  col_gas_price :: "u128 list"

definition row_entry :: "columns \<Rightarrow> nat \<Rightarrow> HistoryEntry" where
  "row_entry c i =
     (if col_is_revert c ! i then
        let gu = (if i < length (col_gas_used c) then col_gas_used c ! i else 21000);
            gp = (if i < length (col_gas_price c) then col_gas_price c ! i else 0)
        in RevertedTx \<lparr>rv_tx_hash = 0, rv_block_number = word_of_nat i, rv_reason = None,
                       rv_gas_used = gu, rv_effective_gas_price = gp\<rparr>
      else ConfirmedPair (PredictedProfit (col_predicted c ! i)) (RealizedProfit (col_realized c ! i)))"

record sweep_acc =
  acc_policy :: ReconcilePolicy
  acc_history :: ReconcileHistory
  acc_total_halts :: nat
  acc_first_halt_index :: "nat option"
  acc_total_drawdown :: i128

definition halted_row :: "profile \<Rightarrow> columns \<Rightarrow> nat \<Rightarrow> i128 \<Rightarrow> i128 option" where
  "halted_row pf c i drawdown =
     (if \<not> col_is_revert c ! i \<and> sint (col_realized c ! i) < sint (col_predicted c ! i)
      then do { slip \<leftarrow> s_sub pf (col_predicted c ! i) (col_realized c ! i); s_add pf drawdown slip }
      else Some drawdown)"

definition sweep_row :: "profile \<Rightarrow> columns \<Rightarrow> sweep_acc \<Rightarrow> nat \<Rightarrow> sweep_acc option" where
  "sweep_row pf c acc i =
     (let history = history_push (acc_history acc) (row_entry c i)
      in do { (decision, policy) \<leftarrow> policy_evaluate pf (acc_policy acc) history;
              let acc' = acc\<lparr>acc_history := history, acc_policy := policy\<rparr>
              in case decision of
                   Continue \<Rightarrow> Some acc'
                 | Halt reason \<Rightarrow>
                     do { drawdown \<leftarrow> halted_row pf c i (acc_total_drawdown acc);
                          Some (acc'\<lparr>acc_total_halts := acc_total_halts acc + 1,
                                      acc_first_halt_index :=
                                        (if acc_first_halt_index acc = None then Some i else acc_first_halt_index acc),
                                      acc_total_drawdown := drawdown\<rparr>) } })"

definition sweep_config :: "profile \<Rightarrow> columns \<Rightarrow> f64 \<times> f64 \<times> nat \<Rightarrow> PySweepResult option" where
  "sweep_config pf c config =
     (let (fast_t, slow_t, rev_lim) = config
      in do { p0 \<leftarrow> policy_new pf \<lparr>fg_threshold = fast_t, fg_window = 3\<rparr> \<lparr>sg_threshold = slow_t, sg_window = 20\<rparr>;
              policy \<leftarrow> with_revert_burst p0 \<lparr>rb_limit = rev_lim\<rparr>;
              acc \<leftarrow> fold_run (sweep_row pf c)
                       \<lparr>acc_policy = policy, acc_history = history_new, acc_total_halts = 0,
                        acc_first_halt_index = None, acc_total_drawdown = 0\<rparr>
                       [0..<length (col_predicted c)];
              Some \<lparr>psr_fast_threshold = fast_t, psr_fast_window = 3, psr_slow_threshold = slow_t,
                    psr_slow_window = 20, psr_revert_limit = rev_lim,
                    psr_total_halts = acc_total_halts acc, psr_first_halt_index = acc_first_halt_index acc,
                    psr_total_drawdown_prevented = acc_total_drawdown acc\<rparr> })"

text \<open>The three loops; a pair with \<^verbatim>\<open>fast_t >= slow_t\<close> is skipped, a pair with a NaN is not.\<close>

definition sweep_grid :: "f64 list \<Rightarrow> f64 list \<Rightarrow> nat list \<Rightarrow> (f64 \<times> f64 \<times> nat) list" where
  "sweep_grid fast_thresholds slow_thresholds revert_limits =
     concat (map (\<lambda>fast_t. concat (map (\<lambda>slow_t.
       if f64_le slow_t fast_t then [] else map (\<lambda>rev_lim. (fast_t, slow_t, rev_lim)) revert_limits)
       slow_thresholds)) fast_thresholds)"

definition run_sweep_raw ::
  "profile \<Rightarrow> columns \<Rightarrow> f64 list \<Rightarrow> f64 list \<Rightarrow> nat list \<Rightarrow> (bytes + PySweepResult list) option" where
  "run_sweep_raw pf c fast_thresholds slow_thresholds revert_limits =
     (let row_count = length (col_predicted c)
      in if length (col_realized c) \<noteq> row_count \<or> length (col_is_revert c) \<noteq> row_count
         then Some (Inl (str ''Array lengths for predicted, realized, and is_revert must match''))
         else map_option Inr (map_run (sweep_config pf c) (sweep_grid fast_thresholds slow_thresholds revert_limits)))"

section \<open>What Python sees of a decision\<close>

lemma reason_details_type: "map_of (reason_details r) (str ''type'') = Some (PyStr (reason_name r))"
  by (cases r) simp_all

text \<open>
  C36. A decision object is coherent, for every policy and history: it says that it should halt
  exactly when the guards halt, raises exactly then, carries a reason exactly then, and the type in
  its details is that reason.
\<close>

theorem py_decision_coherent:
  "case py_evaluate pf p h of
     None \<Rightarrow> run_guards pf (pyp_inner p) (pyh_inner h) = None
   | Some (d, p') \<Rightarrow>
       p' = p \<and> run_guards pf (pyp_inner p) (pyh_inner h) = Some (phd_decision d) \<and>
       (phd_should_halt d \<longleftrightarrow> phd_decision d \<noteq> Continue) \<and>
       (unwrap_or_raise d = Inr () \<longleftrightarrow> \<not> phd_should_halt d) \<and>
       map_of (py_details d) (str ''type'') = map_option PyStr (py_reason d) \<and>
       (py_reason d = None \<longleftrightarrow> \<not> py_is_halted d)"
proof (cases "run_guards pf (pyp_inner p) (pyh_inner h)")
  case (Some d)
  then show ?thesis
    by (cases d)
      (simp_all add: py_evaluate_def policy_evaluate_def unwrap_or_raise_def py_details_def py_reason_def
        py_is_halted_def reason_details_type)
qed (simp add: py_evaluate_def policy_evaluate_def)

text \<open>
  The details are cut to 64 bits although the guards decide in 128: a policy that halts because
  more than its gas budget was burned can report a burn of zero against a budget of one.
\<close>

theorem details_lose_high_bits:
  "map_of (reason_details (RevertGasBudgetExceeded g b w)) (str ''gas_cost_burned'') = Some (PyInt (uint g mod 2 ^ 64)) \<and>
   map_of (reason_details (RevertGasBudgetExceeded (2 ^ 64) 1 w)) (str ''gas_cost_burned'') = Some (PyInt 0)"
  by (simp add: unsigned_ucast_eq take_bit_eq_mod)

section \<open>The sweep counts the halting prefixes\<close>

text \<open>Whether the guards halt on the history of the rows up to and including row \<open>i\<close>.\<close>

definition halts_on_row :: "ReconcilePolicy \<Rightarrow> columns \<Rightarrow> nat \<Rightarrow> bool" where
  "halts_on_row P c i \<longleftrightarrow> run_guards Release P (history_of (map (row_entry c) [0..<Suc i])) \<noteq> Some Continue"

lemma history_push_of: "history_push (history_of es) e = history_of (es @ [e])"
  by (cases e) (simp_all add: history_of_def history_append_def history_record_revert_def)

lemma sweep_row_release:
  assumes "acc_policy acc = P" "acc_history acc = history_of (map (row_entry c) [0..<i])"
  shows "\<exists>acc'. sweep_row Release c acc i = Some acc' \<and> acc_policy acc' = P \<and>
     acc_history acc' = history_of (map (row_entry c) [0..<Suc i]) \<and>
     (if halts_on_row P c i
      then acc_total_halts acc' = acc_total_halts acc + 1 \<and>
           acc_first_halt_index acc' = (if acc_first_halt_index acc = None then Some i else acc_first_halt_index acc)
      else acc_total_halts acc' = acc_total_halts acc \<and> acc_first_halt_index acc' = acc_first_halt_index acc)"
proof -
  let ?h = "history_of (map (row_entry c) [0..<Suc i])"
  obtain d where d: "run_guards Release P ?h = Some d" using run_guards_Release [of P ?h] by auto
  have h: "history_push (acc_history acc) (row_entry c i) = ?h" by (simp add: assms(2) history_push_of)
  have "halted_row Release c i (acc_total_drawdown acc) \<noteq> None"
    by (simp add: halted_row_def release_never_panics)
  then obtain t where t: "halted_row Release c i (acc_total_drawdown acc) = Some t" by blast
  show ?thesis
    unfolding sweep_row_def h halts_on_row_def
    using d t by (cases d) (simp_all add: policy_evaluate_def assms(1) Let_def del: upt_Suc)
qed

lemma sweep_rows_release:
  "\<exists>acc. fold_run (sweep_row Release c)
       \<lparr>acc_policy = P, acc_history = history_new, acc_total_halts = 0, acc_first_halt_index = None,
        acc_total_drawdown = 0\<rparr> [0..<n] = Some acc \<and> acc_policy acc = P \<and>
     acc_history acc = history_of (map (row_entry c) [0..<n]) \<and>
     acc_total_halts acc = length (filter (halts_on_row P c) [0..<n]) \<and>
     acc_first_halt_index acc = find (halts_on_row P c) [0..<n]"
proof (induction n)
  case 0
  show ?case by (simp add: history_of_Nil)
next
  case (Suc n)
  then obtain acc where acc: "fold_run (sweep_row Release c)
       \<lparr>acc_policy = P, acc_history = history_new, acc_total_halts = 0, acc_first_halt_index = None,
        acc_total_drawdown = 0\<rparr> [0..<n] = Some acc" "acc_policy acc = P"
     "acc_history acc = history_of (map (row_entry c) [0..<n])"
     "acc_total_halts acc = length (filter (halts_on_row P c) [0..<n])"
     "acc_first_halt_index acc = find (halts_on_row P c) [0..<n]" by blast
  have find: "find Q (xs @ [x]) = (if find Q xs = None then (if Q x then Some x else None) else find Q xs)" for Q x and xs :: "nat list"
    by (induction xs) auto
  obtain acc' where acc': "sweep_row Release c acc n = Some acc'" "acc_policy acc' = P"
    "acc_history acc' = history_of (map (row_entry c) [0..<Suc n])"
    "if halts_on_row P c n
      then acc_total_halts acc' = acc_total_halts acc + 1 \<and>
           acc_first_halt_index acc' = (if acc_first_halt_index acc = None then Some n else acc_first_halt_index acc)
      else acc_total_halts acc' = acc_total_halts acc \<and> acc_first_halt_index acc' = acc_first_halt_index acc"
    using sweep_row_release [OF acc(2,3)] by blast
  show ?case
    using acc acc' by (intro exI [of _ acc']) (auto simp: fold_run_append find split: if_splits)
qed

text \<open>
  C23. For every configuration of the grid the batch sweep is the row-by-row evaluation: it counts the
  prefixes of the table on which the policy halts, and reports the first of them, with the revert
  rows taken as reverts and the missing gas columns filled in. A release build returns a result for
  every table whose columns have the same length and every positive revert limit.
\<close>

theorem sweep_counts_halting_prefixes:
  assumes "0 < limit"
  shows "\<exists>r. sweep_config Release c (fast_t, slow_t, limit) = Some r \<and>
     (let P = \<lparr>rp_fast = \<lparr>fg_threshold = fast_t, fg_window = 3\<rparr>, rp_slow = \<lparr>sg_threshold = slow_t, sg_window = 20\<rparr>,
               rp_revert_burst = Some \<lparr>rb_limit = limit\<rparr>, rp_revert_gas = None, rp_volume_weighted = None,
               rp_drawdown = None\<rparr>;
          halting = (\<lambda>i. run_guards Release P (history_of (map (row_entry c) [0..<Suc i])) \<noteq> Some Continue)
      in psr_total_halts r = length (filter halting [0..<length (col_predicted c)]) \<and>
         psr_first_halt_index r = find halting [0..<length (col_predicted c)])"
proof -
  let ?P = "\<lparr>rp_fast = \<lparr>fg_threshold = fast_t, fg_window = 3\<rparr>, rp_slow = \<lparr>sg_threshold = slow_t, sg_window = 20\<rparr>,
               rp_revert_burst = Some \<lparr>rb_limit = limit\<rparr>, rp_revert_gas = None, rp_volume_weighted = None,
               rp_drawdown = None\<rparr>"
  have "(\<lambda>i. run_guards Release ?P (history_of (map (row_entry c) [0..<Suc i])) \<noteq> Some Continue) = halts_on_row ?P c"
    by (simp add: fun_eq_iff halts_on_row_def)
  then show ?thesis
    using sweep_rows_release [of c ?P "length (col_predicted c)"] assms
    by (auto simp: sweep_config_def policy_new_def with_revert_burst_def Let_def simp del: upt_Suc)
qed

theorem sweep_counts_halting_prefixes_witness:
  "\<exists>r. sweep_config Release
        \<lparr>col_predicted = [0], col_realized = [0], col_is_revert = [True], col_gas_used = [], col_gas_price = []\<rparr>
        (f64_of_rat (50 / 100), f64_of_rat (70 / 100), 1) = Some r
     \<and> psr_total_halts r = 1 \<and> psr_first_halt_index r = Some 0"
proof -
  let ?c = "\<lparr>col_predicted = [0], col_realized = [0], col_is_revert = [True], col_gas_used = [], col_gas_price = []\<rparr>"
  have "consecutive_reverts (history_of [row_entry ?c 0]) = 1"
    by (simp add: consecutive_reverts_def row_entry_def Let_def)
  then show ?thesis
    using sweep_counts_halting_prefixes [of 1 ?c "f64_of_rat (50 / 100)" "f64_of_rat (70 / 100)"]
    by (auto simp: Let_def run_guards_def guard_or_def revert_burst_guard_def)
qed

end
