(* ===== verification/Gas_Bias.thy ===== *)
theory Gas_Bias
  imports Toy_Decoder Reconcile_Spec
begin

text \<open>
  The two decoders of the example and the halt policy together. The prediction is the gross profit
  of the simulation, the realization is net of gas, and the policy compares the one with the other.
\<close>

section \<open>A trade that executes as simulated\<close>

text \<open>
  The transaction was confirmed, its logs are those of the simulation, and the contract reports in
  its event the profit it returns.
\<close>

fun executes_as_simulated :: "keccak \<Rightarrow> ExecutionResult \<times> TxReceipt \<Rightarrow> bool" where
  "executes_as_simulated keccak256 (ExecSuccess gas logs out, receipt) \<longleftrightarrow>
     rc_status receipt = TxConfirmed \<and> 32 \<le> length out \<and>
     (case find (first_topic_is (event_topic0 keccak256 PROFIT_EVENT_SIGNATURE)) (map convert_log logs) of
        None \<Rightarrow> False
      | Some l \<Rightarrow> 32 \<le> length (log_data l) \<and> word_at (log_data l) 0 = word_at out 0)"
| "executes_as_simulated keccak256 _ \<longleftrightarrow> False"

fun simulated_gross :: "ExecutionResult \<times> TxReceipt \<Rightarrow> nat" where
  "simulated_gross (ExecSuccess gas logs out, receipt) = unat (word_at out 0)"
| "simulated_gross _ = 0"

definition gas_paid :: "ExecutionResult \<times> TxReceipt \<Rightarrow> nat" where
  "gas_paid t = unat (rc_gas_used (snd t)) * unat (rc_effective_gas_price (snd t))"

fun emitted_logs :: "ExecutionResult \<times> TxReceipt \<Rightarrow> Log list" where
  "emitted_logs (r, receipt) = so_logs (convert_result r)"

text \<open>The entry both decoders make of it.\<close>

definition settled_entry :: "keccak \<Rightarrow> profile \<Rightarrow> ExecutionResult \<times> TxReceipt \<Rightarrow> HistoryEntry option" where
  "settled_entry keccak256 pf t =
     (case toy_decode_predicted (convert_result (fst t)) of
        Inl e \<Rightarrow> None
      | Inr predicted \<Rightarrow>
          do { (res, _) \<leftarrow> toy_decode_realized keccak256 pf (snd t) (emitted_logs t) ();
               case res of Inl e \<Rightarrow> None | Inr realized \<Rightarrow> Some (ConfirmedPair predicted realized) })"

lemma settled_entry_net:
  assumes "executes_as_simulated keccak256 t" "simulated_gross t < 2 ^ 127" "gas_paid t < 2 ^ 127"
  shows "\<exists>p r. settled_entry keccak256 pf t = Some (ConfirmedPair (PredictedProfit p) (RealizedProfit r)) \<and>
     sint p = int (simulated_gross t) \<and> sint r = int (simulated_gross t) - int (gas_paid t)"
proof -
  obtain gas logs out receipt where t: "t = (ExecSuccess gas logs out, receipt)"
    using assms(1) by (cases t; cases "fst t") auto
  let ?logs = "map convert_log logs"
  obtain l where l: "find (first_topic_is (keccak256 PROFIT_EVENT_SIGNATURE)) ?logs = Some l"
    "32 \<le> length (log_data l)" "word_at (log_data l) 0 = word_at out 0"
    using assms(1) by (auto simp: t event_topic0_def split: option.splits)
  have c: "rc_status receipt = TxConfirmed" "32 \<le> length out" using assms(1) by (simp_all add: t)
  have w: "unat (word_at (log_data l) 0) < 2 ^ 127"
    "unat (rc_gas_used receipt) * unat (rc_effective_gas_price receipt) < 2 ^ 127"
    using assms(2,3) by (simp_all add: t l(3) gas_paid_def)
  obtain r where r: "toy_decode_realized keccak256 pf receipt ?logs () = Some (Inr (RealizedProfit r), ())"
    "sint r = int (unat (word_at out 0)) - int (unat (rc_gas_used receipt)) * int (unat (rc_effective_gas_price receipt))"
    using realized_of_first [where keccak = keccak256, OF c(1) l(1,2) w, of pf "()"] unfolding l(3) by blast
  have "sint (ucast (word_at out 0) :: u128) = int (unat (word_at out 0))"
    using unat_low_128(2) assms(2) by (simp add: t del: of_nat_unat)
  then show ?thesis
    using r c by (intro exI [of _ "ucast (word_at out 0)"] exI [of _ r])
      (simp add: t settled_entry_def toy_decode_predicted_def decode_u256_word_eq gas_paid_def del: of_nat_unat)
qed

section \<open>Gas alone halts the strategy\<close>

text \<open>
  Gas above half of the profit. Up to \<open>2 ^ 53\<close> wei every amount is a float, and one wei more than half
  is enough; above, one part in \<open>10 ^ 12\<close> more than half makes up for the roundings of the ratio. (One
  wei would not do: for a profit of \<open>2 ^ 60\<close> and gas of \<open>2 ^ 59 + 1\<close> the ratio is one half.)
\<close>

definition gas_heavy :: "keccak \<Rightarrow> ExecutionResult \<times> TxReceipt \<Rightarrow> bool" where
  "gas_heavy keccak256 t \<longleftrightarrow>
     executes_as_simulated keccak256 t \<and> 0 < simulated_gross t \<and>
     simulated_gross t < 2 ^ 127 \<and> gas_paid t < 2 ^ 127 \<and>
     (if simulated_gross t \<le> 2 ^ 53 \<and> gas_paid t \<le> 2 ^ 53 then simulated_gross t < 2 * gas_paid t
      else (10 ^ 12 + 1) * simulated_gross t \<le> 10 ^ 12 * (2 * gas_paid t))"

lemma gas_heavy_entry:
  assumes "gas_heavy keccak256 t"
  obtains p r where "settled_entry keccak256 pf t = Some (ConfirmedPair p r)" "positive_prediction (p, r)"
    "f64_lt (pair_ratio (p, r)) (fg_threshold fast_guard_default)"
proof -
  have small: "simulated_gross t < 2 ^ 127" "gas_paid t < 2 ^ 127"
    and exec: "executes_as_simulated keccak256 t" and pos: "0 < simulated_gross t"
    using assms by (simp_all add: gas_heavy_def)
  obtain p r where e: "settled_entry keccak256 pf t = Some (ConfirmedPair (PredictedProfit p) (RealizedProfit r))"
    "sint p = int (simulated_gross t)" "sint r = int (simulated_gross t) - int (gas_paid t)"
    using settled_entry_net [OF exec small, of pf] by blast
  have positive: "positive_prediction (PredictedProfit p, RealizedProfit r)"
    using pos by (simp add: positive_prediction_def e(2))
  have "f64_lt (pair_ratio (PredictedProfit p, RealizedProfit r)) (fg_threshold fast_guard_default)"
  proof (cases "simulated_gross t \<le> 2 ^ 53 \<and> gas_paid t \<le> 2 ^ 53")
    case True
    then have "modest (PredictedProfit p, RealizedProfit r)" using e(2,3) by (auto simp: modest_def)
    moreover have "2 * sint r < sint p" using assms True e(2,3) by (simp add: gas_heavy_def)
    ultimately show ?thesis using default_fast_pair positive by fastforce
  next
    case False
    then have "(10 ^ 12 + 1) * simulated_gross t \<le> 10 ^ 12 * (2 * gas_paid t)"
      using assms by (auto simp: gas_heavy_def)
    then have "int ((10 ^ 12 + 1) * simulated_gross t) \<le> int (10 ^ 12 * (2 * gas_paid t))"
      by (simp only: of_nat_le_iff)
    then have "10 ^ 12 * (2 * sint r) \<le> (10 ^ 12 - 1) * sint p" by (simp add: e(2,3))
    then show ?thesis using default_fast_pair_wide positive by simp
  qed
  with e(1) positive show thesis by (rule that)
qed

lemma gas_heavy_entries:
  assumes "list_all (gas_heavy keccak256) trades"
  shows "\<exists>es. map_run (settled_entry keccak256 pf) trades = Some es \<and> length (confirmed_pairs es) = length trades \<and>
     list_all (\<lambda>pr. positive_prediction pr \<and> f64_lt (pair_ratio pr) (fg_threshold fast_guard_default)) (confirmed_pairs es)"
  using assms
proof (induction trades)
  case (Cons t trades)
  then obtain es where "map_run (settled_entry keccak256 pf) trades = Some es" "length (confirmed_pairs es) = length trades"
    "list_all (\<lambda>pr. positive_prediction pr \<and> f64_lt (pair_ratio pr) (fg_threshold fast_guard_default)) (confirmed_pairs es)"
    by auto
  moreover have heavy: "gas_heavy keccak256 t" using Cons.prems by simp
  moreover obtain p r where "settled_entry keccak256 pf t = Some (ConfirmedPair p r)" "positive_prediction (p, r)"
    "f64_lt (pair_ratio (p, r)) (fg_threshold fast_guard_default)"
    using gas_heavy_entry [OF heavy] by blast
  ultimately show ?case by simp
qed simp

lemma dual_guard_run:
  "run_guards pf dual_guard h =
     Some (case fast_guard dual_guard h of Some r \<Rightarrow> Halt r
           | None \<Rightarrow> (case slow_guard dual_guard h of Some r \<Rightarrow> Halt r | None \<Rightarrow> Continue))"
  by (simp add: run_guards_def guard_or_def revert_burst_guard_def revert_gas_guard_def drawdown_guard_def
      volume_weighted_guard_def dual_guard_def split: option.splits)

text \<open>
  C27. Predictions are gross of gas and realizations are net of it: when three trades in a row execute
  exactly as simulated, but each costs more than half of its profit in gas, the default policy halts
  on drift, in both profiles and whatever the history before. The trades need not lose money. More
  than half is one wei more where profit and gas are at most \<open>2 ^ 53\<close> wei, and one part in \<open>10 ^ 12\<close>
  more for all other amounts below \<open>2 ^ 127\<close>.
\<close>

theorem gas_alone_halts:
  assumes "history_ok h" "3 \<le> length trades" "list_all (gas_heavy keccak256) trades"
  shows "\<exists>P entries reason. default_dual_guard pf = Some P \<and>
     map_run (settled_entry keccak256 pf) trades = Some entries \<and>
     policy_evaluate pf P (foldl history_push h entries) = Some (Halt reason, P)"
proof -
  obtain es where es: "map_run (settled_entry keccak256 pf) trades = Some es" "length (confirmed_pairs es) = length trades"
    "list_all (\<lambda>pr. positive_prediction pr \<and> f64_lt (pair_ratio pr) (fg_threshold fast_guard_default)) (confirmed_pairs es)"
    using gas_heavy_entries [OF assms(3)] by blast
  have all: "filter positive_prediction (confirmed_pairs es) = confirmed_pairs es"
    using es(3) by (auto simp: list_all_iff filter_id_conv)
  have "bad_streak dual_guard es"
    using es(2,3) assms(2) by (auto simp: bad_streak_def Let_def all list_all_iff dual_guard_def fast_guard_default_def)
  then obtain reason where "fast_guard dual_guard (foldl history_push h es) = Some reason"
    using bad_streak_fast assms(1) by fastforce
  then show ?thesis
    using es(1) default_dual_guard_eq by (simp add: policy_evaluate_def dual_guard_run)
qed

definition example_trade :: "ExecutionResult \<times> TxReceipt" where
  "example_trade =
     (ExecSuccess 100000 [\<lparr>el_address = 1, el_topics = [7], el_data = to_be_bytes (10 ^ 18 :: U256)\<rparr>]
        (to_be_bytes (10 ^ 18 :: U256)),
      \<lparr>rc_tx_hash = 1, rc_block_number = 5, rc_status = TxConfirmed, rc_gas_used = 100000,
       rc_effective_gas_price = 6 * 10 ^ 12\<rparr>)"

text \<open>Here each trade earns one ether, pays 0.6 ether for gas and nets 0.4.\<close>

theorem gas_alone_halts_witness:
  "\<exists>P entries reason. default_dual_guard Debug = Some P \<and>
     map_run (settled_entry (\<lambda>_. 7) Debug) (replicate 3 example_trade) = Some entries \<and>
     policy_evaluate Debug P (foldl history_push history_new entries) = Some (Halt reason, P)"
proof (rule gas_alone_halts)
  have "executes_as_simulated (\<lambda>_. 7) example_trade"
    by (simp add: example_trade_def convert_log_def first_topic_is_def event_topic0_def length_to_be_bytes)
  moreover have "simulated_gross example_trade = 10 ^ 18" "gas_paid example_trade = 6 * 10 ^ 17"
    by (simp_all add: example_trade_def gas_paid_def)
  ultimately have "gas_heavy (\<lambda>_. 7) example_trade" by (simp add: gas_heavy_def)
  then show "list_all (gas_heavy (\<lambda>_. 7)) (replicate 3 example_trade)" by (simp add: list_all_iff)
qed auto

end
