(* ===== verification/Benchmark.thy ===== *)
theory Benchmark
  imports Reconcile_Spec Decimal
begin

text \<open>
  The crate \<^verbatim>\<open>driftbrake-benchmark\<close>: the generator (\<^verbatim>\<open>rng.rs\<close>), the synthetic regimes
  (\<^verbatim>\<open>synthetic.rs\<close>), the sweep (\<^verbatim>\<open>sweep.rs\<close>) and the command (\<^verbatim>\<open>main.rs\<close>): its arguments, the
  grid and the lines it prints. The logarithm, square root and cosine of the platform are parameters.
\<close>

section \<open>The generator\<close>

record Rng =
  rng_state :: u64

definition rng_new :: "u64 \<Rightarrow> Rng" where
  "rng_new seed = \<lparr>rng_state = seed XOR 0x9E3779B97F4A7C15\<rparr>"

definition splitmix :: "u64 \<Rightarrow> u64" where
  "splitmix z0 =
     (let z1 = (z0 XOR drop_bit 30 z0) * 0xBF58476D1CE4E5B9;
          z2 = (z1 XOR drop_bit 27 z1) * 0x94D049BB133111EB
      in z2 XOR drop_bit 31 z2)"

definition next_u64 :: "Rng \<Rightarrow> u64 \<times> Rng" where
  "next_u64 rng = (let s = rng_state rng + 0x9E3779B97F4A7C15 in (splitmix s, rng\<lparr>rng_state := s\<rparr>))"

definition next_f64 :: "Rng \<Rightarrow> f64 \<times> Rng" where
  "next_f64 rng =
     (let (x, rng') = next_u64 rng
      in (f64_mul (f64_of_int (uint (drop_bit 11 x))) (f64_div (f64_of_int 1) (f64_of_int (uint (push_bit 53 (1 :: u64))))),
          rng'))"

record float_math =
  fm_ln :: "f64 \<Rightarrow> f64"
  fm_sqrt :: "f64 \<Rightarrow> f64"
  fm_cos :: "f64 \<Rightarrow> f64"

definition f64_EPSILON :: f64 where "f64_EPSILON = f64_of_rat (1 / 2 ^ 52)"
definition f64_TAU :: f64 where "f64_TAU = f64_of_rat (628318530717958647692528676655900577 / 10 ^ 35)"

definition next_gaussian :: "float_math \<Rightarrow> f64 \<Rightarrow> f64 \<Rightarrow> Rng \<Rightarrow> f64 \<times> Rng" where
  "next_gaussian fm mean std_dev rng =
     (let (x1, rng1) = next_f64 rng;
          u1 = f64_min (f64_add x1 f64_EPSILON) (f64_of_int 1);
          (u2, rng2) = next_f64 rng1;
          z0 = f64_mul (fm_sqrt fm (f64_mul (f64_neg (f64_of_int 2)) (fm_ln fm u1))) (fm_cos fm (f64_mul f64_TAU u2))
      in (f64_add mean (f64_mul std_dev z0), rng2))"

section \<open>Synthetic sequences\<close>

record RegimeParams =
  rp_noise_std_dev :: f64
  rp_drift_mean :: "f64 option"

definition healthy :: "f64 \<Rightarrow> RegimeParams" where
  "healthy noise_std_dev = \<lparr>rp_noise_std_dev = noise_std_dev, rp_drift_mean = None\<rparr>"

definition drifted :: "f64 \<Rightarrow> f64 \<Rightarrow> RegimeParams" where
  "drifted noise_std_dev drift_mean = \<lparr>rp_noise_std_dev = noise_std_dev, rp_drift_mean = Some drift_mean\<rparr>"

definition regime_center :: "RegimeParams \<Rightarrow> f64" where
  "regime_center r = (case rp_drift_mean r of Some m \<Rightarrow> m | None \<Rightarrow> f64_of_int 1)"

type_synonym trade_sequence = "(PredictedProfit \<times> RealizedProfit) list"

text \<open>\<^verbatim>\<open>as i128\<close> of a float saturates.\<close>

definition synthetic_pair :: "i128 \<Rightarrow> f64 \<Rightarrow> PredictedProfit \<times> RealizedProfit" where
  "synthetic_pair predicted_magnitude ratio =
     (PredictedProfit predicted_magnitude,
      RealizedProfit (word_of_int (f64_as_int (- (2 ^ 127)) (2 ^ 127 - 1)
        (f64_round (f64_mul (f64_of_int (sint predicted_magnitude)) ratio)))))"

primrec generate_sequence ::
  "float_math \<Rightarrow> RegimeParams \<Rightarrow> nat \<Rightarrow> i128 \<Rightarrow> Rng \<Rightarrow> trade_sequence \<times> Rng" where
  "generate_sequence fm regime 0 predicted_magnitude rng = ([], rng)"
| "generate_sequence fm regime (Suc n) predicted_magnitude rng =
     (let (ratio, rng1) = next_gaussian fm (regime_center regime) (rp_noise_std_dev regime) rng;
          (rest, rng2) = generate_sequence fm regime n predicted_magnitude rng1
      in (synthetic_pair predicted_magnitude ratio # rest, rng2))"

primrec generate_batch ::
  "float_math \<Rightarrow> RegimeParams \<Rightarrow> nat \<Rightarrow> nat \<Rightarrow> i128 \<Rightarrow> Rng \<Rightarrow> trade_sequence list \<times> Rng" where
  "generate_batch fm regime 0 n predicted_magnitude rng = ([], rng)"
| "generate_batch fm regime (Suc count) n predicted_magnitude rng =
     (let (s, rng1) = generate_sequence fm regime n predicted_magnitude rng;
          (rest, rng2) = generate_batch fm regime count n predicted_magnitude rng1
      in (s # rest, rng2))"

section \<open>The sweep\<close>

record SweepResult =
  sr_fast :: FastGuardConfig
  sr_slow :: SlowGuardConfig
  sr_false_halt_rate :: f64
  sr_missed_catch_rate :: f64
  sr_mean_time_to_catch :: "f64 option"

text \<open>The loop of \<^verbatim>\<open>run_to_first_halt\<close> from position \<open>i\<close>, over any evaluator.\<close>

fun first_halt_from ::
  "'s halt_evaluator \<Rightarrow> 's \<Rightarrow> ReconcileHistory \<Rightarrow> nat \<Rightarrow> trade_sequence \<Rightarrow> (nat option \<times> 's) option" where
  "first_halt_from evaluate s history i [] = Some (None, s)"
| "first_halt_from evaluate s history i ((predicted, realized) # rest) =
     (let history' = history_append history predicted realized
      in do { (decision, s') \<leftarrow> evaluate s history';
              case decision of
                Halt reason \<Rightarrow> Some (Some (i + 1), s')
              | Continue \<Rightarrow> first_halt_from evaluate s' history' (i + 1) rest })"

definition run_to_first_halt ::
  "profile \<Rightarrow> ReconcilePolicy \<Rightarrow> trade_sequence \<Rightarrow> (nat option \<times> ReconcilePolicy) option" where
  "run_to_first_halt pf policy trades = first_halt_from (policy_evaluate pf) policy history_new 0 trades"

definition halts_at ::
  "profile \<Rightarrow> FastGuardConfig \<Rightarrow> SlowGuardConfig \<Rightarrow> trade_sequence \<Rightarrow> nat option option" where
  "halts_at pf fast slow trades =
     do { policy \<leftarrow> policy_new pf fast slow; (r, _) \<leftarrow> run_to_first_halt pf policy trades; Some r }"

text \<open>\<^verbatim>\<open>usize\<close> counts cannot overflow: they are bounded by the data in memory.\<close>

definition rate :: "nat \<Rightarrow> nat \<Rightarrow> f64" where
  "rate k n = f64_div (f64_of_int (int k)) (f64_of_int (int n))"

definition sweep_point ::
  "profile \<Rightarrow> trade_sequence list \<Rightarrow> trade_sequence list \<Rightarrow> FastGuardConfig \<times> SlowGuardConfig \<Rightarrow> SweepResult option" where
  "sweep_point pf healthy_batch drifted_batch point =
     (let (fast, slow) = point
      in do { healthy_halts \<leftarrow> map_run (halts_at pf fast slow) healthy_batch;
              let false_halts = length (filter (\<lambda>r. r \<noteq> None) healthy_halts);
                  false_halt_rate = rate false_halts (length healthy_batch)
              in do {
              drifted_halts \<leftarrow> map_run (halts_at pf fast slow) drifted_batch;
              let catch_times = map the (filter (\<lambda>r. r \<noteq> None) drifted_halts);
                  missed = length drifted_batch - length catch_times;
                  missed_catch_rate = rate missed (length drifted_batch);
                  mean_time_to_catch = (if catch_times \<noteq> [] then Some (rate (sum_list catch_times) (length catch_times)) else None)
              in Some \<lparr>sr_fast = fast, sr_slow = slow, sr_false_halt_rate = false_halt_rate,
                       sr_missed_catch_rate = missed_catch_rate, sr_mean_time_to_catch = mean_time_to_catch\<rparr> } })"

definition sweep ::
  "profile \<Rightarrow> trade_sequence list \<Rightarrow> trade_sequence list \<Rightarrow> (FastGuardConfig \<times> SlowGuardConfig) list \<Rightarrow> SweepResult list option" where
  "sweep pf healthy_batch drifted_batch grid = map_run (sweep_point pf healthy_batch drifted_batch) grid"

section \<open>The command\<close>

record bench_args =
  ba_seed :: u64
  ba_sequences :: nat
  ba_length :: nat
  ba_noise_std_dev :: f64
  ba_drift_mean :: f64
  ba_predicted_magnitude :: i128

definition bench_args_default :: bench_args where
  "bench_args_default =
     \<lparr>ba_seed = 42, ba_sequences = 500, ba_length = 40, ba_noise_std_dev = f64_of_rat (5 / 100),
      ba_drift_mean = f64_of_rat (4 / 10), ba_predicted_magnitude = 1000000\<rparr>"

text \<open>A flag that is missing, or whose value does not parse, leaves the default.\<close>

definition flag_value :: "(bytes \<Rightarrow> 'a option) \<Rightarrow> string \<Rightarrow> bytes list \<Rightarrow> 'a \<Rightarrow> 'a" where
  "flag_value parse flag raw dflt =
     (case arg_after (str flag) raw of None \<Rightarrow> dflt | Some v \<Rightarrow> or_default dflt (parse v))"

definition bench_parse_args :: "bytes list \<Rightarrow> bench_args" where
  "bench_parse_args raw =
     (let args = bench_args_default
      in args\<lparr>ba_seed := flag_value ok_u64 ''--seed'' raw (ba_seed args),
              ba_sequences := flag_value ok_usize ''--sequences'' raw (ba_sequences args),
              ba_length := flag_value ok_usize ''--length'' raw (ba_length args),
              ba_noise_std_dev := flag_value parse_f64 ''--noise'' raw (ba_noise_std_dev args),
              ba_drift_mean := flag_value parse_f64 ''--drift-mean'' raw (ba_drift_mean args)\<rparr>)"

definition build_grid :: "(FastGuardConfig \<times> SlowGuardConfig) list" where
  "build_grid =
     map (\<lambda>t_f. let t_s = f64_min (f64_add t_f (f64_of_rat (20 / 100))) (f64_of_rat (95 / 100))
                in (\<lparr>fg_threshold = t_f, fg_window = 3\<rparr>, \<lparr>sg_threshold = t_s, sg_window = 20\<rparr>))
       (map (\<lambda>k. f64_of_rat (of_nat k / 100)) [20, 30, 40, 50, 60, 70, 80])"

definition bench_main :: "profile \<Rightarrow> float_math \<Rightarrow> bench_args \<Rightarrow> SweepResult list option" where
  "bench_main pf fm args =
     (let rng = rng_new (ba_seed args);
          (healthy_batch, rng1) = generate_batch fm (healthy (ba_noise_std_dev args)) (ba_sequences args)
                                    (ba_length args) (ba_predicted_magnitude args) rng;
          (drifted_batch, rng2) = generate_batch fm (drifted (ba_noise_std_dev args) (ba_drift_mean args))
                                    (ba_sequences args) (ba_length args) (ba_predicted_magnitude args) rng1
      in sweep pf healthy_batch drifted_batch build_grid)"

text \<open>What the command prints, line by line.\<close>

definition bench_banner :: "bench_args \<Rightarrow> bytes" where
  "bench_banner args =
     str ''driftbrake-benchmark: seed='' @ dec_nat (unat (ba_seed args))
     @ str '', sequences='' @ dec_nat (ba_sequences args) @ str '', length='' @ dec_nat (ba_length args)
     @ str '', noise_std_dev='' @ f64_display (ba_noise_std_dev args)
     @ str '', drift_mean='' @ f64_display (ba_drift_mean args)"

definition table_header :: bytes where
  "table_header =
     pad_left 6 (str ''T_f'') @ str '' '' @ pad_left 4 (str ''k_f'') @ str '' ''
     @ pad_left 6 (str ''T_s'') @ str '' '' @ pad_left 4 (str ''k_s'') @ str ''  ''
     @ pad_left 15 (str ''false_halt_rate'') @ str '' '' @ pad_left 18 (str ''missed_catch_rate'') @ str '' ''
     @ pad_left 18 (str ''mean_time_to_catch'')"

definition table_row :: "SweepResult \<Rightarrow> bytes" where
  "table_row r =
     (let mean_time = or_default (str ''n/a'') (map_option (f64_fixed 1) (sr_mean_time_to_catch r))
      in pad_left 6 (f64_fixed 2 (fg_threshold (sr_fast r))) @ str '' ''
         @ pad_left 4 (dec_nat (fg_window (sr_fast r))) @ str '' ''
         @ pad_left 6 (f64_fixed 2 (sg_threshold (sr_slow r))) @ str '' ''
         @ pad_left 4 (dec_nat (sg_window (sr_slow r))) @ str ''  ''
         @ pad_left 15 (f64_fixed 3 (sr_false_halt_rate r)) @ str '' ''
         @ pad_left 18 (f64_fixed 3 (sr_missed_catch_rate r)) @ str '' '' @ pad_left 18 mean_time)"

definition print_table :: "SweepResult list \<Rightarrow> bytes list" where
  "print_table results = table_header # map table_row results"

text \<open>The lines of a run that returns; the lines a run prints before it panics are not recorded.\<close>

definition bench_run :: "profile \<Rightarrow> float_math \<Rightarrow> bytes list \<Rightarrow> bytes list option" where
  "bench_run pf fm raw =
     (let args = bench_parse_args raw
      in do { results \<leftarrow> bench_main pf fm args;
              Some ([bench_banner args,
                     str ''(synthetic data '' @ [0xE2, 0x80, 0x94]
                       @ str '' see docs/BENCHMARK.md to re-run against your own chain'' @ [39] @ str ''s history)'',
                     []]
                    @ print_table results
                    @ [[], str ''Shipped defaults are T_f=0.50, k_f=3, T_s=0.70, k_s=20 (see docs/whitepaper.md Section 7).'',
                       str ''Re-run with different --noise / --drift-mean values to see how the curve shifts for your assumptions.'']) })"

section \<open>The printed arguments reproduce the run\<close>

text \<open>The command line made of the values in the first line the command prints.\<close>

definition bench_flags :: "bytes list" where
  "bench_flags = map str [''--seed'', ''--sequences'', ''--length'', ''--noise'', ''--drift-mean'']"

definition printed_flags :: "bytes \<Rightarrow> bench_args \<Rightarrow> bytes list" where
  "printed_flags prog a =
     [prog, str ''--seed'', dec_nat (unat (ba_seed a)), str ''--sequences'', dec_nat (ba_sequences a),
      str ''--length'', dec_nat (ba_length a), str ''--noise'', f64_display (ba_noise_std_dev a),
      str ''--drift-mean'', f64_display (ba_drift_mean a)]"

lemma flag_dashes: "f \<in> set bench_flags \<Longrightarrow> \<exists>t. f = 45 # 45 # t"
  by (auto simp: bench_flags_def str_def)

lemma dec_nat_no_flag: "dec_nat n \<noteq> 45 # t"
proof
  assume "dec_nat n = 45 # t"
  then show False using dec_nat_digits [of n] by (simp add: is_digit_def)
qed

lemma f64_display_no_flag:
  assumes "f64_wf x"
  shows "f64_display x \<noteq> 45 # 45 # t"
proof
  assume "f64_display x = 45 # 45 # t"
  then have "parse_f64 (45 # 45 # t) = Some x" using parse_f64_display [OF assms] by simp
  moreover have "parse_decimal (45 # t) = None" by (simp add: parse_decimal_def is_digit_def)
  moreover have "parse_inf_nan s (45 # t) = None" for s
    by (simp add: parse_inf_nan_def ascii_lower_def str_def)
  ultimately show False by (simp add: parse_f64_def)
qed

lemma arg_after_printed:
  assumes "prog \<notin> set fs" "v1 \<notin> set fs" "v2 \<notin> set fs" "v3 \<notin> set fs" "v4 \<notin> set fs" "distinct fs"
    and "fs = [f1, f2, f3, f4, f5]" "args = [prog, f1, v1, f2, v2, f3, v3, f4, v4, f5, v5]"
  shows "arg_after f1 args = Some v1" "arg_after f2 args = Some v2" "arg_after f3 args = Some v3"
    "arg_after f4 args = Some v4" "arg_after f5 args = Some v5"
  using assms by auto

lemma parse_printed_flags:
  assumes "prog \<notin> set bench_flags" "f64_wf (ba_noise_std_dev a)" "f64_wf (ba_drift_mean a)"
    "ba_sequences a < 2 ^ 64" "ba_length a < 2 ^ 64" "ba_predicted_magnitude a = 1000000"
  shows "bench_parse_args (printed_flags prog a) = a"
proof -
  have "distinct bench_flags" by (simp add: bench_flags_def)
  note after = arg_after_printed [OF assms(1) _ _ _ _ this _ printed_flags_def [of prog a]]
  have n: "dec_nat n \<notin> set bench_flags" "f64_display (ba_noise_std_dev a) \<notin> set bench_flags" for n
    using flag_dashes dec_nat_no_flag f64_display_no_flag [OF assms(2)] by metis+
  note after = after [OF n(1) n(1) n(1) n(2), unfolded bench_flags_def list.map, OF refl]
  show ?thesis
    using assms(2-6)
    by (simp add: bench_parse_args_def flag_value_def after or_default_def parse_f64_display bench_args_default_def)
qed

lemma bench_parse_args_ok:
  "f64_wf (ba_noise_std_dev (bench_parse_args raw))" "f64_wf (ba_drift_mean (bench_parse_args raw))"
  "ba_sequences (bench_parse_args raw) < 2 ^ 64" "ba_length (bench_parse_args raw) < 2 ^ 64"
  "ba_predicted_magnitude (bench_parse_args raw) = 1000000"
proof -
  have u: "n < 2 ^ 64" if "ok_usize s = Some n" for s n
    using that unsigned_less [where 'a = nat and ?'b = 64] by (auto simp: ok_usize_def)
  show "f64_wf (ba_noise_std_dev (bench_parse_args raw))" "f64_wf (ba_drift_mean (bench_parse_args raw))"
    "ba_sequences (bench_parse_args raw) < 2 ^ 64" "ba_length (bench_parse_args raw) < 2 ^ 64"
    "ba_predicted_magnitude (bench_parse_args raw) = 1000000"
    by (auto simp: Let_def bench_parse_args_def bench_args_default_def flag_value_def or_default_def
        dest: parse_f64_wf u split: option.split)
qed

text \<open>
  C26. Reproducibility of the benchmark: for every command line, the seed, sizes and parameters that the
  run prints in its first line (the floats with the shortest digits that \<^verbatim>\<open>{}\<close> writes), given back
  as flags, are parsed to the same arguments, so that the second run draws the same data and prints
  the same lines.
\<close>

theorem printed_arguments_reproduce_the_run:
  assumes "prog \<notin> set bench_flags"
  shows "bench_run pf fm (printed_flags prog (bench_parse_args raw)) = bench_run pf fm raw"
proof -
  have "bench_parse_args (printed_flags prog (bench_parse_args raw)) = bench_parse_args raw"
    by (rule parse_printed_flags [OF assms bench_parse_args_ok])
  then show ?thesis by (simp only: bench_run_def)
qed

theorem printed_arguments_reproduce_the_run_witness:
  "\<forall>fm. bench_run Release fm
       (printed_flags (str ''driftbrake-benchmark'') (bench_parse_args [str ''bench'', str ''--noise'', str ''.25'']))
     = bench_run Release fm [str ''bench'', str ''--noise'', str ''.25'']"
  by (intro allI printed_arguments_reproduce_the_run) (simp add: bench_flags_def)

section \<open>The generator is a permutation\<close>

text \<open>A shift by at least a third of the width and an exclusive or is undone by two more shifts.\<close>

lemma xorshift_inverse:
  assumes "64 \<le> 3 * n"
  shows "(let y = x XOR drop_bit n x in y XOR drop_bit n y XOR drop_bit (2 * n) y) = (x :: u64)"
proof (rule bit_word_eqI)
  fix i assume "i < LENGTH(64)"
  moreover have "\<not> bit x (3 * n + i)" using assms bit_imp_le_length [of x "3 * n + i"] by auto
  ultimately show "bit (let y = x XOR drop_bit n x in y XOR drop_bit n y XOR drop_bit (2 * n) y) i = bit x i"
    by (auto simp: Let_def bit_xor_iff bit_drop_bit_eq add.assoc [symmetric] mult_2 numeral_3_eq_3)
qed

lemma xorshift_inj:
  assumes "64 \<le> 3 * n" "x XOR drop_bit n x = y XOR drop_bit n (y :: u64)"
  shows "x = y"
  using xorshift_inverse [OF assms(1), of x] xorshift_inverse [OF assms(1), of y] assms(2) by (simp add: Let_def)

lemma mult_unit_inj:
  assumes "c * d = 1" "x * c = y * (c :: u64)"
  shows "x = y"
proof -
  have "x = x * c * d" "y = y * c * d" using assms(1) by (simp_all add: mult.assoc)
  then show ?thesis using assms(2) by simp
qed

lemma splitmix_inj: "splitmix x = splitmix y \<longleftrightarrow> x = y"
proof
  assume e: "splitmix x = splitmix y"
  let ?a = "\<lambda>z. (z XOR drop_bit 30 z) * (0xBF58476D1CE4E5B9 :: u64)"
  let ?b = "\<lambda>z. (z XOR drop_bit 27 z) * (0x94D049BB133111EB :: u64)"
  have "?b (?a x) XOR drop_bit 31 (?b (?a x)) = ?b (?a y) XOR drop_bit 31 (?b (?a y))"
    using e by (simp only: splitmix_def Let_def)
  then have "?b (?a x) = ?b (?a y)" by (rule xorshift_inj [rotated]) simp
  then have "?a x XOR drop_bit 27 (?a x) = ?a y XOR drop_bit 27 (?a y)"
    by (rule mult_unit_inj [of _ "0x319642b2d24d8ec3", rotated]) simp
  then have "?a x = ?a y" by (rule xorshift_inj [rotated]) simp
  then have "x XOR drop_bit 30 x = y XOR drop_bit 30 y"
    by (rule mult_unit_inj [of _ "0x96de1b173f119089", rotated]) simp
  then show "x = y" by (rule xorshift_inj [rotated]) simp
qed simp

text \<open>
  C34. The output of the generator is a permutation of its 64-bit state: two states give the same
  output only when they are the same state, so two seeds differ in their first outputs already, and
  the state advances by an odd constant.
\<close>

theorem generator_injective:
  "(fst (next_u64 a) = fst (next_u64 b) \<longleftrightarrow> rng_state a = rng_state b) \<and>
   (fst (next_u64 (rng_new s)) = fst (next_u64 (rng_new t)) \<longleftrightarrow> s = t) \<and>
   odd (unat (rng_state (snd (next_u64 a)) - rng_state a))"
proof -
  have out: "fst (next_u64 r) = fst (next_u64 r') \<longleftrightarrow> rng_state r = rng_state r'" for r r'
    unfolding next_u64_def Let_def fst_conv splitmix_inj by (rule add_right_cancel)
  have "s = t" if "s XOR c = t XOR (c :: u64)" for c
  proof -
    have "(s XOR c) XOR c = (t XOR c) XOR c" using that by (rule arg_cong)
    then show ?thesis unfolding xor.assoc xor_self_eq xor.right_neutral .
  qed
  then have seed: "rng_state (rng_new s) = rng_state (rng_new t) \<longleftrightarrow> s = t"
    unfolding rng_new_def Rng.select_convs by blast
  have "rng_state (snd (next_u64 a)) - rng_state a = 0x9E3779B97F4A7C15"
    by (simp add: next_u64_def Let_def)
  then have "unat (rng_state (snd (next_u64 a)) - rng_state a) = 0x9E3779B97F4A7C15" by simp
  then show ?thesis using out seed by simp
qed

text \<open>
  \<^verbatim>\<open>next_f64\<close> is uniform on a grid: its value is exactly \<open>k / 2 ^ 53\<close> for the top 53 bits \<open>k\<close> of
  the next word, so it lies in the interval from 0 up to but excluding 1.
\<close>

theorem next_f64_grid:
  "fst (next_f64 rng) = Fin False (of_nat (unat (fst (next_u64 rng)) div 2 ^ 11) / 2 ^ 53) \<and>
   f64_le (f64_of_int 0) (fst (next_f64 rng)) \<and> f64_lt (fst (next_f64 rng)) (f64_of_int 1)"
proof -
  let ?x = "fst (next_u64 rng)" 
  define k where "k = unat ?x div 2 ^ 11"
  have k: "k < 2 ^ 53"
    using unsigned_less [of ?x, where 'a = nat] by (simp add: k_def less_mult_imp_div_less)
  have "unat (drop_bit 11 ?x) = k" by (simp add: k_def drop_bit_eq_div unat_div_distrib)
  then have u: "uint (drop_bit 11 ?x) = int k" by (simp only: uint_nat)
  have c: "uint (push_bit 53 (1 :: u64)) = 2 ^ 53" by simp
  have one: "f64_of_int 1 = Fin False 1" "f64_of_int 0 = Fin False 0"
    using f64_of_int_exact [of 1] f64_of_int_exact [of 0] by simp_all
  have "f64_of_int (2 ^ 53) = Fin False (2 ^ 53)" using f64_of_int_exact [of "2 ^ 53"] by simp
  moreover have "pack False (1 / 2 ^ 53) = Fin False (1 / 2 ^ 53)"
    using pack_grid [of 1 "- 53" False] by (simp add: power_int_def field_simps)
  ultimately have d: "f64_div (f64_of_int 1) (f64_of_int (2 ^ 53)) = Fin False (1 / 2 ^ 53)"
    by (simp add: one(1))
  have "f64_of_int (int k) = Fin False (of_nat k)" using f64_of_int_exact [of "int k"] k by simp
  then have "f64_mul (f64_of_int (int k)) (Fin False (1 / 2 ^ 53)) = pack False (of_nat k * (1 / 2 ^ 53))"
    by simp
  moreover have "fst (next_f64 rng) = f64_mul (f64_of_int (int k)) (Fin False (1 / 2 ^ 53))"
    by (simp only: next_f64_def split_beta u c d Let_def fst_conv)
  ultimately have "fst (next_f64 rng) = pack False (of_nat k * 2 powi (- 53))"
    by (simp add: power_int_def field_simps)
  also have "\<dots> = Fin False (of_nat k * 2 powi (- 53))" using k by (intro pack_grid; simp)
  finally have v: "fst (next_f64 rng) = Fin False (of_nat k / 2 ^ 53)" by (simp add: power_int_def field_simps)
  have "(of_nat k :: rat) < of_nat (2 ^ 53)" using k by (simp only: of_nat_less_iff)
  then show ?thesis using v unfolding one k_def [symmetric] by simp
qed

section \<open>The first halt\<close>

definition history_after :: "ReconcileHistory \<Rightarrow> trade_sequence \<Rightarrow> ReconcileHistory" where
  "history_after h trades = foldl (\<lambda>h pr. history_append h (fst pr) (snd pr)) h trades"

lemma history_after_simps [simp]:
  "history_after h [] = h"
  "history_after h ((p, r) # trades) = history_after (history_append h p r) trades"
  by (simp_all add: history_after_def)

context halt_policy
begin

text \<open>
  Since a policy keeps no state that the history does not determine, the state threaded through the
  loop does not matter: the loop finds the first prefix the initial policy halts on.
\<close>

lemma first_halt_least:
  assumes "policy_ok s" "first_halt_from evaluate s h i trades = Some (r, s')"
  shows "case r of
      None \<Rightarrow> \<forall>m. 0 < m \<and> m \<le> length trades \<longrightarrow> decides s (history_after h (take m trades)) = Some Continue
    | Some n \<Rightarrow> \<exists>m reason. n = i + m \<and> 0 < m \<and> m \<le> length trades
        \<and> decides s (history_after h (take m trades)) = Some (Halt reason)
        \<and> (\<forall>j. 0 < j \<and> j < m \<longrightarrow> decides s (history_after h (take j trades)) = Some Continue)"
  using assms
proof (induction trades arbitrary: s h i)
  case Nil
  then show ?case by auto
next
  case (Cons pr trades)
  obtain p q where pr: "pr = (p, q)" by (cases pr)
  let ?h = "history_append h p q"
  obtain d t where e: "evaluate s ?h = Some (d, t)" using Cons.prems(2) by (auto simp: pr bind_eq_Some_conv Let_def)
  have dec: "decides s ?h = Some d" using e by (simp add: decides_def)
  show ?case
  proof (cases d)
    case (Halt reason)
    then have "r = Some (i + 1)" using Cons.prems(2) e by (simp add: pr Let_def)
    then show ?thesis using dec Halt by (auto simp: pr intro!: exI [of _ 1] exI [of _ reason])
  next
    case Continue
    then have rec: "first_halt_from evaluate t ?h (i + 1) trades = Some (r, s')"
      using Cons.prems(2) e by (simp add: pr Let_def)
    have t: "policy_ok t" "decides t = decides s"
      using evaluate_ok [OF Cons.prems(1) e] decides_after [OF Cons.prems(1) e] by auto
    note IH = Cons.IH [OF t(1) rec, unfolded t(2)]
    have first: "decides s (history_after h (take (Suc 0) (pr # trades))) = Some Continue"
      using dec Continue by (simp add: pr)
    have shift: "history_after ?h (take j trades) = history_after h (take (Suc j) (pr # trades))" for j
      by (simp add: pr)
    have all: "decides s (history_after h (take j (pr # trades))) = Some Continue"
      if "0 < j" "\<And>k. 0 < k \<Longrightarrow> Suc k = j \<Longrightarrow> decides s (history_after ?h (take k trades)) = Some Continue" for j
      using that first shift by (cases j; cases "j - 1") auto
    show ?thesis
    proof (cases r)
      case None
      then show ?thesis using IH by (auto intro!: all)
    next
      case (Some n)
      then obtain m reason where m: "n = i + 1 + m" "0 < m" "m \<le> length trades"
        "decides s (history_after ?h (take m trades)) = Some (Halt reason)"
        "\<forall>j. 0 < j \<and> j < m \<longrightarrow> decides s (history_after ?h (take j trades)) = Some Continue"
        using IH by auto
      have "\<forall>j. 0 < j \<and> j < Suc m \<longrightarrow> decides s (history_after h (take j (pr # trades))) = Some Continue"
        using m(5) by (auto intro!: all)
      then show ?thesis using Some m by (auto simp: shift intro!: exI [of _ "Suc m"] exI [of _ reason])
    qed
  qed
qed

lemma first_halt_total:
  assumes "\<And>s h. policy_ok s \<Longrightarrow> evaluate s h \<noteq> None" "policy_ok s"
  shows "first_halt_from evaluate s h i trades \<noteq> None"
  using assms(2)
proof (induction trades arbitrary: s h i)
  case (Cons pr trades)
  obtain p q where pr: "pr = (p, q)" by (cases pr)
  obtain d t where e: "evaluate s (history_append h p q) = Some (d, t)"
    using assms(1) [OF Cons.prems] by (metis option.exhaust surj_pair)
  have "policy_ok t" using evaluate_ok [OF Cons.prems e] .
  then show ?case using Cons.IH e by (auto simp: pr Let_def split: HaltDecision.split)
qed simp

end

lemma decides_run_guards: "reconcile.decides pf P h = run_guards pf P h"
  by (simp add: reconcile.decides_def policy_evaluate_def map_option_case split: Option.bind_split option.split)

lemma release_evaluates: "policy_evaluate Release P h \<noteq> None"
  using run_guards_Release [of P h] by (auto simp: policy_evaluate_def)

text \<open>
  C24. \<^verbatim>\<open>run_to_first_halt\<close> returns, in a release build always, the least number of trades after which
  the policy halts: it halts on that prefix and continues on every shorter one, and it returns none
  only when the policy continues on every prefix.
\<close>

theorem first_halt_is_least:
  assumes "policy_ok P"
  shows "\<exists>r P'. run_to_first_halt Release P trades = Some (r, P') \<and>
     (case r of
        None \<Rightarrow> \<forall>m. 0 < m \<and> m \<le> length trades \<longrightarrow>
                  run_guards Release P (history_after history_new (take m trades)) = Some Continue
      | Some n \<Rightarrow> \<exists>reason. 0 < n \<and> n \<le> length trades
          \<and> run_guards Release P (history_after history_new (take n trades)) = Some (Halt reason)
          \<and> (\<forall>j. 0 < j \<and> j < n \<longrightarrow> run_guards Release P (history_after history_new (take j trades)) = Some Continue))"
proof -
  have "run_to_first_halt Release P trades \<noteq> None"
    unfolding run_to_first_halt_def
    using reconcile.first_halt_total [of Release P history_new 0 trades] release_evaluates assms by blast
  then obtain r P' where r: "run_to_first_halt Release P trades = Some (r, P')" by fastforce
  from reconcile.first_halt_least [OF assms this [unfolded run_to_first_halt_def]]
  show ?thesis unfolding decides_run_guards using r by (intro exI [of _ r] exI [of _ P']) (cases r; auto)
qed

theorem first_halt_is_least_witness:
  "policy_ok dual_guard \<and> (\<exists>r P'. run_to_first_halt Release dual_guard
     (replicate 5 (PredictedProfit 100, RealizedProfit 40)) = Some (r, P'))"
  using first_halt_is_least [of dual_guard "replicate 5 (PredictedProfit 100, RealizedProfit 40)"] dual_guard_ok by blast

lemma rate_value:
  assumes "k \<le> n" "0 < n" "n \<le> 2 ^ 53"
  shows "rate k n = Fin False (round_mag (of_nat k / of_nat n))"
proof -
  have e: "f64_of_int (int m) = Fin False (of_nat m)" if "m \<le> n" for m
    using f64_of_int_exact [of "int m"] that assms(3) by simp
  have q: "0 \<le> (of_nat k / of_nat n :: rat)" "(of_nat k / of_nat n :: rat) \<le> 1" using assms(1,2) by simp_all
  then have "\<not> overflowed (round_mag (of_nat k / of_nat n))"
    using not_overflowed [of "of_nat k / of_nat n"] p2_le_iff [of 0 1023] by simp
  then show ?thesis
    using assms(2) e [OF assms(1)] e [of n] by (simp add: rate_def pack_def Let_def)
qed

lemma rate_unit:
  assumes "k \<le> n" "0 < n" "n \<le> 2 ^ 53"
  shows "f64_le (f64_of_int 0) (rate k n) \<and> f64_le (rate k n) (f64_of_int 1)"
proof -
  have "(of_nat k / of_nat n :: rat) \<le> 1" using assms(1,2) by simp
  then show ?thesis
    using round_mag_mono [of "of_nat k / of_nat n" 1] round_mag_of_int [of 1] f64_of_int_exact [of 0]
      f64_of_int_exact [of 1] by (simp add: rate_value [OF assms])
qed

lemma rate_mono:
  assumes "k \<le> m" "m \<le> n" "0 < n" "n \<le> 2 ^ 53"
  shows "f64_le (rate k n) (rate m n)"
proof -
  have "(of_nat k / of_nat n :: rat) \<le> of_nat m / of_nat n" using assms(1,3) by (simp add: divide_right_mono)
  then show ?thesis
    using rate_value [of k n] rate_value [of m n] assms by (simp add: round_mag_mono)
qed

lemma map_run_length: "map_run f xs = Some ys \<Longrightarrow> length ys = length xs"
  by (auto simp: map_run_Some_iff dest: arg_cong [where f = length])

text \<open>
  The rates of a sweep point over batches that are not empty are numbers between 0 and 1. (Over an
  empty batch they are not numbers.)
\<close>

theorem sweep_rates_are_fractions:
  assumes "sweep_point pf healthy_batch drifted_batch point = Some r"
    and "healthy_batch \<noteq> []" "length healthy_batch \<le> 2 ^ 53" "drifted_batch \<noteq> []" "length drifted_batch \<le> 2 ^ 53"
  shows "f64_le (f64_of_int 0) (sr_false_halt_rate r) \<and> f64_le (sr_false_halt_rate r) (f64_of_int 1) \<and>
     f64_le (f64_of_int 0) (sr_missed_catch_rate r) \<and> f64_le (sr_missed_catch_rate r) (f64_of_int 1)"
proof -
  obtain hs k where h: "map_run (halts_at pf (fst point) (snd point)) healthy_batch = Some hs"
    and f: "sr_false_halt_rate r = rate (length (filter (\<lambda>r. r \<noteq> None) hs)) (length healthy_batch)"
    and m: "sr_missed_catch_rate r = rate (length drifted_batch - k) (length drifted_batch)"
    using assms(1) by (auto simp: sweep_point_def split_beta Let_def bind_eq_Some_conv)
  have "length (filter (\<lambda>r. r \<noteq> None) hs) \<le> length healthy_batch"
    using length_filter_le [of "\<lambda>r. r \<noteq> None" hs] map_run_length [OF h] by simp
  then show ?thesis
    unfolding f m using assms(2-) rate_unit [of _ "length healthy_batch"] rate_unit [of "length drifted_batch - k" "length drifted_batch"]
    by simp
qed

theorem sweep_rates_are_fractions_witness:
  "\<exists>r. sweep_point Release [[]] [[]] (fast_guard_default, slow_guard_default) = Some r \<and>
     f64_le (sr_false_halt_rate r) (f64_of_int 1) \<and> f64_le (sr_missed_catch_rate r) (f64_of_int 1)"
proof -
  have "\<exists>r. sweep_point Release [[]] [[]] (fast_guard_default, slow_guard_default) = Some r"
    by (simp add: sweep_point_def halts_at_def policy_new_def run_to_first_halt_def Let_def
        fast_guard_default_def slow_guard_default_def)
  then show ?thesis using sweep_rates_are_fractions by fastforce
qed

end
