(* ===== verification/Benchmark_Order.thy ===== *)
theory Benchmark_Order
  imports Benchmark
begin

text \<open>
  The sweep is ordered as its curves suggest: a tighter grid point halts every sequence the looser
  one halts, no later, so it false-halts at least as often and misses drift at most as often.
\<close>

section \<open>Tighter grid points\<close>

definition tighter ::
  "FastGuardConfig \<times> SlowGuardConfig \<Rightarrow> FastGuardConfig \<times> SlowGuardConfig \<Rightarrow> bool" where
  "tighter loose tight \<longleftrightarrow>
     fg_window (fst tight) \<le> fg_window (fst loose) \<and>
     f64_le (fg_threshold (fst loose)) (fg_threshold (fst tight)) \<and>
     sg_window (snd tight) = sg_window (snd loose) \<and>
     f64_le (sg_threshold (snd loose)) (sg_threshold (snd tight))"

text \<open>What \<^verbatim>\<open>ReconcilePolicy::new\<close> returns for a point: the two ratio guards and no others.\<close>

definition ratio_policy :: "FastGuardConfig \<times> SlowGuardConfig \<Rightarrow> ReconcilePolicy" where
  "ratio_policy point =
     \<lparr>rp_fast = fst point, rp_slow = snd point, rp_revert_burst = None, rp_revert_gas = None,
      rp_volume_weighted = None, rp_drawdown = None\<rparr>"

definition trips :: "FastGuardConfig \<times> SlowGuardConfig \<Rightarrow> ReconcileHistory \<Rightarrow> bool" where
  "trips point h \<longleftrightarrow> fast_guard (ratio_policy point) h \<noteq> None \<or> slow_guard (ratio_policy point) h \<noteq> None"

lemma ratio_policy_simps [simp]:
  "rp_fast (ratio_policy point) = fst point" "rp_slow (ratio_policy point) = snd point"
  by (simp_all add: ratio_policy_def)

lemma policy_new_ratio: "policy_new pf fast slow = Some P \<Longrightarrow> P = ratio_policy (fast, slow)"
  by (auto simp: policy_new_def ratio_policy_def bind_eq_Some_conv)

lemma evaluate_ratio:
  obtains d where "policy_evaluate pf (ratio_policy point) h = Some (d, ratio_policy point)"
    "d \<noteq> Continue \<longleftrightarrow> trips point h"
proof -
  have g: "revert_burst_guard (ratio_policy point) h = None" "revert_gas_guard pf (ratio_policy point) h = Some None"
    "drawdown_guard pf (ratio_policy point) h = Some None"
    "volume_weighted_guard pf (ratio_policy point) h = Some None"
    by (simp_all add: revert_burst_guard_def revert_gas_guard_def drawdown_guard_def volume_weighted_guard_def
        ratio_policy_def)
  show thesis
    by (rule that [of "case fast_guard (ratio_policy point) h of Some r \<Rightarrow> Halt r
         | None \<Rightarrow> (case slow_guard (ratio_policy point) h of Some r \<Rightarrow> Halt r | None \<Rightarrow> Continue)"])
      (auto simp: policy_evaluate_def run_guards_def guard_or_def g trips_def split: option.splits)
qed

lemma tighter_trips:
  assumes "tighter loose tight" "trips loose h"
  shows "trips tight h"
proof -
  note t = assms(1) [unfolded tighter_def]
  have "fast_guard (ratio_policy tight) h \<noteq> None" if "fast_guard (ratio_policy loose) h \<noteq> None"
  proof -
    have "set (recent_ratios h (fg_window (fst tight))) \<subseteq> set (recent_ratios h (fg_window (fst loose)))"
      using t by (intro recent_ratios_window) simp
    then show ?thesis
      using that t unfolding fast_guard_iff ratio_policy_simps by (blast intro: f64_lt_le_trans order.trans)
  qed
  moreover have "slow_guard (ratio_policy tight) h \<noteq> None" if "slow_guard (ratio_policy loose) h \<noteq> None"
    using that t by (auto simp: slow_guard_def Let_def split: if_splits dest: f64_lt_le_trans)
  ultimately show ?thesis using assms(2) by (auto simp: trips_def)
qed

section \<open>First halts\<close>

definition halts_no_later :: "nat option \<Rightarrow> nat option \<Rightarrow> bool" where
  "halts_no_later tight loose \<longleftrightarrow> (\<forall>n. loose = Some n \<longrightarrow> (\<exists>m. tight = Some m \<and> m \<le> n))"

lemma first_halt_after:
  "first_halt_from (policy_evaluate pf) P h i trades = Some (Some n, P') \<Longrightarrow> i < n"
proof (induction trades arbitrary: P h i)
  case (Cons pr trades)
  obtain p q where pr: "pr = (p, q)" by (cases pr)
  obtain d t where e: "policy_evaluate pf P (history_append h p q) = Some (d, t)"
    using Cons.prems by (auto simp: pr bind_eq_Some_conv Let_def)
  show ?case
  proof (cases d)
    case Continue
    then have "i + 1 < n" using Cons.prems e by (intro Cons.IH) (simp add: pr Let_def)
    then show ?thesis by simp
  qed (use Cons.prems e in \<open>simp add: pr Let_def\<close>)
qed simp

lemma first_halt_tighter:
  assumes "tighter loose tight"
  shows "\<exists>r r'. first_halt_from (policy_evaluate pf) (ratio_policy loose) h i trades = Some (r, ratio_policy loose) \<and>
     first_halt_from (policy_evaluate pf) (ratio_policy tight) h i trades = Some (r', ratio_policy tight) \<and>
     halts_no_later r' r"
proof (induction trades arbitrary: h i)
  case Nil
  then show ?case by (simp add: halts_no_later_def)
next
  case (Cons pr trades)
  obtain p q where pr: "pr = (p, q)" by (cases pr)
  let ?h = "history_append h p q"
  obtain d where d: "policy_evaluate pf (ratio_policy loose) ?h = Some (d, ratio_policy loose)"
    "d \<noteq> Continue \<longleftrightarrow> trips loose ?h" by (rule evaluate_ratio)
  obtain d' where d': "policy_evaluate pf (ratio_policy tight) ?h = Some (d', ratio_policy tight)"
    "d' \<noteq> Continue \<longleftrightarrow> trips tight ?h" by (rule evaluate_ratio)
  obtain r r' where IH: "first_halt_from (policy_evaluate pf) (ratio_policy loose) ?h (i + 1) trades = Some (r, ratio_policy loose)"
    "first_halt_from (policy_evaluate pf) (ratio_policy tight) ?h (i + 1) trades = Some (r', ratio_policy tight)"
    "halts_no_later r' r" using Cons by blast
  have "i + 1 < n" if "r = Some n" for n using first_halt_after IH(1) that by blast
  then have late: "halts_no_later (Some (i + 1)) r" by (fastforce simp: halts_no_later_def)
  have "trips loose ?h \<Longrightarrow> trips tight ?h" by (rule tighter_trips [OF assms])
  then have "d = Continue \<or> d' \<noteq> Continue" using d(2) d'(2) by blast
  then show ?case
    using d(1) d'(1) IH late by (cases d; cases d') (auto simp: pr Let_def halts_no_later_def)
qed

lemma halts_at_tighter:
  assumes "tighter (f, s) (f', s')" "policy_new pf f s \<noteq> None" "policy_new pf f' s' \<noteq> None"
  shows "\<exists>r r'. halts_at pf f s trades = Some r \<and> halts_at pf f' s' trades = Some r' \<and> halts_no_later r' r"
proof -
  have "policy_new pf f s = Some (ratio_policy (f, s))" "policy_new pf f' s' = Some (ratio_policy (f', s'))"
    using assms(2,3) policy_new_ratio by blast+
  then show ?thesis
    using first_halt_tighter [OF assms(1), of pf history_new 0 trades] by (auto simp: halts_at_def run_to_first_halt_def)
qed

section \<open>Rates\<close>

lemma halted_count:
  "list_all2 halts_no_later xs ys \<Longrightarrow> length (filter (\<lambda>r. r \<noteq> None) ys) \<le> length (filter (\<lambda>r. r \<noteq> None) xs)"
  by (induction xs ys rule: list_all2_induct) (auto simp: halts_no_later_def)

lemma map_run_halts:
  assumes "tighter (f, s) (f', s')" "policy_new pf f s \<noteq> None" "policy_new pf f' s' \<noteq> None"
  obtains hs hs' where "map_run (halts_at pf f s) batch = Some hs" "map_run (halts_at pf f' s') batch = Some hs'"
    "length hs = length batch" "length hs' = length batch" "list_all2 halts_no_later hs' hs"
proof -
  have h: "halts_at pf f s t = Some (the (halts_at pf f s t))" "halts_at pf f' s' t = Some (the (halts_at pf f' s' t))"
    "halts_no_later (the (halts_at pf f' s' t)) (the (halts_at pf f s t))" for t
    using halts_at_tighter [OF assms, of t] by auto
  have "map_run (halts_at pf f s) batch = Some (map (\<lambda>t. the (halts_at pf f s t)) batch)"
    "map_run (halts_at pf f' s') batch = Some (map (\<lambda>t. the (halts_at pf f' s' t)) batch)"
    by (intro map_run_total h(1,2))+
  then show thesis
    using that [of "map (\<lambda>t. the (halts_at pf f s t)) batch" "map (\<lambda>t. the (halts_at pf f' s' t)) batch"]
      h(3) by (simp add: list_all2_conv_all_nth)
qed

lemma sweep_tighter:
  assumes "tighter loose tight"
    and "policy_new pf (fst loose) (snd loose) \<noteq> None" "policy_new pf (fst tight) (snd tight) \<noteq> None"
    and "healthy_batch \<noteq> []" "length healthy_batch \<le> 2 ^ 53" "drifted_batch \<noteq> []" "length drifted_batch \<le> 2 ^ 53"
  shows "\<exists>r r'. sweep pf healthy_batch drifted_batch [loose, tight] = Some [r, r'] \<and>
     f64_le (sr_false_halt_rate r) (sr_false_halt_rate r') \<and>
     f64_le (sr_missed_catch_rate r') (sr_missed_catch_rate r)"
proof -
  obtain f s f' s' where p: "loose = (f, s)" "tight = (f', s')" by (cases loose; cases tight)
  note new = assms(2,3) [unfolded p fst_conv snd_conv]
  obtain hs hs' where h: "map_run (halts_at pf f s) healthy_batch = Some hs"
    "map_run (halts_at pf f' s') healthy_batch = Some hs'" "length hs' = length healthy_batch"
    "list_all2 halts_no_later hs' hs"
    using map_run_halts [OF assms(1) [unfolded p] new] by metis
  obtain ds ds' where d: "map_run (halts_at pf f s) drifted_batch = Some ds"
    "map_run (halts_at pf f' s') drifted_batch = Some ds'" "length ds = length drifted_batch"
    "list_all2 halts_no_later ds' ds"
    using map_run_halts [OF assms(1) [unfolded p] new] by metis
  have "f64_le (rate (length (filter (\<lambda>r. r \<noteq> None) hs)) (length healthy_batch))
     (rate (length (filter (\<lambda>r. r \<noteq> None) hs')) (length healthy_batch))"
    using assms(4,5) halted_count [OF h(4)] length_filter_le [of _ hs', unfolded h(3)] by (intro rate_mono) auto
  moreover have "f64_le (rate (length drifted_batch - length (filter (\<lambda>r. r \<noteq> None) ds')) (length drifted_batch))
     (rate (length drifted_batch - length (filter (\<lambda>r. r \<noteq> None) ds)) (length drifted_batch))"
    using assms(6,7) halted_count [OF d(4)] by (intro rate_mono) auto
  ultimately show ?thesis
    by (simp add: sweep_def sweep_point_def p h d Let_def)
qed

text \<open>The thresholds of the repository's test of this property.\<close>

definition loose_point :: "FastGuardConfig \<times> SlowGuardConfig" where
  "loose_point = (\<lparr>fg_threshold = f64_of_rat (3 / 10), fg_window = 3\<rparr>,
     \<lparr>sg_threshold = f64_of_rat (5 / 10), sg_window = 20\<rparr>)"

definition tight_point :: "FastGuardConfig \<times> SlowGuardConfig" where
  "tight_point = (\<lparr>fg_threshold = f64_of_rat (6 / 10), fg_window = 3\<rparr>,
     \<lparr>sg_threshold = f64_of_rat (8 / 10), sg_window = 20\<rparr>)"

lemma points_ok:
  "tighter loose_point tight_point"
  "policy_new pf (fst loose_point) (snd loose_point) \<noteq> None"
  "policy_new pf (fst tight_point) (snd tight_point) \<noteq> None"
proof -
  have "f64_le (f64_of_rat (3 / 10)) (f64_of_rat (6 / 10))" "f64_le (f64_of_rat (5 / 10)) (f64_of_rat (8 / 10))"
    "f64_lt (f64_of_rat (3 / 10)) (f64_of_rat (5 / 10))" "f64_lt (f64_of_rat (6 / 10)) (f64_of_rat (8 / 10))"
    by code_simp+
  then show "tighter loose_point tight_point"
    "policy_new pf (fst loose_point) (snd loose_point) \<noteq> None"
    "policy_new pf (fst tight_point) (snd tight_point) \<noteq> None"
    by (simp_all add: tighter_def policy_new_def loose_point_def tight_point_def)
qed

text \<open>
  C25. The curves of the sweep are monotone (whitepaper, Property 3): over the same two batches, neither
  of them empty and each of at most \<open>2 ^ 53\<close> sequences, a point with thresholds no lower, a fast window
  no longer and the same slow window gives a false-halt rate no lower and a missed-catch rate no
  higher, in both profiles and through the roundings of the rates.
\<close>

theorem tightening_trades_misses_for_false_halts:
  assumes "tighter loose tight"
    and "policy_new pf (fst loose) (snd loose) \<noteq> None" "policy_new pf (fst tight) (snd tight) \<noteq> None"
    and "healthy_batch \<noteq> []" "length healthy_batch \<le> 2 ^ 53" "drifted_batch \<noteq> []" "length drifted_batch \<le> 2 ^ 53"
  shows "\<exists>r r'. sweep pf healthy_batch drifted_batch [loose, tight] = Some [r, r'] \<and>
     f64_le (sr_false_halt_rate r) (sr_false_halt_rate r') \<and>
     f64_le (sr_missed_catch_rate r') (sr_missed_catch_rate r)"
  by (rule sweep_tighter [OF assms])

theorem tightening_trades_misses_for_false_halts_witness:
  "\<exists>r r'. sweep Debug [[(PredictedProfit 100, RealizedProfit 100)]]
       [replicate 3 (PredictedProfit 100, RealizedProfit 40)] [loose_point, tight_point] = Some [r, r'] \<and>
     f64_le (sr_false_halt_rate r) (sr_false_halt_rate r') \<and>
     f64_le (sr_missed_catch_rate r') (sr_missed_catch_rate r)"
  by (rule tightening_trades_misses_for_false_halts [OF points_ok]) simp_all

end
