(* ===== verification/Test_Runs.thy ===== *)
theory Test_Runs
  imports Core_Types
begin

text \<open>
  The repository's unit tests are run on the model, one theory of tests per group of crates. A test
  is a run, as the code under test is: a failed assertion is a panic, and a test passes when it
  returns. A \<^verbatim>\<open>should_panic\<close> test passes when it panics; the message of the panic is not modelled.
  Tests keep the names of the test functions.
\<close>

type_synonym test = "unit option"

abbreviation passes :: "test \<Rightarrow> bool" where "passes t \<equiv> t = Some ()"

abbreviation panics :: "test \<Rightarrow> bool" where "panics t \<equiv> t = None"

text \<open>\<^verbatim>\<open>unwrap\<close> and \<^verbatim>\<open>unwrap_err\<close> panic on the other constructor.\<close>

definition unwrap :: "'e + 'a \<Rightarrow> 'a option" where
  "unwrap r = (case r of Inr a \<Rightarrow> Some a | Inl _ \<Rightarrow> panic)"

definition is_err :: "'e + 'a \<Rightarrow> bool" where
  "is_err r = (case r of Inl _ \<Rightarrow> True | Inr _ \<Rightarrow> False)"

lemma unwrap_simps [simp]:
  "unwrap (Inr a) = Some a" "unwrap (Inl e) = panic" "is_err (Inl e)" "\<not> is_err (Inr a)"
  by (simp_all add: unwrap_def is_err_def)

definition usize_max :: nat where
  "usize_max = 2 ^ 64 - 1"

text \<open>An array of 32 equal bytes.\<close>

definition bytes32 :: "u8 \<Rightarrow> hash32" where
  "bytes32 b = from_be_bytes (replicate 32 b)"

named_theorems test_simps \<open>definitions unfolded to run a test\<close>

lemmas [test_simps] = Let_def assert_that_def

end
