(* ===== verification/Reconcile_Tests.thy ===== *)
theory Reconcile_Tests
  imports Reconcile_Spec Test_Runs
begin

text \<open>
  The unit tests of the crates \<^verbatim>\<open>driftbrake-core\<close> and \<^verbatim>\<open>driftbrake-reconcile\<close>. Those over integers
  evaluate by simplification, those over floats by the code equations of binary64, and the long
  windows by bounds on their means. A test with a profile passes in debug and in release builds.
\<close>

section \<open>The tests of the core types\<close>

definition pair :: "i128 \<Rightarrow> i128 \<Rightarrow> PredictedProfit \<times> RealizedProfit" where
  "pair predicted realized = (PredictedProfit predicted, RealizedProfit realized)"

definition append_pairs :: "ReconcileHistory \<Rightarrow> (i128 \<times> i128) list \<Rightarrow> ReconcileHistory" where
  "append_pairs h prs = foldl (\<lambda>h (p, r). history_append h (PredictedProfit p) (RealizedProfit r)) h prs"

definition recent_ratios_computes_realized_over_predicted_not_the_inverse :: test where
  "recent_ratios_computes_realized_over_predicted_not_the_inverse =
     (let (p, r) = pair 100 42; history = history_append history_new p r; ratios = recent_ratios history 1
      in do { assert_that (ratios = [f64_of_rat (42 / 100)]);
              assert_that (f64_lt (hd ratios) (f64_of_int 1)) })"

definition recent_ratios_excludes_non_positive_predicted_profit :: test where
  "recent_ratios_excludes_non_positive_predicted_profit =
     (let history = append_pairs history_new [(100, 50), (0, 999), (- 10, 5), (200, 180)]
      in assert_that (recent_ratios history 10 = [f64_of_rat (5 / 10), f64_of_rat (9 / 10)]))"

definition recent_ratios_returns_oldest_first_within_the_window :: test where
  "recent_ratios_returns_oldest_first_within_the_window =
     (let history = append_pairs history_new [(100, 90), (100, 80), (100, 70), (100, 60)]
      in assert_that (recent_ratios history 2 = [f64_of_rat (7 / 10), f64_of_rat (6 / 10)]))"

definition recent_ratios_handles_short_history_gracefully :: test where
  "recent_ratios_handles_short_history_gracefully =
     do { assert_that (recent_ratios history_new 20 = []);
          assert_that (recent_ratios (append_pairs history_new [(100, 50)]) 20 = [f64_of_rat (5 / 10)]) }"

definition revert_events_never_enter_pairs_or_ratios :: test where
  "revert_events_never_enter_pairs_or_ratios =
     (let history =
        history_record_revert (append_pairs history_new [(100, 80)])
          \<lparr>rv_tx_hash = 0, rv_block_number = 1, rv_reason = Some (str ''out of gas''),
           rv_gas_used = 21000, rv_effective_gas_price = 30000000000\<rparr>
      in do { assert_that (length (pairs history) = 1);
              assert_that (length (reverts history) = 1);
              assert_that (length (timeline history) = 2);
              assert_that (recent_ratios history 10 = [f64_of_rat (8 / 10)]) })"

definition consecutive_reverts_tracks_burst_and_resets_on_success :: test where
  "consecutive_reverts_tracks_burst_and_resets_on_success =
     (let rev_event = \<lparr>rv_tx_hash = bytes32 1, rv_block_number = 10, rv_reason = None,
                       rv_gas_used = 50000, rv_effective_gas_price = 20000000000\<rparr>;
          h0 = history_new;
          h1 = history_record_revert h0 rev_event;
          h2 = history_record_revert h1 rev_event;
          h3 = append_pairs h2 [(100, 90)];
          h4 = history_record_revert h3 rev_event
      in do { assert_that (consecutive_reverts h0 = 0);
              assert_that (consecutive_reverts h1 = 1);
              assert_that (consecutive_reverts h2 = 2);
              assert_that (consecutive_reverts h3 = 0);
              assert_that (consecutive_reverts h4 = 1) })"

definition recent_revert_gas_burned_computes_cost :: "profile \<Rightarrow> test" where
  "recent_revert_gas_burned_computes_cost pf =
     (let rev1 = \<lparr>rv_tx_hash = bytes32 1, rv_block_number = 10, rv_reason = None,
                  rv_gas_used = 20000, rv_effective_gas_price = 1000\<rparr>;
          rev2 = \<lparr>rv_tx_hash = bytes32 2, rv_block_number = 11, rv_reason = None,
                  rv_gas_used = 30000, rv_effective_gas_price = 2000\<rparr>;
          history = history_record_revert (append_pairs (history_record_revert history_new rev1) [(100, 90)]) rev2
      in do { burned1 \<leftarrow> recent_revert_gas_burned pf history 1;
              assert_that (burned1 = 60000000);
              burned3 \<leftarrow> recent_revert_gas_burned pf history 3;
              assert_that (burned3 = 80000000) })"

lemmas [test_simps] = append_pairs_def pair_def recent_revert_gas_burned_def
  revert_gas_cost_def u_mul_def u_sum_def u_add_def

lemma core_tests_pass:
  "passes recent_ratios_computes_realized_over_predicted_not_the_inverse"
  "passes recent_ratios_excludes_non_positive_predicted_profit"
  "passes recent_ratios_returns_oldest_first_within_the_window"
  "passes recent_ratios_handles_short_history_gracefully"
  "passes revert_events_never_enter_pairs_or_ratios"
  by code_simp+

lemma core_revert_tests_pass:
  "passes consecutive_reverts_tracks_burst_and_resets_on_success"
  "passes (recent_revert_gas_burned_computes_cost pf)"
  by (cases pf; simp add: consecutive_reverts_tracks_burst_and_resets_on_success_def
      recent_revert_gas_burned_computes_cost_def test_simps)+

section \<open>The tests of the guards\<close>

definition realized_at :: "f64 \<Rightarrow> i128" where
  "realized_at ratio =
     word_of_int (f64_as_int (- (2 ^ 127)) (2 ^ 127 - 1) (f64_round (f64_mul (f64_of_int 100) ratio)))"

definition history_from_ratios :: "f64 list \<Rightarrow> ReconcileHistory" where
  "history_from_ratios ratios =
     foldl (\<lambda>history ratio. history_append history (PredictedProfit 100) (RealizedProfit (realized_at ratio)))
       history_new ratios"

text \<open>The decision of one evaluation; the policy has no state of its own to carry along.\<close>

definition decide :: "profile \<Rightarrow> ReconcilePolicy \<Rightarrow> ReconcileHistory \<Rightarrow> HaltDecision option" where
  "decide pf P h = do { (decision, _) \<leftarrow> policy_evaluate pf P h; Some decision }"

fun is_fast_halt :: "HaltDecision \<Rightarrow> bool" where
  "is_fast_halt (Halt (FastGuard _ _)) = True"
| "is_fast_halt _ = False"

fun is_slow_halt :: "HaltDecision \<Rightarrow> bool" where
  "is_slow_halt (Halt (SlowGuard _ _ _)) = True"
| "is_slow_halt _ = False"

definition ratio_direction_flags_underperformance_not_overperformance :: "profile \<Rightarrow> test" where
  "ratio_direction_flags_underperformance_not_overperformance pf =
     do { policy \<leftarrow> policy_new pf \<lparr>fg_threshold = f64_of_rat (50 / 100), fg_window = 1\<rparr>
                                 \<lparr>sg_threshold = f64_of_rat (99 / 100), sg_window = usize_max\<rparr>;
          d1 \<leftarrow> decide pf policy (history_from_ratios [f64_of_rat (42 / 100)]);
          assert_that (is_fast_halt d1);
          d2 \<leftarrow> decide pf policy (history_from_ratios [f64_of_rat (238 / 100)]);
          assert_that (d2 = Continue) }"

definition ratio_direction_worked_example_from_whitepaper_section_4_1 :: test where
  "ratio_direction_worked_example_from_whitepaper_section_4_1 =
     assert_that (recent_ratios (append_pairs history_new [(100, 42)]) 1 = [f64_of_rat (42 / 100)])"

definition fast_guard_trips_on_three_consecutive_bad_ratios_after_healthy_history ::
  "profile \<Rightarrow> test" where
  "fast_guard_trips_on_three_consecutive_bad_ratios_after_healthy_history pf =
     do { policy \<leftarrow> default_dual_guard pf;
          d \<leftarrow> decide pf policy (history_from_ratios (map f64_of_rat [9 / 10, 9 / 10, 3 / 10, 2 / 10, 1 / 10]));
          (case d of
             Halt (FastGuard window threshold) \<Rightarrow>
               do { assert_that (window = map f64_of_rat [3 / 10, 2 / 10, 1 / 10]);
                    assert_that (threshold = f64_of_rat (50 / 100)) }
           | other \<Rightarrow> panic) }"

definition fast_guard_does_not_trip_on_a_single_bad_ratio :: "profile \<Rightarrow> test" where
  "fast_guard_does_not_trip_on_a_single_bad_ratio pf =
     do { policy \<leftarrow> default_dual_guard pf;
          d \<leftarrow> decide pf policy (history_from_ratios (map f64_of_rat [9 / 10, 9 / 10, 1 / 10]));
          assert_that (d = Continue) }"

definition fast_guard_requires_the_bad_run_to_be_the_most_recent_and_unbroken :: "profile \<Rightarrow> test" where
  "fast_guard_requires_the_bad_run_to_be_the_most_recent_and_unbroken pf =
     do { policy \<leftarrow> default_dual_guard pf;
          d \<leftarrow> decide pf policy (history_from_ratios (map f64_of_rat [1 / 10, 9 / 10, 1 / 10, 2 / 10]));
          assert_that (d = Continue) }"

definition fast_guard_is_configurable_not_hardcoded :: "profile \<Rightarrow> test" where
  "fast_guard_is_configurable_not_hardcoded pf =
     do { policy \<leftarrow> policy_new pf \<lparr>fg_threshold = f64_of_rat (80 / 100), fg_window = 2\<rparr>
                                 \<lparr>sg_threshold = f64_of_rat (99 / 100), sg_window = usize_max\<rparr>;
          d \<leftarrow> decide pf policy (history_from_ratios (map f64_of_rat [75 / 100, 75 / 100]));
          assert_that (is_fast_halt d) }"

text \<open>The ratios \<open>0.65 + (i % 8) * 0.01\<close> of the two tests of a slow bleed.\<close>

definition bleed_ratio :: "int \<Rightarrow> f64" where
  "bleed_ratio i =
     f64_add (f64_of_rat (65 / 100)) (f64_mul (f64_of_int (i mod 8)) (f64_of_rat (1 / 100)))"

definition bleed_ratios :: "f64 list" where
  "bleed_ratios = map bleed_ratio [0..19]"

definition slow_guard_trips_on_a_slow_bleed_the_fast_guard_misses :: "profile \<Rightarrow> test" where
  "slow_guard_trips_on_a_slow_bleed_the_fast_guard_misses pf =
     do { policy \<leftarrow> default_dual_guard pf;
          assert_that (f64_lt (f64_div (f64_sum bleed_ratios) (f64_of_int (int (length bleed_ratios))))
                              (f64_of_rat (70 / 100)));
          assert_that (list_all (\<lambda>r. f64_le (f64_of_rat (50 / 100)) r) bleed_ratios);
          d \<leftarrow> decide pf policy (history_from_ratios bleed_ratios);
          (case d of
             Halt (SlowGuard mean window_size threshold) \<Rightarrow>
               do { assert_that (window_size = 20);
                    assert_that (threshold = f64_of_rat (70 / 100)) }
           | other \<Rightarrow> panic) }"

definition slow_guard_does_not_trip_with_fewer_than_the_full_window :: "profile \<Rightarrow> test" where
  "slow_guard_does_not_trip_with_fewer_than_the_full_window pf =
     do { policy \<leftarrow> default_dual_guard pf;
          d \<leftarrow> decide pf policy (history_from_ratios (replicate 19 (f64_of_rat (6 / 10))));
          assert_that (d = Continue) }"

definition slow_guard_can_trip_when_fast_guard_would_not :: "profile \<Rightarrow> test" where
  "slow_guard_can_trip_when_fast_guard_would_not pf =
     do { policy \<leftarrow> default_dual_guard pf;
          d \<leftarrow> decide pf policy (history_from_ratios bleed_ratios);
          assert_that (is_slow_halt d) }"

definition fast_guard_can_trip_when_slow_guard_would_not :: "profile \<Rightarrow> test" where
  "fast_guard_can_trip_when_slow_guard_would_not pf =
     do { policy \<leftarrow> default_dual_guard pf;
          d \<leftarrow> decide pf policy
                 (history_from_ratios (replicate 17 (f64_of_int 1) @ map f64_of_rat [1 / 10, 1 / 10, 1 / 10]));
          assert_that (is_fast_halt d) }"

definition rejects_a_zero_fast_guard_window :: "profile \<Rightarrow> test" where
  "rejects_a_zero_fast_guard_window pf =
     do { policy_new pf \<lparr>fg_threshold = f64_of_rat (5 / 10), fg_window = 0\<rparr> slow_guard_default; Some () }"

definition rejects_a_zero_slow_guard_window :: "profile \<Rightarrow> test" where
  "rejects_a_zero_slow_guard_window pf =
     do { policy_new pf fast_guard_default \<lparr>sg_threshold = f64_of_rat (9 / 10), sg_window = 0\<rparr>; Some () }"

definition continues_on_empty_history :: "profile \<Rightarrow> test" where
  "continues_on_empty_history pf =
     do { policy \<leftarrow> default_dual_guard pf;
          d \<leftarrow> decide pf policy history_new;
          assert_that (d = Continue) }"

definition continues_when_history_is_shorter_than_either_window :: "profile \<Rightarrow> test" where
  "continues_when_history_is_shorter_than_either_window pf =
     do { policy \<leftarrow> default_dual_guard pf;
          d \<leftarrow> decide pf policy (history_from_ratios (map f64_of_rat [1 / 10, 1 / 10]));
          assert_that (d = Continue) }"

definition non_positive_predicted_profit_is_excluded_from_both_guards :: "profile \<Rightarrow> test" where
  "non_positive_predicted_profit_is_excluded_from_both_guards pf =
     do { policy \<leftarrow> default_dual_guard pf;
          d \<leftarrow> decide pf policy
                 (append_pairs history_new [(100, 10), (100, 10), (100, 10), (- 5, 999999)]);
          assert_that (is_fast_halt d) }"

section \<open>The tests of the other guards\<close>

definition no_op_revert :: "u64 \<Rightarrow> u128 \<Rightarrow> RevertEvent" where
  "no_op_revert gas_used effective_gas_price =
     \<lparr>rv_tx_hash = 0, rv_block_number = 1, rv_reason = None, rv_gas_used = gas_used,
      rv_effective_gas_price = effective_gas_price\<rparr>"

definition revert_burst_trips_on_consecutive_reverts :: "profile \<Rightarrow> test" where
  "revert_burst_trips_on_consecutive_reverts pf =
     (let rev_event = no_op_revert 21000 30000000000;
          h0 = append_pairs history_new (replicate 10 (100, 100));
          h1 = history_record_revert h0 rev_event;
          h2 = history_record_revert h1 rev_event;
          h3 = history_record_revert h2 rev_event
      in do { dual \<leftarrow> default_dual_guard pf;
              policy \<leftarrow> with_revert_burst dual \<lparr>rb_limit = 3\<rparr>;
              d0 \<leftarrow> decide pf policy h0; assert_that (d0 = Continue);
              d1 \<leftarrow> decide pf policy h1; assert_that (d1 = Continue);
              d2 \<leftarrow> decide pf policy h2; assert_that (d2 = Continue);
              d3 \<leftarrow> decide pf policy h3; assert_that (d3 = Halt (RevertBurst 3 3)) })"

definition confirmed_pair_resets_revert_burst_counter :: "profile \<Rightarrow> test" where
  "confirmed_pair_resets_revert_burst_counter pf =
     (let rev_event = no_op_revert 21000 30000000000;
          h1 = history_record_revert (history_record_revert history_new rev_event) rev_event;
          h2 = append_pairs h1 [(100, 100)];
          h3 = history_record_revert (history_record_revert h2 rev_event) rev_event
      in do { dual \<leftarrow> default_dual_guard pf;
              policy \<leftarrow> with_revert_burst dual \<lparr>rb_limit = 3\<rparr>;
              d1 \<leftarrow> decide pf policy h1; assert_that (d1 = Continue);
              d2 \<leftarrow> decide pf policy h2; assert_that (d2 = Continue);
              d3 \<leftarrow> decide pf policy h3; assert_that (d3 = Continue) })"

definition revert_gas_budget_trips_when_burned_gas_exceeds_limit :: "profile \<Rightarrow> test" where
  "revert_gas_budget_trips_when_burned_gas_exceeds_limit pf =
     (let rev_event = no_op_revert 50000 1000;
          h1 = history_record_revert history_new rev_event;
          h2 = history_record_revert h1 rev_event;
          h3 = history_record_revert h2 rev_event
      in do { dual \<leftarrow> default_dual_guard pf;
              policy \<leftarrow> with_revert_gas dual \<lparr>rg_budget_limit = 100000000, rg_window = 5\<rparr>;
              d1 \<leftarrow> decide pf policy h1; assert_that (d1 = Continue);
              d2 \<leftarrow> decide pf policy h2; assert_that (d2 = Continue);
              d3 \<leftarrow> decide pf policy h3;
              assert_that (d3 = Halt (RevertGasBudgetExceeded 150000000 100000000 5)) })"

definition volume_weighted_guard_trips_on_whale_collapse_even_if_small_trades_win :: "profile \<Rightarrow> test" where
  "volume_weighted_guard_trips_on_whale_collapse_even_if_small_trades_win pf =
     do { dual \<leftarrow> default_dual_guard pf;
          policy \<leftarrow> with_volume_weighted dual \<lparr>vw_threshold = f64_of_rat (75 / 100), vw_window = 20\<rparr>;
          d \<leftarrow> decide pf policy (append_pairs history_new (replicate 19 (10, 12) @ [(100000, 40000)]));
          (case d of
             Halt (VolumeWeightedDrift weighted_ratio threshold window) \<Rightarrow>
               do { assert_that (f64_lt weighted_ratio (f64_of_rat (41 / 100)));
                    assert_that (threshold = f64_of_rat (75 / 100));
                    assert_that (window = 20) }
           | other \<Rightarrow> panic) }"

definition drawdown_guard_trips_on_absolute_capital_deficit :: "profile \<Rightarrow> test" where
  "drawdown_guard_trips_on_absolute_capital_deficit pf =
     (let h2 = append_pairs history_new [(100000, 80000), (100000, 80000)];
          h3 = append_pairs h2 [(100000, 80000)]
      in do { dual \<leftarrow> default_dual_guard pf;
              policy \<leftarrow> with_drawdown dual \<lparr>dd_max_drawdown_limit = 50000, dd_window = 3\<rparr>;
              d2 \<leftarrow> decide pf policy h2; assert_that (d2 = Continue);
              d3 \<leftarrow> decide pf policy h3; assert_that (d3 = Halt (NetDrawdownExceeded 60000 50000 3)) })"

definition institutional_default_enables_revert_and_volume_weighted_guards :: "profile \<Rightarrow> test" where
  "institutional_default_enables_revert_and_volume_weighted_guards pf =
     do { policy \<leftarrow> institutional_default pf;
          assert_that (revert_burst_config policy \<noteq> None);
          assert_that (volume_weighted_config policy \<noteq> None);
          burst \<leftarrow> revert_burst_config policy;
          assert_that (rb_limit burst = 3);
          volume \<leftarrow> volume_weighted_config policy;
          assert_that (vw_threshold volume = f64_of_rat (75 / 100)) }"

section \<open>Running them\<close>

text \<open>A policy with the two ratio guards alone, and what it decides.\<close>

definition plain_policy :: "FastGuardConfig \<Rightarrow> SlowGuardConfig \<Rightarrow> ReconcilePolicy" where
  "plain_policy fast slow =
     \<lparr>rp_fast = fast, rp_slow = slow, rp_revert_burst = None, rp_revert_gas = None,
      rp_volume_weighted = None, rp_drawdown = None\<rparr>"

lemma default_plain: "default_dual_guard pf = Some (plain_policy fast_guard_default slow_guard_default)"
  by (simp add: default_dual_guard_eq dual_guard_def plain_policy_def)

lemma policy_new_plain:
  "0 < fg_window fast \<Longrightarrow> 0 < sg_window slow \<Longrightarrow> f64_lt (fg_threshold fast) (sg_threshold slow)
   \<Longrightarrow> policy_new pf fast slow = Some (plain_policy fast slow)"
  by (simp add: policy_new_def plain_policy_def)

lemma decide_plain:
  "decide pf (plain_policy fast slow) h =
     Some (case fast_guard (plain_policy fast slow) h of Some reason \<Rightarrow> Halt reason
           | None \<Rightarrow> case slow_guard (plain_policy fast slow) h of Some reason \<Rightarrow> Halt reason
                     | None \<Rightarrow> Continue)"
  by (simp add: decide_def policy_evaluate_def run_guards_def guard_or_def revert_burst_guard_def
      revert_gas_guard_def drawdown_guard_def volume_weighted_guard_def plain_policy_def split: option.splits)

lemma plain_fast:
  "fast_guard (plain_policy fast slow) h =
     (let ratios = recent_ratios h (fg_window fast)
      in if length ratios = fg_window fast \<and> list_all (\<lambda>r. f64_lt r (fg_threshold fast)) ratios
         then Some (FastGuard ratios (fg_threshold fast)) else None)"
  by (simp add: fast_guard_def plain_policy_def Let_def)

lemma slow_unfilled: "length (pairs h) < sg_window (rp_slow P) \<Longrightarrow> slow_guard P h = None"
  using le_less_trans [OF length_filter_le [of positive_prediction "pairs h"]]
  by (fastforce simp: slow_guard_def length_recent_ratios Let_def)

lemma history_from_ratios_eq:
  "history_from_ratios rs = append_pairs history_new (map (\<lambda>r. (100, realized_at r)) rs)"
proof -
  have "foldl (\<lambda>h r. history_append h (PredictedProfit 100) (RealizedProfit (realized_at r))) h rs =
      append_pairs h (map (\<lambda>r. (100, realized_at r)) rs)" for h
    by (induction rs arbitrary: h) (simp_all add: append_pairs_def)
  then show ?thesis by (simp add: history_from_ratios_def)
qed

lemma append_pairs_simps:
  "pairs (append_pairs h prs) = pairs h @ map (\<lambda>(p, r). (PredictedProfit p, RealizedProfit r)) prs"
  "timeline (append_pairs h prs) =
     timeline h @ map (\<lambda>(p, r). ConfirmedPair (PredictedProfit p) (RealizedProfit r)) prs"
  by (induction prs arbitrary: h) (auto simp: append_pairs_def)

lemma literal_percent_order:
  "f64_lt (f64_of_rat (50 / 100)) (f64_of_rat (99 / 100))"
  "f64_lt (f64_of_rat (80 / 100)) (f64_of_rat (99 / 100))"
  by code_simp+

text \<open>Ratios of the fixtures: what they realize, and how they compare.\<close>

lemma realized_at_tenths:
  "realized_at (f64_of_rat (9 / 10)) = 90" "realized_at (f64_of_rat (3 / 10)) = 30"
  "realized_at (f64_of_rat (2 / 10)) = 20" "realized_at (f64_of_rat (1 / 10)) = 10"
  "realized_at (f64_of_rat (6 / 10)) = 60" 
  by code_simp+

lemma realized_at_hundredths:
  "realized_at (f64_of_rat (42 / 100)) = 42" "realized_at (f64_of_rat (238 / 100)) = 238"
  "realized_at (f64_of_rat (75 / 100)) = 75" "realized_at (f64_of_int 1) = 100"
  by code_simp+

lemma pair_ratio_literal:
  assumes "0 < sint p" "sint p \<le> 2 ^ 53" "0 \<le> sint r" "sint r \<le> 2 ^ 53"
  shows "pair_ratio (PredictedProfit p, RealizedProfit r) = f64_of_rat (of_int (sint r) / of_int (sint p))"
  using assms by (simp add: pair_ratio_small f64_of_rat_def divide_less_0_iff)

lemma literals_below:
  "f64_lt (f64_of_rat (3 / 10)) (f64_of_rat (1 / 2))" "f64_lt (f64_of_rat (1 / 5)) (f64_of_rat (1 / 2))"
  "f64_lt (f64_of_rat (1 / 10)) (f64_of_rat (1 / 2))" "f64_lt (f64_of_rat (21 / 50)) (f64_of_rat (1 / 2))"
  "f64_lt (f64_of_rat (3 / 4)) (f64_of_rat (4 / 5))"
  by code_simp+

lemma literals_not_below:
  "\<not> f64_lt (f64_of_rat (9 / 10)) (f64_of_rat (1 / 2))" "\<not> f64_lt (f64_of_rat (3 / 5)) (f64_of_rat (1 / 2))"
  "\<not> f64_lt (f64_of_rat (119 / 50)) (f64_of_rat (1 / 2))"
  by code_simp+

lemmas [test_simps] = history_from_ratios_eq realized_at_tenths [simplified] realized_at_hundredths [simplified]
  default_plain decide_plain plain_fast slow_unfilled fast_guard_default_def slow_guard_default_def
  recent_ratios_def positive_prediction_def pair_ratio_literal literals_below literals_not_below
  usize_max_def

lemma plain_config [simp]:
  "rp_fast (plain_policy fast slow) = fast" "rp_slow (plain_policy fast slow) = slow"
  by (simp_all add: plain_policy_def)

lemma ratio_guard_tests_pass:
  "passes ratio_direction_worked_example_from_whitepaper_section_4_1"
  "passes (fast_guard_does_not_trip_on_a_single_bad_ratio pf)"
  "passes (fast_guard_requires_the_bad_run_to_be_the_most_recent_and_unbroken pf)"
  "passes (fast_guard_trips_on_three_consecutive_bad_ratios_after_healthy_history pf)"
  "passes (continues_on_empty_history pf)"
  "passes (continues_when_history_is_shorter_than_either_window pf)"
  "passes (non_positive_predicted_profit_is_excluded_from_both_guards pf)"
  by (simp_all add: test_simps ratio_direction_worked_example_from_whitepaper_section_4_1_def
   fast_guard_does_not_trip_on_a_single_bad_ratio_def
   fast_guard_requires_the_bad_run_to_be_the_most_recent_and_unbroken_def
   fast_guard_trips_on_three_consecutive_bad_ratios_after_healthy_history_def
   continues_on_empty_history_def continues_when_history_is_shorter_than_either_window_def
   non_positive_predicted_profit_is_excluded_from_both_guards_def)

lemma configured_tests_pass:
  "passes (ratio_direction_flags_underperformance_not_overperformance pf)"
  "passes (fast_guard_is_configurable_not_hardcoded pf)"
  using literal_percent_order
  by (simp_all add: test_simps policy_new_plain ratio_direction_flags_underperformance_not_overperformance_def
      fast_guard_is_configurable_not_hardcoded_def)

lemma rejecting_tests_panic:
  "panics (rejects_a_zero_fast_guard_window pf)" "panics (rejects_a_zero_slow_guard_window pf)"
  by (simp_all add: rejects_a_zero_fast_guard_window_def rejects_a_zero_slow_guard_window_def policy_new_def
      fast_guard_default_def)

text \<open>The ratios of the slow bleed, exactly, and how they compare with sixty-fourths.\<close>

lemma bleed_ratio_cycle: "bleed_ratios = map bleed_ratio ([0..7] @ [0..7] @ [0..3])"
  by (simp add: bleed_ratios_def bleed_ratio_def upto_rec_numeral upto_rec1)

lemma bleed_literals:
  "f64_of_rat (65 / 100) = Fin False (5854679515581645 / 9007199254740992)"
  "f64_of_rat (1 / 100) = Fin False (5764607523034235 / 576460752303423488)"
  by code_simp+

lemma bleed_ratio_values:
  "bleed_ratio 0 = Fin False (5854679515581645 / 9007199254740992)"
  "bleed_ratio 1 = Fin False (5944751508129055 / 9007199254740992)"
  "bleed_ratio 2 = Fin False (6034823500676465 / 9007199254740992)"
  "bleed_ratio 3 = Fin False (6124895493223875 / 9007199254740992)"
  unfolding bleed_ratio_def bleed_literals by code_simp+

lemma bleed_ratio_values':
  "bleed_ratio 4 = Fin False (6214967485771285 / 9007199254740992)"
  "bleed_ratio 5 = Fin False (6305039478318695 / 9007199254740992)"
  "bleed_ratio 6 = Fin False (799388933858263 / 1125899906842624)"
  "bleed_ratio 7 = Fin False (3242591731706757 / 4503599627370496)"
  unfolding bleed_ratio_def bleed_literals by code_simp+

lemma realized_at_bleed:
  "realized_at (bleed_ratio 0) = 65" "realized_at (bleed_ratio 1) = 66"
  "realized_at (bleed_ratio 2) = 67" "realized_at (bleed_ratio 3) = 68"
  "realized_at (bleed_ratio 4) = 69" "realized_at (bleed_ratio 5) = 70"
  "realized_at (bleed_ratio 6) = 71" "realized_at (bleed_ratio 7) = 72"
  unfolding bleed_ratio_values bleed_ratio_values' by code_simp+

text \<open>The bleed is at most these multiples of \<open>1 / 64\<close>, whose mean is below the threshold.\<close>

definition sixty_fourths :: "nat list" where
  "sixty_fourths = (let octave = [42, 43, 43, 44, 45, 45, 46, 47] in octave @ octave @ [42, 43, 43, 44])"

definition bleed_bound :: "f64 list" where
  "bleed_bound = map (\<lambda>k. Fin False (of_nat k * 2 powi (- 6))) sixty_fourths"

lemma mean_bleed_bound: "f64_lt (mean_ratio bleed_bound) (f64_of_rat (7 / 10))"
proof -
  have "mean_ratio bleed_bound = pack False (441 / 640)"
    using mean_ratio_grid [of sixty_fourths "- 6"]
    by (simp add: bleed_bound_def sixty_fourths_def power_int_def power_divide)
  moreover have "f64_lt (pack False (441 / 640)) (f64_of_rat (7 / 10))" by code_simp
  ultimately show ?thesis by simp
qed

lemma bleed_bound_sized: "list_all ratio_sized bleed_bound"
proof -
  have "ratio_sized (Fin False (of_nat k * 2 powi (- 6)))" if "k \<le> 64" for k
  proof -
    have "f64_wf (pack False (of_nat k * 2 powi (- 6)))" by (rule f64_wf_pack) simp
    moreover have "(of_nat k :: rat) * 2 powi (- 6) \<le> 1" using that by (simp add: power_int_def power_divide)
    ultimately show ?thesis
      using that pack_grid [of k "- 6" False] by (auto simp: ratio_sized_def intro: order.trans [of _ 1])
  qed
  moreover have "list_all (\<lambda>k. k \<le> 64) sixty_fourths" by (simp add: sixty_fourths_def)
  ultimately show ?thesis unfolding bleed_bound_def list_all_iff by auto
qed

lemma mean_below_bleed_bound:
  assumes "list_all2 f64_le xs bleed_bound" "list_all ratio_sized xs"
  shows "f64_lt (mean_ratio xs) (f64_of_rat (7 / 10))"
proof -
  have "length xs = 20"
    using list_all2_lengthD [OF assms(1)] by (simp add: bleed_bound_def sixty_fourths_def)
  then have "f64_le (mean_ratio xs) (mean_ratio bleed_bound)"
    using assms bleed_bound_sized by (intro mean_ratio_mono) simp_all
  then show ?thesis using mean_bleed_bound by (rule f64_le_lt_trans)
qed

lemma bleed_ratios_facts:
  "list_all2 f64_le bleed_ratios bleed_bound" "list_all ratio_sized bleed_ratios"
  "list_all (\<lambda>r. f64_le (f64_of_rat (1 / 2)) r) bleed_ratios" "length bleed_ratios = 20"
  "map realized_at bleed_ratios =
     [65, 66, 67, 68, 69, 70, 71, 72, 65, 66, 67, 68, 69, 70, 71, 72, 65, 66, 67, 68]"
proof -
  have up: "[0..7] = [0, 1, 2, 3, 4, 5, 6, 7 :: int]" "[0..3] = [0, 1, 2, 3 :: int]"
    by (simp_all add: upto_rec_numeral upto_rec1)
  have wf: "f64_wf (bleed_ratio i)" for i by (simp add: bleed_ratio_def f64_wf_ops)
  note vals = bleed_ratio_values bleed_ratio_values'
  have "list_all (\<lambda>i. ratio_sized (bleed_ratio i)) [0, 1, 2, 3, 4, 5, 6, 7]"
    using wf unfolding ratio_sized_def by (simp add: vals)
  then show "list_all ratio_sized bleed_ratios" by (simp add: bleed_ratio_cycle up)
  show "list_all2 f64_le bleed_ratios bleed_bound"
    by (simp add: bleed_ratio_cycle up vals bleed_bound_def sixty_fourths_def power_int_def power_divide)
  show "list_all (\<lambda>r. f64_le (f64_of_rat (1 / 2)) r) bleed_ratios"
    by (simp add: bleed_ratio_cycle up vals literal_half)
  show "length bleed_ratios = 20" by (simp add: bleed_ratio_cycle up)
  show "map realized_at bleed_ratios =
     [65, 66, 67, 68, 69, 70, 71, 72, 65, 66, 67, 68, 69, 70, 71, 72, 65, 66, 67, 68]"
    by (simp add: bleed_ratio_cycle up realized_at_bleed)
qed

lemma percents_below_sixty_fourths:
  "f64_le (f64_of_rat (13 / 20)) (Fin False (21 / 32))" "f64_le (f64_of_rat (33 / 50)) (Fin False (43 / 64))"
  "f64_le (f64_of_rat (67 / 100)) (Fin False (43 / 64))" "f64_le (f64_of_rat (17 / 25)) (Fin False (11 / 16))"
  "f64_le (f64_of_rat (69 / 100)) (Fin False (45 / 64))" "f64_le (f64_of_rat (7 / 10)) (Fin False (45 / 64))"
  "f64_le (f64_of_rat (71 / 100)) (Fin False (23 / 32))" "f64_le (f64_of_rat (18 / 25)) (Fin False (47 / 64))"
  by code_simp+

lemma percents_not_below_half: "1 / 2 \<le> q \<Longrightarrow> q \<le> 1 \<Longrightarrow> \<not> f64_lt (f64_of_rat q) (f64_of_rat (1 / 2))"
  using f64_val_literal [of q] rnd_ge_exact [of "1 / 2" q]
  by (simp add: literal_half small_fractions f64_lt_finite)

lemma literal_sized:
  assumes "\<bar>q\<bar> \<le> 1" shows "ratio_sized (f64_of_rat q)"
proof -
  have "rnd (- 1) \<le> rnd q" "rnd q \<le> rnd 1" using assms by (intro rnd_mono; linarith)+
  moreover have "rnd 1 = 1" "rnd (- 1) = - 1" using round_mag_of_int [of 1] by (simp_all add: rnd_def)
  ultimately have "\<bar>rnd q\<bar> \<le> 1" by (simp add: abs_le_iff)
  then show ?thesis
    using f64_val_literal [OF assms] by (auto simp: ratio_sized_def intro: order.trans [of _ 1])
qed

definition bleed_percents :: "f64 list" where
  "bleed_percents =
     map (\<lambda>r. f64_of_rat (r / 100))
       [65, 66, 67, 68, 69, 70, 71, 72, 65, 66, 67, 68, 69, 70, 71, 72, 65, 66, 67, 68]"

lemma bleed_history:
  "recent_ratios (history_from_ratios bleed_ratios) 20 = bleed_percents"
  "recent_ratios (history_from_ratios bleed_ratios) 3 = drop 17 bleed_percents"
proof -
  have "map (\<lambda>r. (100 :: i128, realized_at r)) bleed_ratios = map (Pair 100) (map realized_at bleed_ratios)"
    by (simp add: comp_def)
  then have h: "history_from_ratios bleed_ratios = append_pairs history_new (map (Pair 100)
     [65, 66, 67, 68, 69, 70, 71, 72, 65, 66, 67, 68, 69, 70, 71, 72, 65, 66, 67, 68])"
    by (simp only: history_from_ratios_eq bleed_ratios_facts(5))
  show "recent_ratios (history_from_ratios bleed_ratios) 20 = bleed_percents"
    "recent_ratios (history_from_ratios bleed_ratios) 3 = drop 17 bleed_percents"
    by (simp_all add: h append_pairs_simps recent_ratios_def positive_prediction_def pair_ratio_literal
        bleed_percents_def)
qed

lemma bleed_percents_facts:
  "list_all2 f64_le bleed_percents bleed_bound" "list_all ratio_sized bleed_percents"
  "length bleed_percents = 20"
  by (simp_all add: bleed_percents_def bleed_bound_def sixty_fourths_def power_int_def power_divide
      percents_below_sixty_fourths literal_sized)

lemma bleed_decision:
  "decide pf (plain_policy fast_guard_default slow_guard_default) (history_from_ratios bleed_ratios) =
     Some (Halt (SlowGuard (mean_ratio bleed_percents) 20 (f64_of_rat (7 / 10))))"
proof -
  have "fast_guard (plain_policy fast_guard_default slow_guard_default)
      (history_from_ratios bleed_ratios) = None"
    by (simp add: plain_fast fast_guard_default_def bleed_history bleed_percents_def Let_def
        percents_not_below_half)
  moreover have "slow_guard (plain_policy fast_guard_default slow_guard_default)
      (history_from_ratios bleed_ratios) = Some (SlowGuard (mean_ratio bleed_percents) 20 (f64_of_rat (7 / 10)))"
    using mean_below_bleed_bound [OF bleed_percents_facts(1,2)]
    by (simp add: bleed_percents_facts(3) slow_guard_def slow_guard_default_def bleed_history Let_def)
  ultimately show ?thesis by (simp add: decide_plain)
qed

lemma slow_guard_tests_pass:
  "passes (slow_guard_trips_on_a_slow_bleed_the_fast_guard_misses pf)"
  "passes (slow_guard_can_trip_when_fast_guard_would_not pf)"
proof -
  have "f64_lt (f64_div (f64_sum bleed_ratios) (f64_of_int (int (length bleed_ratios)))) (f64_of_rat (7 / 10))"
    using mean_below_bleed_bound [OF bleed_ratios_facts(1,2)] by (simp add: mean_ratio_def)
  then show "passes (slow_guard_trips_on_a_slow_bleed_the_fast_guard_misses pf)"
    using bleed_ratios_facts(3)
    by (simp add: slow_guard_trips_on_a_slow_bleed_the_fast_guard_misses_def default_plain bleed_decision)
  show "passes (slow_guard_can_trip_when_fast_guard_would_not pf)"
    by (simp add: slow_guard_can_trip_when_fast_guard_would_not_def default_plain bleed_decision)
qed

lemma partial_window_tests_pass:
  "passes (slow_guard_does_not_trip_with_fewer_than_the_full_window pf)"
  "passes (fast_guard_can_trip_when_slow_guard_would_not pf)"
  by (simp_all add: slow_guard_does_not_trip_with_fewer_than_the_full_window_def test_simps
      fast_guard_can_trip_when_slow_guard_would_not_def append_pairs_simps
      numeral_eq_Suc)

text \<open>
  The other guards compare integers, on top of the two ratio guards; a policy that has them is
  unfolded to its record.
\<close>

declare plain_fast [test_simps del] decide_plain [test_simps del]

lemmas extended_simps = decide_def policy_evaluate_def run_guards_def guard_or_def revert_burst_guard_def
  revert_gas_guard_def drawdown_guard_def volume_weighted_guard_def fast_guard_def slow_unfilled
  plain_policy_def append_pairs_simps percents_not_below_half

lemma burst_tests_pass:
  "passes (revert_burst_trips_on_consecutive_reverts pf)"
  "passes (confirmed_pair_resets_revert_burst_counter pf)"
  by (simp_all add: revert_burst_trips_on_consecutive_reverts_def confirmed_pair_resets_revert_burst_counter_def
      with_revert_burst_def extended_simps test_simps eval_nat_numeral)

lemma gas_budget_test_passes: "passes (revert_gas_budget_trips_when_burned_gas_exceeds_limit pf)"
  by (cases pf; simp add: revert_gas_budget_trips_when_burned_gas_exceeds_limit_def with_revert_gas_def
      no_op_revert_def extended_simps test_simps)

lemma drawdown_test_passes: "passes (drawdown_guard_trips_on_absolute_capital_deficit pf)"
  by (cases pf; simp add: drawdown_guard_trips_on_absolute_capital_deficit_def with_drawdown_def
      slippage_def s_sub_def s_sum_def s_add_def extended_simps test_simps)

lemma whale_ratios:
  "f64_lt (f64_div (f64_of_int 40228) (f64_of_int 100190)) (f64_of_rat (3 / 4))"
  "f64_lt (f64_div (f64_of_int 40228) (f64_of_int 100190)) (f64_of_rat (41 / 100))"
  "\<not> f64_lt (f64_of_rat (6 / 5)) (f64_of_rat (1 / 2))"
  by code_simp+

lemma whale_test_passes:
  "passes (volume_weighted_guard_trips_on_whale_collapse_even_if_small_trades_win pf)"
  by (cases pf; simp add: volume_weighted_guard_trips_on_whale_collapse_even_if_small_trades_win_def
      with_volume_weighted_def s_sum_def s_add_def whale_ratios extended_simps test_simps
      eval_nat_numeral)

lemma institutional_test_passes:
  "passes (institutional_default_enables_revert_and_volume_weighted_guards pf)"
  by (simp add: institutional_default_enables_revert_and_volume_weighted_guards_def institutional_default_def
      default_plain plain_policy_def with_revert_burst_def with_volume_weighted_def revert_burst_default_def
      volume_weighted_default_def revert_burst_config_def volume_weighted_config_def)

end
