(* ===== verification/Poller_Tests.thy ===== *)
theory Poller_Tests
  imports Poller Backend Test_Runs
begin

text \<open>
  The unit tests of \<^verbatim>\<open>driftbrake-receipt-poller\<close>, and the timeout test of
  \<^verbatim>\<open>driftbrake-revm-backend\<close> (the other two run a precompile of REVM). The world of a poller test is
  its script: the number of polls so far and the clock, which moves only while the poller sleeps.
\<close>

section \<open>The fixtures\<close>

record script =
  polls_so_far :: nat
  clock_ns :: nat

record ScriptedSource =
  confirms_after_polls :: nat
  scripted_result :: "(TxReceipt \<times> Log list) option"

datatype never = Never

definition scripted_get_receipt :: "ScriptedSource \<Rightarrow> (never, script) lookup" where
  "scripted_get_receipt source tx_hash w =
     (let n = polls_so_far w; w' = w\<lparr>polls_so_far := n + 1\<rparr>
      in if confirms_after_polls source \<le> n then (Inr (scripted_result source), w') else (Inr None, w'))"

definition scripted_sleep :: "duration \<Rightarrow> script \<Rightarrow> script" where
  "scripted_sleep d w = w\<lparr>clock_ns := clock_ns w + d\<rparr>"

definition confirmed_receipt :: "u64 \<Rightarrow> TxReceipt" where
  "confirmed_receipt block_number =
     \<lparr>rc_tx_hash = bytes32 1, rc_block_number = block_number, rc_status = TxConfirmed,
      rc_gas_used = 100000, rc_effective_gas_price = 10000000000\<rparr>"

definition reverted_receipt :: "u64 \<Rightarrow> TxReceipt" where
  "reverted_receipt block_number = (confirmed_receipt block_number)\<lparr>rc_status := TxReverted\<rparr>"

text \<open>The decoder asserts that its receipt is confirmed; indexing past the data panics.\<close>

definition fixed_decode_realized :: "unit realized_decoder" where
  "fixed_decode_realized receipt logs d =
     do { assert_that (rc_status receipt = TxConfirmed);
          (case find (\<lambda>entry. log_data entry \<noteq> [] \<and> hd (log_data entry) = 1) logs of
             Some entry \<Rightarrow>
               do { assert_that (1 < length (log_data entry));
                    Some (Inr (RealizedProfit (ucast (log_data entry ! 1))), d) }
           | None \<Rightarrow> Some (Inl MissingProfitEvent, d)) }"

definition profit_log :: "u8 \<Rightarrow> Log" where
  "profit_log amount = \<lparr>log_address = replicate 20 0xAA, log_topics = [], log_data = [1, amount]\<rparr>"

definition test_poller_config :: "PollerConfig option" where
  "test_poller_config = poller_config_new 100 (f64_of_rat (1 / 10)) 5"

text \<open>One poll of a fresh script into an empty history.\<close>

definition scripted_poll ::
  "profile \<Rightarrow> ScriptedSource \<Rightarrow> PollerConfig \<Rightarrow> hash32 \<Rightarrow> PredictedProfit
   \<Rightarrow> (PollOutcome \<times> ReconcileHistory \<times> script) option" where
  "scripted_poll pf source config tx_hash predicted =
     do { (res, s) \<leftarrow> poll_until_settled pf
            (receipt_poller_new (scripted_get_receipt source) fixed_decode_realized config)
            clock_ns scripted_sleep tx_hash predicted
            \<lparr>ps_history = history_new, ps_decoder = (), ps_world = \<lparr>polls_so_far = 0, clock_ns = 0\<rparr>\<rparr>;
          outcome \<leftarrow> unwrap res;
          Some (outcome, ps_history s, ps_world s) }"

section \<open>The tests\<close>

definition confirmed_with_profit_event_is_realized_and_appended_to_history :: "profile \<Rightarrow> test" where
  "confirmed_with_profit_event_is_realized_and_appended_to_history pf =
     do { config \<leftarrow> test_poller_config;
          (outcome, history, _) \<leftarrow> scripted_poll pf
            \<lparr>confirms_after_polls = 2, scripted_result = Some (confirmed_receipt 100, [profit_log 42])\<rparr>
            config (bytes32 1) (PredictedProfit 100);
          assert_that (outcome = Realized (RealizedProfit 42));
          assert_that (length (pairs history) = 1);
          assert_that (pairs history ! 0 = (PredictedProfit 100, RealizedProfit 42));
          assert_that (reverts history = []) }"

definition reverted_receipt_is_recorded_as_a_revert_event_not_a_zero_profit_pair :: "profile \<Rightarrow> test" where
  "reverted_receipt_is_recorded_as_a_revert_event_not_a_zero_profit_pair pf =
     do { config \<leftarrow> test_poller_config;
          (outcome, history, _) \<leftarrow> scripted_poll pf
            \<lparr>confirms_after_polls = 0, scripted_result = Some (reverted_receipt 101, [])\<rparr>
            config (bytes32 2) (PredictedProfit 100);
          (case outcome of
             Reverted event \<Rightarrow>
               do { assert_that (rv_block_number event = 101);
                    assert_that (rv_tx_hash event = bytes32 2) }
           | other \<Rightarrow> panic);
          assert_that (pairs history = []);
          assert_that (length (reverts history) = 1) }"

definition confirmed_but_no_profit_event_is_decode_failed_not_booked_as_zero :: "profile \<Rightarrow> test" where
  "confirmed_but_no_profit_event_is_decode_failed_not_booked_as_zero pf =
     do { config \<leftarrow> test_poller_config;
          (outcome, history, _) \<leftarrow> scripted_poll pf
            \<lparr>confirms_after_polls = 0, scripted_result = Some (confirmed_receipt 102, [])\<rparr>
            config (bytes32 3) (PredictedProfit 100);
          assert_that (outcome = DecodeFailed MissingProfitEvent);
          assert_that (pairs history = []);
          assert_that (reverts history = []) }"

definition gives_up_and_returns_timed_out_if_never_confirmed :: "profile \<Rightarrow> test" where
  "gives_up_and_returns_timed_out_if_never_confirmed pf =
     do { config \<leftarrow> poller_config_new 10 (f64_of_int 1) 2;
          (outcome, history, _) \<leftarrow> scripted_poll pf
            \<lparr>confirms_after_polls = usize_max, scripted_result = None\<rparr>
            config (bytes32 4) (PredictedProfit 100);
          assert_that (outcome = TimedOut);
          assert_that (pairs history = []);
          assert_that (reverts history = []) }"

definition polls_repeatedly_at_the_configured_interval_until_confirmed :: "profile \<Rightarrow> test" where
  "polls_repeatedly_at_the_configured_interval_until_confirmed pf =
     do { config \<leftarrow> test_poller_config;
          (outcome, history, w) \<leftarrow> scripted_poll pf
            \<lparr>confirms_after_polls = 3, scripted_result = Some (confirmed_receipt 200, [profit_log 7])\<rparr>
            config (bytes32 5) (PredictedProfit 50);
          assert_that (outcome = Realized (RealizedProfit 7));
          assert_that (3 \<le> polls_so_far w) }"

definition poller_config_computes_interval_and_timeout_from_block_time :: "profile \<Rightarrow> test" where
  "poller_config_computes_interval_and_timeout_from_block_time pf =
     do { config \<leftarrow> poller_config_new 12000 (f64_of_rat (5 / 10)) 3;
          assert_that (poll_interval config = duration_from_millis 6000);
          timeout \<leftarrow> poller_timeout pf config;
          assert_that (timeout = duration_from_millis 36000) }"

definition poller_config_rejects_out_of_range_fraction :: test where
  "poller_config_rejects_out_of_range_fraction =
     do { poller_config_new 12000 (f64_of_rat (15 / 10)) 3; Some () }"

section \<open>Running them\<close>

lemma test_configs:
  "test_poller_config = Some \<lparr>pc_block_time_ms = 100, pc_poll_interval_fraction = f64_of_rat (1 / 10),
     pc_confirmation_timeout_blocks = 5\<rparr>"
  "poller_config_new 10 (f64_of_int 1) 2 = Some \<lparr>pc_block_time_ms = 10, pc_poll_interval_fraction = f64_of_int 1,
     pc_confirmation_timeout_blocks = 2\<rparr>"
  by code_simp+

lemma interval_floats:
  "f64_as_int 0 (2 ^ 64 - 1) (f64_mul (f64_of_int 100) (f64_of_rat (1 / 10))) = 10"
  "f64_as_int 0 (2 ^ 64 - 1) (f64_mul (f64_of_int 10) (f64_of_int 1)) = 10"
  by code_simp+

lemma test_intervals:
  "poll_interval \<lparr>pc_block_time_ms = 100, pc_poll_interval_fraction = f64_of_rat (1 / 10),
     pc_confirmation_timeout_blocks = n\<rparr> = 10000000"
  "poll_interval \<lparr>pc_block_time_ms = 10, pc_poll_interval_fraction = f64_of_int 1,
     pc_confirmation_timeout_blocks = n\<rparr> = 10000000"
  using interval_floats by (simp_all add: poll_interval_def f64_as_u64_def duration_from_millis_def)

lemma poller_config_tests:
  "passes (poller_config_computes_interval_and_timeout_from_block_time pf)"
  "panics poller_config_rejects_out_of_range_fraction"
proof -
  obtain c where c: "poller_config_new 12000 (f64_of_rat (1 / 2)) 3 = Some c"
    using poller_config_half [of 12000 3] by auto
  then have "c = \<lparr>pc_block_time_ms = 12000, pc_poll_interval_fraction = f64_of_rat (1 / 2),
      pc_confirmation_timeout_blocks = 3\<rparr>"
    by (auto simp: poller_config_new_def bind_eq_Some_conv)
  then show "passes (poller_config_computes_interval_and_timeout_from_block_time pf)"
    using half_millis [of 12000]
    by (cases pf; simp add: poller_config_computes_interval_and_timeout_from_block_time_def c poll_interval_def
        poller_timeout_def u_mul_def duration_from_millis_def)
  have "\<not> f64_le (f64_of_rat (3 / 2)) (f64_of_int 1)" by code_simp
  then show "panics poller_config_rejects_out_of_range_fraction"
    by (simp add: poller_config_rejects_out_of_range_fraction_def poller_config_new_def)
qed

lemmas [test_simps] = test_configs test_intervals scripted_poll_def receipt_poller_new_def poll_until_settled_def
  poller_timeout_def u_mul_def duration_from_millis_def poll_loop.simps scripted_get_receipt_def scripted_sleep_def
  settle_def fixed_decode_realized_def profit_log_def confirmed_receipt_def reverted_receipt_def
  revert_event_of_def usize_max_def

lemma poller_tests_pass:
  "passes (confirmed_with_profit_event_is_realized_and_appended_to_history pf)"
  "passes (reverted_receipt_is_recorded_as_a_revert_event_not_a_zero_profit_pair pf)"
  "passes (confirmed_but_no_profit_event_is_decode_failed_not_booked_as_zero pf)"
  "passes (gives_up_and_returns_timed_out_if_never_confirmed pf)"
  "passes (polls_repeatedly_at_the_configured_interval_until_confirmed pf)"
  by (cases pf; simp add: test_simps confirmed_with_profit_event_is_realized_and_appended_to_history_def
    reverted_receipt_is_recorded_as_a_revert_event_not_a_zero_profit_pair_def
    confirmed_but_no_profit_event_is_decode_failed_not_booked_as_zero_def
    gives_up_and_returns_timed_out_if_never_confirmed_def
    polls_repeatedly_at_the_configured_interval_until_confirmed_def)+

section \<open>The timeout of the backend\<close>

definition test_block :: BlockContext where
  "test_block =
     \<lparr>bc_number = 19000000, bc_timestamp = 1700000000, bc_gas_limit = 30000000, bc_basefee = 10000000000,
      bc_coinbase = 0\<rparr>"

definition identity_precompile_address :: address20 where
  "identity_precompile_address = from_be_bytes ((replicate 20 0)[19 := 4])"

text \<open>
  The task takes at least the five seconds its factory sleeps; what the factory then returns and
  what the EVM does with it are arguments.
\<close>

definition simulate_times_out_when_backend_never_completes ::
  "('f + 'db) option \<Rightarrow> (BlockEnv \<Rightarrow> TxEnv \<Rightarrow> 'db \<Rightarrow> ('x + ExecutionResult) option) \<Rightarrow> duration \<Rightarrow> test" where
  "simulate_times_out_when_backend_never_completes fresh transact further =
     do { backend \<leftarrow> revm_backend_new test_block 100 (f64_of_rat (5 / 10)) 1;
          let tx = \<lparr>ct_caller = from_be_bytes (replicate 20 0xAA), ct_to = identity_precompile_address,
                    ct_value = 0, ct_data = [], ct_gas_limit = 100000\<rparr>;
              res = simulate True fresh transact (duration_from_millis 5000 + further) backend tx
          in assert_that (case res of Inl (SimTimeout _) \<Rightarrow> True | _ \<Rightarrow> False) }"

lemma backend_timeout_test_passes: "passes (simulate_times_out_when_backend_never_completes fresh transact further)"
proof -
  have "f64_lt (f64_of_int 0) (f64_of_rat (1 / 2))" "f64_le (f64_of_rat (1 / 2)) (f64_of_int 1)"
    by code_simp+
  then show ?thesis
    using half_millis [of 100]
    by (simp add: simulate_times_out_when_backend_never_completes_def revm_backend_new_def simulate_def
        simulation_timeout_def duration_from_millis_def Let_def)
qed

end
