(* ===== verification/Journal_Tests.thy ===== *)
theory Journal_Tests
  imports Journal_Spec Test_Runs
begin

text \<open>
  The unit tests of \<^verbatim>\<open>driftbrake-journal\<close>. The temporary path, the file system it is in and the
  readings of the clock are arguments; the tests pass on every disk that works, for every path of a
  file whose name and lock are not taken yet.
\<close>

section \<open>The tests\<close>

definition journal_test_event :: RevertEvent where
  "journal_test_event =
     \<lparr>rv_tx_hash = bytes32 7, rv_block_number = 55, rv_reason = Some (str ''revert''), rv_gas_used = 21000,
      rv_effective_gas_price = 1000\<rparr>"

text \<open>The operations of the first session.\<close>

definition session_ops :: "(nat \<Rightarrow> u64) \<Rightarrow> journal_op list" where
  "session_ops clock =
     map (\<lambda>i. OpAppend (clock i) (PredictedProfit 100) (RealizedProfit (word_of_nat (i * 5)))) [1..<21]
     @ [OpRevert (clock 21) journal_test_event]"

definition clean_shutdown_recovers_all_entries :: "path \<Rightarrow> (nat \<Rightarrow> u64) \<Rightarrow> world \<Rightarrow> test" where
  "clean_shutdown_recovers_all_entries path clock w =
     do { let (opening, w) = open_or_create (clock 0) path 1000 w;
          j \<leftarrow> unwrap opening;
          let (written, w) = run_ops (session_ops clock) j w;
          j \<leftarrow> unwrap written;
          let (reopening, w) = open_or_create (clock 22) path 1000 (close_journal j w);
          j2 \<leftarrow> unwrap reopening;
          assert_that (length (pairs (jh_inner j2)) = 20);
          assert_that (length (reverts (jh_inner j2)) = 1);
          assert_that (length (timeline (jh_inner j2)) = 21);
          assert_that (consecutive_reverts (jh_inner j2) = 1) }"

text \<open>Another writer appends to the file of a path, which must exist.\<close>

definition append_raw :: "path \<Rightarrow> bytes \<Rightarrow> world \<Rightarrow> world option" where
  "append_raw path bs w =
     (case w_dir w path of
        Some i \<Rightarrow> Some (w\<lparr>w_data := (w_data w)(i := w_data w i @ bs)\<rparr>)
      | None \<Rightarrow> panic)"

definition recovers_cleanly_from_torn_trailing_bytes :: "path \<Rightarrow> (nat \<Rightarrow> u64) \<Rightarrow> world \<Rightarrow> test" where
  "recovers_cleanly_from_torn_trailing_bytes path clock w =
     do { let (opening, w) = open_or_create (clock 0) path 1000 w;
          j \<leftarrow> unwrap opening;
          let (written, w) = run_ops
            [OpAppend (clock 1) (PredictedProfit 100) (RealizedProfit 90),
             OpAppend (clock 2) (PredictedProfit 100) (RealizedProfit 80)] j w;
          j \<leftarrow> unwrap written;
          w \<leftarrow> append_raw path [0xDE, 0xAD, 0xBE, 0xEF, 0x01, 0x02, 0x03] (close_journal j w);
          let (reopening, w) = open_or_create (clock 3) path 1000 w;
          j \<leftarrow> unwrap reopening;
          assert_that (length (pairs (jh_inner j)) = 2);
          assert_that (recent_ratios (jh_inner j) 2 = map f64_of_rat [9 / 10, 8 / 10]) }"

definition prevents_concurrent_process_locks :: "path \<Rightarrow> (nat \<Rightarrow> u64) \<Rightarrow> world \<Rightarrow> test" where
  "prevents_concurrent_process_locks path clock w =
     do { let (opening, w) = open_or_create (clock 0) path 1000 w;
          j1 \<leftarrow> unwrap opening;
          let (res, w) = open_or_create (clock 1) path 1000 w;
          assert_that (case res of Inl (AlreadyLocked _) \<Rightarrow> True | _ \<Rightarrow> False);
          let (reopening, w) = open_or_create (clock 2) path 1000 (close_journal j1 w);
          j2 \<leftarrow> unwrap reopening;
          Some () }"

section \<open>Running them\<close>

lemma spec_appends:
  "fold (spec_op k) (map (\<lambda>i. OpAppend (c i) (p i) (r i)) is) s =
     (fst s @ map (\<lambda>i. ConfirmedPair (p i) (r i)) is, snd s @ map (\<lambda>i. ConfirmedPair (p i) (r i)) is)"
  by (induction "is" arbitrary: s) simp_all

lemma confirmed_of_pairs [simp]:
  "confirmed_pairs (map (\<lambda>i. ConfirmedPair (p i) (r i)) is) = map (\<lambda>i. (p i, r i)) is"
  "revert_events (map (\<lambda>i. ConfirmedPair (p i) (r i)) is) = []"
  by (induction "is") simp_all

lemma journal_rel_inner: "journal_rel (m, d) j w \<Longrightarrow> jh_inner j = history_of m"
  by (simp add: journal_rel_def)

lemma run_op_path: "run_op op j w = (Inr j', w') \<Longrightarrow> jh_path j' = jh_path j"
  by (cases op) (auto simp: journal_append_def journal_record_revert_def compact_def open_or_create_def Let_def
      split: sum.splits prod.splits if_splits)

lemma run_ops_path: "run_ops ops j w = (Inr j', w') \<Longrightarrow> jh_path j' = jh_path j"
  by (induction ops arbitrary: j w) (auto split: sum.splits prod.splits dest: run_op_path)

lemma run_session:
  assumes "journal_rel ([], []) j w"
  obtains j' w' m where "run_ops ops j w = (Inr j', w')"
    "journal_rel (m, snd (fold (spec_op (jh_max_retained_entries j)) ops ([], []))) j' w'" "jh_path j' = jh_path j"
  using run_ops_refine [OF assms, of ops] run_ops_path by (metis prod.collapse)

definition session_pairs :: "HistoryEntry list" where
  "session_pairs = map (\<lambda>i. ConfirmedPair (PredictedProfit 100) (RealizedProfit (word_of_nat (i * 5)))) [1..<21]"

lemma session_spec:
  "snd (fold (spec_op k) (session_ops clock) ([], [])) = session_pairs @ [norm_entry (RevertedTx journal_test_event)]"
  by (simp add: session_ops_def spec_appends session_pairs_def del: upt_rec_numeral)

lemma session_pairs_facts: "length session_pairs = 20" "length (confirmed_pairs session_pairs) = 20"
  "revert_events session_pairs = []" "takeWhile is_revert (rev session_pairs) = []"
  by (simp_all add: session_pairs_def takeWhile_eq_Nil_iff hd_rev last_map del: upt_rec_numeral)

text \<open>A path whose file and lock do not exist, on a disk that works.\<close>

definition fresh_path :: "path \<Rightarrow> world \<Rightarrow> bool" where
  "fresh_path path w \<longleftrightarrow>
     world_ok w \<and> proper_path path \<and> w_dir w path = None \<and> w_dir w (with_extension path lock_ext) = None"

lemma open_fresh:
  assumes "fresh_path path w"
  obtains j w1 where "open_or_create now path k w = (Inr j, w1)" "journal_rel ([], []) j w1" "jh_path j = path"
  using assms open_new unfolding fresh_path_def by blast

lemma clean_shutdown_test_passes:
  assumes "fresh_path path w"
  shows "passes (clean_shutdown_recovers_all_entries path clock w)"
proof -
  obtain j w1 where j: "open_or_create (clock 0) path 1000 w = (Inr j, w1)" "journal_rel ([], []) j w1" "jh_path j = path"
    using open_fresh [OF assms] by blast
  obtain j' w2 m where r: "run_ops (session_ops clock) j w1 = (Inr j', w2)"
    "journal_rel (m, session_pairs @ [norm_entry (RevertedTx journal_test_event)]) j' w2" "jh_path j' = path"
    using run_session [OF j(2), of "session_ops clock"] j(3) unfolding session_spec by metis
  obtain j2 w3 where j2: "open_or_create (clock 22) path 1000 (close_journal j' w2) = (Inr j2, w3)"
    "journal_rel (session_pairs @ [norm_entry (RevertedTx journal_test_event)],
                  session_pairs @ [norm_entry (RevertedTx journal_test_event)]) j2 w3"
    using rel_reopen [OF r(2)] r(3) by blast
  show ?thesis
    using j(1) r(1) j2(1) journal_rel_inner [OF j2(2)]
    by (simp add: clean_shutdown_recovers_all_entries_def consecutive_reverts_eq session_pairs_facts)
qed

lemma torn_bytes_test_passes:
  assumes "fresh_path path w"
  shows "passes (recovers_cleanly_from_torn_trailing_bytes path clock w)"
proof -
  let ?ops = "[OpAppend (clock 1) (PredictedProfit 100) (RealizedProfit 90),
             OpAppend (clock 2) (PredictedProfit 100) (RealizedProfit 80)]"
  let ?d = "[ConfirmedPair (PredictedProfit 100) (RealizedProfit 90), ConfirmedPair (PredictedProfit 100) (RealizedProfit 80)]"
  let ?t = "[0xDE, 0xAD, 0xBE, 0xEF, 0x01, 0x02, 0x03] :: bytes"
  obtain j w1 where j: "open_or_create (clock 0) path 1000 w = (Inr j, w1)" "journal_rel ([], []) j w1" "jh_path j = path"
    using open_fresh [OF assms] by blast
  obtain j' w2 m where r: "run_ops ?ops j w1 = (Inr j', w2)" "journal_rel (m, ?d) j' w2" "jh_path j' = path"
    using run_session [OF j(2), of ?ops] j(3) by auto
  have proper: "proper_path path" using assms by (simp add: fresh_path_def)
  let ?i = "of_inode (w_files w2 (jh_file j'))"
  let ?w3 = "close_journal j' w2"
  let ?w4 = "?w3\<lparr>w_data := (w_data ?w3)(?i := w_data ?w3 ?i @ ?t)\<rparr>"
  have closed: "?w3 = w2\<lparr>w_dir := (w_dir w2)(with_extension path lock_ext := None)\<rparr>" "world_ok ?w3"
    "w_dir ?w3 path = Some ?i" "disk_image (w_data ?w3 ?i) ?d"
    using close_journal_rel [OF r(2)] r(2,3) world_ok_unlock proper_path_neq(1) [OF proper]
    by (auto simp: journal_rel_def file_data_def)
  have raw: "append_raw path ?t ?w3 = Some ?w4"
    using closed(3) by (simp add: append_raw_def)
  have "\<exists>j2 w5. open_or_create (clock 3) path 1000 ?w4 = (Inr j2, w5) \<and> journal_rel (?d, ?d) j2 w5 \<and>
     jh_path j2 = path \<and> jh_max_retained_entries j2 = 1000 \<and> file_data (jh_file j2) w5 = w_data ?w3 ?i"
  proof (rule open_recovers)
    show "world_ok ?w4" using closed(2) by (rule world_ok_data)
    show "w_dir ?w4 (with_extension path lock_ext) = None" by (simp add: closed(1))
    show "w_dir ?w4 path = Some ?i" using closed(3) by simp
    show "next_record ?t = None" by (simp add: next_record_def)
  qed (use proper closed(4) in simp_all)
  then obtain j2 w5 where j2: "open_or_create (clock 3) path 1000 ?w4 = (Inr j2, w5)" "journal_rel (?d, ?d) j2 w5"
    by blast
  have "recent_ratios (history_of ?d) 2 = map f64_of_rat [9 / 10, 8 / 10]" by code_simp
  then show ?thesis
    using j(1) r(1) j2(1) journal_rel_inner [OF j2(2)] raw
    by (simp add: recovers_cleanly_from_torn_trailing_bytes_def del: run_ops.simps)
qed

lemma concurrent_locks_test_passes:
  assumes "fresh_path path w"
  shows "passes (prevents_concurrent_process_locks path clock w)"
proof -
  obtain j w1 where j: "open_or_create (clock 0) path 1000 w = (Inr j, w1)" "journal_rel ([], []) j w1" "jh_path j = path"
    using open_fresh [OF assms] by blast
  have "healthy_world w1" "w_dir w1 (with_extension path lock_ext) \<noteq> None"
    using j(2,3) by (auto simp: journal_rel_def world_ok_def)
  then have "open_or_create (clock 1) path 1000 w1 = (Inl (AlreadyLocked (with_extension path lock_ext)), w1)"
    using open_locked by blast
  moreover obtain j2 w2 where "open_or_create (clock 2) path 1000 (close_journal j w1) = (Inr j2, w2)"
    using rel_reopen [OF j(2)] j(3) by blast
  ultimately show ?thesis using j(1) by (simp add: prevents_concurrent_process_locks_def)
qed

end
