(* ===== verification/Toy_Tests.thy ===== *)
theory Toy_Tests
  imports Rpc Test_Runs
begin

text \<open>
  The unit tests of the example \<^verbatim>\<open>toy-arbitrage\<close>: decoders, ABI, pools, RLP and the RPC helpers. The
  hash function is a parameter of the tests that use it, and these pass for every hash function.
  The tests of \<^verbatim>\<open>k256\<close> and \<^verbatim>\<open>ruint\<close> themselves, and of a published Keccak value, are left out.
\<close>

section \<open>The tests of the decoders\<close>

definition toy_confirmed_receipt :: TxReceipt where
  "toy_confirmed_receipt =
     \<lparr>rc_tx_hash = 0, rc_block_number = 1, rc_status = TxConfirmed, rc_gas_used = 200000,
      rc_effective_gas_price = 20000000000\<rparr>"

text \<open>32 zero bytes, the last 16 of them overwritten.\<close>

definition low_word :: "u128 \<Rightarrow> bytes" where
  "low_word v = take 16 (replicate 32 0) @ to_be_bytes v"

definition toy_profit_log :: "keccak \<Rightarrow> u128 \<Rightarrow> Log" where
  "toy_profit_log keccak256 amount =
     \<lparr>log_address = replicate 20 0xEE, log_topics = [event_topic0 keccak256 PROFIT_EVENT_SIGNATURE],
      log_data = low_word amount\<rparr>"

definition decode_predicted_reads_the_single_return_word :: test where
  "decode_predicted_reads_the_single_return_word =
     (let raw = \<lparr>so_return_data = low_word 5000, so_gas_used = 150000, so_revert_reason = None, so_logs = []\<rparr>
      in assert_that (toy_decode_predicted raw = Inr (PredictedProfit 5000)))"

definition decode_predicted_rejects_a_reverted_simulation :: test where
  "decode_predicted_rejects_a_reverted_simulation =
     (let raw = \<lparr>so_return_data = [], so_gas_used = 21000, so_revert_reason = Some (str ''reverted''), so_logs = []\<rparr>
      in assert_that (toy_decode_predicted raw = Inl DecodeReverted))"

definition decode_realized_nets_gas_cost_from_the_profit_event :: "keccak \<Rightarrow> profile \<Rightarrow> test" where
  "decode_realized_nets_gas_cost_from_the_profit_event keccak256 pf =
     do { (res, _) \<leftarrow> toy_decode_realized keccak256 pf toy_confirmed_receipt
                        [toy_profit_log keccak256 5000000000000000] ();
          realized \<leftarrow> unwrap res;
          assert_that (realized = RealizedProfit 1000000000000000) }"

definition decode_realized_errors_on_missing_profit_event :: "keccak \<Rightarrow> profile \<Rightarrow> test" where
  "decode_realized_errors_on_missing_profit_event keccak256 pf =
     do { (res, _) \<leftarrow> toy_decode_realized keccak256 pf toy_confirmed_receipt [] ();
          assert_that (res = Inl MissingProfitEvent) }"

definition decode_realized_refuses_a_non_confirmed_receipt_defensively :: "keccak \<Rightarrow> profile \<Rightarrow> test" where
  "decode_realized_refuses_a_non_confirmed_receipt_defensively keccak256 pf =
     do { (res, _) \<leftarrow> toy_decode_realized keccak256 pf (toy_confirmed_receipt\<lparr>rc_status := TxReverted\<rparr>)
                        [toy_profit_log keccak256 1000] ();
          assert_that (is_err res) }"

definition drift_injecting_decoder_passes_through_before_the_threshold :: "keccak \<Rightarrow> profile \<Rightarrow> test" where
  "drift_injecting_decoder_passes_through_before_the_threshold keccak256 pf =
     (let decode = drift_decode_realized (toy_decode_realized keccak256 pf);
          logs = [toy_profit_log keccak256 5000000000000000]
      in do { (res0, d) \<leftarrow> decode toy_confirmed_receipt logs (drift_injecting_new () 2 (f64_of_rat (3 / 10)));
              r0 \<leftarrow> unwrap res0;
              assert_that (r0 = RealizedProfit 1000000000000000);
              (res1, d) \<leftarrow> decode toy_confirmed_receipt logs d;
              r1 \<leftarrow> unwrap res1;
              assert_that (r1 = RealizedProfit 1000000000000000) })"

definition drift_injecting_decoder_dampens_after_the_threshold :: "keccak \<Rightarrow> profile \<Rightarrow> test" where
  "drift_injecting_decoder_dampens_after_the_threshold keccak256 pf =
     (let decode = drift_decode_realized (toy_decode_realized keccak256 pf);
          logs = [toy_profit_log keccak256 5000000000000000]
      in do { (res, _) \<leftarrow> decode toy_confirmed_receipt logs (drift_injecting_new () 0 (f64_of_rat (3 / 10)));
              realized \<leftarrow> unwrap res;
              assert_that (realized = RealizedProfit
                (f64_as_i128 (f64_round (f64_mul (f64_of_rat 1000000000000000) (f64_of_rat (3 / 10)))))) })"

definition encode_arb_call_uses_the_documented_executor_selector :: "keccak \<Rightarrow> test" where
  "encode_arb_call_uses_the_documented_executor_selector keccak256 =
     (let selector = function_selector keccak256 EXECUTE_ARB_SIGNATURE;
          data = encode_arb_call selector (from_be_bytes (replicate 20 1)) (from_be_bytes (replicate 20 2)) 1000
      in assert_that (take 4 data = selector))"

section \<open>The tests of the ABI helpers\<close>

definition encode_arb_call_lays_out_selector_then_three_32_byte_words :: test where
  "encode_arb_call_lays_out_selector_then_three_32_byte_words =
     (let data = encode_arb_call [0xAA, 0xBB, 0xCC, 0xDD] (from_be_bytes (replicate 20 0x11))
                   (from_be_bytes (replicate 20 0x22)) 1000
      in do { assert_that (length data = 4 + 32 * 3);
              assert_that (take 4 data = [0xAA, 0xBB, 0xCC, 0xDD]);
              assert_that (get_range (4 + 12) (4 + 32) data = Some (replicate 20 0x11));
              assert_that (get_range (4 + 32 + 12) (4 + 64) data = Some (replicate 20 0x22));
              assert_that (decode_u256_word (drop 4 data) 2 = Some 1000) })"

definition decode_u256_word_round_trips_through_encode_u256 :: test where
  "decode_u256_word_round_trips_through_encode_u256 =
     assert_that (decode_u256_word (encode_u256 123456789) 0 = Some 123456789)"

definition decode_u256_word_returns_none_past_the_end_of_data :: test where
  "decode_u256_word_returns_none_past_the_end_of_data =
     assert_that (decode_u256_word (replicate 16 0) 0 = None)"

section \<open>The tests of the pools\<close>

definition reserves_word :: "u128 \<Rightarrow> u128 \<Rightarrow> bytes" where
  "reserves_word r0 r1 = low_word r0 @ low_word r1"

definition decode_reserves_reads_both_words :: test where
  "decode_reserves_reads_both_words =
     (let raw = \<lparr>so_return_data = reserves_word 1000000 2000000, so_gas_used = 30000,
                 so_revert_reason = None, so_logs = []\<rparr>
      in assert_that (decode_reserves raw = Some \<lparr>reserve0 = 1000000, reserve1 = 2000000\<rparr>))"

fun f64_abs :: "f64 \<Rightarrow> f64" where
  "f64_abs NaN = NaN"
| "f64_abs (Inf s) = Inf False"
| "f64_abs (Fin s q) = Fin False q"

definition price_divergence_is_symmetric_and_relative_to_the_cheaper_pool :: test where
  "price_divergence_is_symmetric_and_relative_to_the_cheaper_pool =
     (let a = \<lparr>reserve0 = 1000, reserve1 = 2000\<rparr>; b = \<lparr>reserve0 = 1000, reserve1 = 2100\<rparr>;
          divergence = price_divergence a b
      in do { assert_that (f64_lt (f64_abs (f64_sub divergence (f64_of_rat (5 / 100)))) (f64_of_rat (1 / 10 ^ 9)));
              assert_that (price_divergence a b = price_divergence b a) })"

definition price_divergence_is_zero_for_identical_pools :: test where
  "price_divergence_is_zero_for_identical_pools =
     (let a = \<lparr>reserve0 = 500, reserve1 = 1000\<rparr>
      in assert_that (price_divergence a a = f64_of_int 0))"

section \<open>Running the tests of the contract interface\<close>

lemma decode_low_word: "decode_u256_word (low_word v) 0 = Some v"
  using from_to_be_bytes [of v]
  by (simp add: low_word_def decode_u256_word_def get_range_def length_to_be_bytes)

lemma decode_low_words:
  "decode_u256_word (low_word v @ low_word w) 0 = Some v" "decode_u256_word (low_word v @ low_word w) (Suc 0) = Some w"
  using from_to_be_bytes [of v] from_to_be_bytes [of w]
  by (simp_all add: low_word_def decode_u256_word_def get_range_def length_to_be_bytes)

lemmas [test_simps] = decode_low_word decode_low_words toy_decode_predicted_def toy_decode_realized_def
  toy_profit_log_def toy_confirmed_receipt_def first_topic_is_def u_mul_def s_sub_def drift_decode_realized_def
  drift_injecting_new_def

lemma decoder_tests_pass:
  "passes decode_predicted_reads_the_single_return_word"
  "passes decode_predicted_rejects_a_reverted_simulation"
  "passes (decode_realized_nets_gas_cost_from_the_profit_event keccak256 pf)"
  "passes (decode_realized_errors_on_missing_profit_event keccak256 pf)"
  "passes (decode_realized_refuses_a_non_confirmed_receipt_defensively keccak256 pf)"
  "passes (drift_injecting_decoder_passes_through_before_the_threshold keccak256 pf)"
  "passes (drift_injecting_decoder_dampens_after_the_threshold keccak256 pf)"
  by (cases pf; simp add: test_simps decode_predicted_reads_the_single_return_word_def
      decode_predicted_rejects_a_reverted_simulation_def decode_realized_nets_gas_cost_from_the_profit_event_def
      decode_realized_errors_on_missing_profit_event_def
      decode_realized_refuses_a_non_confirmed_receipt_defensively_def
      drift_injecting_decoder_passes_through_before_the_threshold_def
      drift_injecting_decoder_dampens_after_the_threshold_def f64_of_int_def)+

lemma arb_call_words:
  "encode_arb_call sel (from_be_bytes (replicate 20 b)) (from_be_bytes (replicate 20 c)) v =
     sel @ replicate 12 0 @ replicate 20 b @ replicate 12 0 @ replicate 20 c @ low_word v"
  by (simp add: encode_arb_call_def encode_address_def encode_u256_def low_word_def to_from_be_bytes)

lemma abi_tests_pass:
  "passes (encode_arb_call_uses_the_documented_executor_selector keccak256)"
  "passes encode_arb_call_lays_out_selector_then_three_32_byte_words"
  "passes decode_u256_word_round_trips_through_encode_u256"
  "passes decode_u256_word_returns_none_past_the_end_of_data"
  subgoal by (simp add: encode_arb_call_uses_the_documented_executor_selector_def arb_call_words
      function_selector_def length_to_be_bytes test_simps)
  subgoal using from_to_be_bytes [of "1000 :: u128"]
    by (simp add: encode_arb_call_lays_out_selector_then_three_32_byte_words_def arb_call_words get_range_def
        decode_u256_word_def low_word_def length_to_be_bytes test_simps del: word_of_nat_eq_iff)
  subgoal using decode_low_word [of 123456789]
    by (simp add: decode_u256_word_round_trips_through_encode_u256_def low_word_def encode_u256_def test_simps)
  subgoal by (simp add: decode_u256_word_returns_none_past_the_end_of_data_def decode_u256_word_def
      get_range_def test_simps)
  done

lemma test_prices:
  "price_token0_in_token1 \<lparr>reserve0 = 1000, reserve1 = 2000\<rparr> = Fin False 2"
  "price_token0_in_token1 \<lparr>reserve0 = 1000, reserve1 = 2100\<rparr> = Fin False (4728779608739021 / 2251799813685248)"
  "price_token0_in_token1 \<lparr>reserve0 = 500, reserve1 = 1000\<rparr> = Fin False 2"
  by code_simp+

lemma test_divergence:
  "f64_lt (f64_abs (f64_sub (f64_div (f64_sub (Fin False (4728779608739021 / 2251799813685248)) (Fin False 2)) (Fin False 2))
     (f64_of_rat (1 / 20)))) (f64_of_rat (1 / 10 ^ 9))"
  "f64_div (f64_sub (Fin False 2) (Fin False 2)) (Fin False 2) = f64_of_int 0"
  by code_simp+

lemma pool_tests_pass:
  "passes decode_reserves_reads_both_words"
  "passes price_divergence_is_symmetric_and_relative_to_the_cheaper_pool"
  "passes price_divergence_is_zero_for_identical_pools"
  using test_divergence
  by (simp_all add: test_simps decode_reserves_reads_both_words_def decode_reserves_def reserves_word_def
      price_divergence_is_symmetric_and_relative_to_the_cheaper_pool_def price_divergence_def test_prices
      price_divergence_is_zero_for_identical_pools_def)

section \<open>The tests of the RLP encoder\<close>

definition encodes_a_single_small_byte_as_itself :: test where
  "encodes_a_single_small_byte_as_itself = assert_that (encode (Bytes [0x01]) = [0x01])"

definition encodes_the_empty_string_as_0x80 :: test where
  "encodes_the_empty_string_as_0x80 = assert_that (encode (Bytes []) = [0x80])"

definition encodes_a_short_string_with_a_length_prefix :: test where
  "encodes_a_short_string_with_a_length_prefix =
     assert_that (encode (Bytes (str ''dog'')) = 0x83 # str ''dog'')"

definition encodes_an_empty_list_as_0xc0 :: test where
  "encodes_an_empty_list_as_0xc0 = assert_that (encode (List []) = [0xc0])"

definition encodes_a_uint_trimming_leading_zero_bytes :: test where
  "encodes_a_uint_trimming_leading_zero_bytes =
     do { assert_that (encode (item_uint 0) = [0x80]);
          assert_that (encode (item_uint 1) = [0x01]);
          assert_that (encode (item_uint 1024) = [0x82, 0x04, 0x00]) }"

definition big_uint_bytes_trims_leading_zeros_from_a_wide_value_like_a_signature_component :: test where
  "big_uint_bytes_trims_leading_zeros_from_a_wide_value_like_a_signature_component =
     (let r = (replicate 32 0xAA)[0 := 0x00]; encoded_r = encode (big_uint_bytes r);
          s = replicate 32 0xBB; encoded_s = encode (big_uint_bytes s)
      in do { assert_that (encoded_r ! 0 = 0x80 + 31);
              assert_that (drop 1 encoded_r = drop 1 r);
              assert_that (encoded_s ! 0 = 0x80 + 32);
              assert_that (drop 1 encoded_s = s) })"

definition encodes_a_list_of_strings_matching_the_classic_test_vector :: test where
  "encodes_a_list_of_strings_matching_the_classic_test_vector =
     (let list = List [Bytes (str ''cat''), Bytes (str ''dog'')]
      in assert_that (encode list = 0xc8 # 0x83 # str ''cat'' @ 0x83 # str ''dog''))"

lemma rlp_tests_pass:
  "passes encodes_a_single_small_byte_as_itself"
  "passes encodes_the_empty_string_as_0x80"
  "passes encodes_a_short_string_with_a_length_prefix"
  "passes encodes_an_empty_list_as_0xc0"
  "passes encodes_a_list_of_strings_matching_the_classic_test_vector"
  by (simp_all add: test_simps encodes_a_single_small_byte_as_itself_def encodes_the_empty_string_as_0x80_def
      encodes_a_short_string_with_a_length_prefix_def encodes_an_empty_list_as_0xc0_def
      encodes_a_list_of_strings_matching_the_classic_test_vector_def encode_bytes_def encode_length_header_def
      encode_list_header_def str_def)

lemma be_of_nat_numeral:
  "be_of_nat (numeral k) x = be_of_nat (pred_numeral k) (x div 256) @ [word_of_nat (x mod 256)]"
  unfolding numeral_eq_Suc [of k] by (rule be_of_nat.simps)

lemma be_of_nat_zero: "be_of_nat n 0 = replicate n 0"
  by (induction n) (simp_all add: replicate_append_same)

lemma replicate_32: "replicate 32 x = x # replicate 31 x"
  using replicate_Suc [of 31 x] by simp

lemma dropWhile_zeros: "dropWhile (\<lambda>b. b = 0) (replicate n 0 @ bs) = dropWhile (\<lambda>b. b = 0) bs"
  by (induction n) simp_all

lemma dropWhile_replicate: "\<not> P x \<Longrightarrow> dropWhile P (replicate n x) = replicate n x"
  by (cases n) simp_all

lemma small_uints: "item_uint 0 = Bytes []" "item_uint 1 = Bytes [1]" "item_uint 1024 = Bytes [4, 0]"
proof -
  have "to_be_bytes (0 :: u128) = replicate 16 0 @ []" "to_be_bytes (1 :: u128) = replicate 15 0 @ [1]"
    "to_be_bytes (1024 :: u128) = replicate 14 0 @ [4, 0]"
    by (simp_all add: to_be_bytes_def be_of_nat_numeral be_of_nat_zero)
  then show "item_uint 0 = Bytes []" "item_uint 1 = Bytes [1]" "item_uint 1024 = Bytes [4, 0]"
    by (simp_all only: item_uint_def big_uint_bytes_def leading_zero_trim_eq dropWhile_zeros) simp_all
qed

lemma rlp_integer_tests_pass:
  "passes encodes_a_uint_trimming_leading_zero_bytes"
  "passes big_uint_bytes_trims_leading_zeros_from_a_wide_value_like_a_signature_component"
  by (simp_all add: test_simps encodes_a_uint_trimming_leading_zero_bytes_def small_uints encode_bytes_def
      encode_length_header_def big_uint_bytes_def leading_zero_trim_eq dropWhile_replicate replicate_32
      big_uint_bytes_trims_leading_zeros_from_a_wide_value_like_a_signature_component_def)

section \<open>The tests of the RPC helpers\<close>

definition hex_helpers_round_trip :: test where
  "hex_helpers_round_trip =
     do { r1 \<leftarrow> hex_to_bytes (str ''0x0a0b'') :: (unit RpcError, bytes) res;
          bs \<leftarrow> unwrap r1;
          assert_that (bs = [0x0a, 0x0b]);
          r2 \<leftarrow> hex_to_u128 (str ''0x1f'') :: (unit RpcError, u128) res;
          v \<leftarrow> unwrap r2;
          assert_that (v = 31);
          r3 \<leftarrow> hex_to_u64 (str ''0x0'') :: (unit RpcError, u64) res;
          n \<leftarrow> unwrap r3;
          assert_that (n = 0);
          assert_that (address_hex (from_be_bytes (replicate 20 0xAB)) =
                       str ''0x'' @ concat (replicate 20 (str ''ab''))) }"

definition hex_to_u256_treats_bare_0x_as_zero :: "u256_parser \<Rightarrow> test" where
  "hex_to_u256_treats_bare_0x_as_zero u256_from_str_radix =
     do { r \<leftarrow> hex_to_u256 u256_from_str_radix (str ''0x'') :: (unit RpcError, U256) res;
          v \<leftarrow> unwrap r;
          assert_that (v = 0) }"

definition canned_receipt :: Value where
  "canned_receipt = JObject
     [(str ''status'', JString (str ''0x1'')),
      (str ''blockNumber'', JString (str ''0x64'')),
      (str ''gasUsed'', JString (str ''0x30d40'')),
      (str ''effectiveGasPrice'', JString (str ''0x4a817c800'')),
      (str ''logs'', JArray [JObject
        [(str ''address'', JString (str ''0x'' @ concat (replicate 40 (str ''a'')))),
         (str ''topics'', JArray [JString (str ''0x'' @ concat (replicate 64 (str ''1'')))]),
         (str ''data'', JString (str ''0x00''))]])]"

text \<open>\<^verbatim>\<open>hex_to_u64(canned[key].as_str().unwrap()).unwrap()\<close>.\<close>

definition canned_number :: "string \<Rightarrow> u64 option" where
  "canned_number key =
     do { v \<leftarrow> json_get (str key) canned_receipt;
          s \<leftarrow> as_str v;
          r \<leftarrow> hex_to_u64 s :: (unit RpcError, u64) res;
          unwrap r }"

definition parse_receipt_response_decodes_a_confirmed_receipt_with_logs :: test where
  "parse_receipt_response_decodes_a_confirmed_receipt_with_logs =
     do { status \<leftarrow> canned_number ''status'';
          assert_that (status = 1);
          block_number \<leftarrow> canned_number ''blockNumber'';
          assert_that (block_number = 100);
          gas_used \<leftarrow> canned_number ''gasUsed'';
          assert_that (gas_used = 200000) }"

lemmas [test_simps] = hex_to_u64_def hex_to_u128_def parse_hex_def from_str_radix16_def strip_0x_def str_def hex_digit_def

lemma ab_address: "address_hex (from_be_bytes (replicate 20 0xAB)) = str ''0x'' @ concat (replicate 20 (str ''ab''))"
proof -
  have "hex_byte 0xAB = str ''ab''" by (simp add: hex_byte_def digit_char_def str_def)
  then show ?thesis by (simp add: address_hex_def hex_encode_eq to_from_be_bytes)
qed

lemma rpc_hex_test_passes: "passes hex_helpers_round_trip"
  using ab_address by (simp add: test_simps hex_helpers_round_trip_def hex_to_bytes_def hex_pair_def str_slice_def is_char_boundary_def is_cont_def)

lemma rpc_bare_test_passes:
  "passes (hex_to_u256_treats_bare_0x_as_zero parser)"
  by (simp add: test_simps hex_to_u256_treats_bare_0x_as_zero_def hex_to_u256_def)

lemma rpc_receipt_test_passes: "passes parse_receipt_response_decodes_a_confirmed_receipt_with_logs"
  by (simp add: test_simps parse_receipt_response_decodes_a_confirmed_receipt_with_logs_def canned_number_def
      canned_receipt_def)

section \<open>The tests of the transaction encoding\<close>

definition windows2 :: "'a list \<Rightarrow> ('a \<times> 'a) list" where
  "windows2 xs = zip xs (tl xs)"

definition signed_tx_rlp_is_canonical_even_when_r_or_s_has_a_leading_zero_byte :: "profile \<Rightarrow> test" where
  "signed_tx_rlp_is_canonical_even_when_r_or_s_has_a_leading_zero_byte pf =
     (let tx = \<lparr>ut_nonce = 0, ut_gas_price = 1, ut_gas_limit = 21000, ut_to = from_be_bytes (replicate 20 0x11),
                ut_value = 0, ut_data = [], ut_chain_id = 1\<rparr>;
          r = from_be_bytes ((replicate 32 0xAA)[0 := 0x00]); s = bytes32 0xBB
      in do { raw \<leftarrow> signed_tx_rlp pf tx r s 0;
              assert_that (\<not> list_ex (\<lambda>w. w = (0xa0, 0x00)) (windows2 raw)) })"

definition signing_hash_and_signed_rlp_are_deterministic_for_the_same_input ::
  "keccak \<Rightarrow> profile \<Rightarrow> test" where
  "signing_hash_and_signed_rlp_are_deterministic_for_the_same_input keccak256 pf =
     (let tx = \<lparr>ut_nonce = 0, ut_gas_price = 20000000000, ut_gas_limit = 100000,
                ut_to = from_be_bytes (replicate 20 0x11), ut_value = 0, ut_data = [1, 2, 3],
                ut_chain_id = 11155111\<rparr>;
          h1 = signing_hash keccak256 tx; h2 = signing_hash keccak256 tx
      in do { assert_that (h1 = h2);
              rlp1 \<leftarrow> signed_tx_rlp pf tx (bytes32 1) (bytes32 2) 0;
              rlp2 \<leftarrow> signed_tx_rlp pf tx (bytes32 1) (bytes32 2) 0;
              assert_that (rlp1 = rlp2);
              rlp_with_other_recovery_id \<leftarrow> signed_tx_rlp pf tx (bytes32 1) (bytes32 2) 1;
              assert_that (rlp1 \<noteq> rlp_with_other_recovery_id) })"

lemma replicate_numeral: "replicate (numeral k) x = x # replicate (pred_numeral k) x"
  by (simp only: numeral_eq_Suc replicate.simps)

lemma to_be_bytes32 [simp]: "to_be_bytes (bytes32 b) = replicate 32 b"
  by (simp add: bytes32_def to_from_be_bytes)

lemma wide_uints:
  "item_uint 21000 = Bytes [0x52, 0x08]" "item_uint 37 = Bytes [37]"
  "item_uint 20000000000 = Bytes [0x04, 0xa8, 0x17, 0xc8, 0x00]" "item_uint 100000 = Bytes [0x01, 0x86, 0xa0]"
  "item_uint 22310257 = Bytes [0x01, 0x54, 0x6d, 0x71]" "item_uint 22310258 = Bytes [0x01, 0x54, 0x6d, 0x72]"
proof -
  have "to_be_bytes (21000 :: u128) = replicate 14 0 @ [0x52, 0x08]"
    "to_be_bytes (37 :: u128) = replicate 15 0 @ [37]"
    "to_be_bytes (20000000000 :: u128) = replicate 11 0 @ [0x04, 0xa8, 0x17, 0xc8, 0x00]"
    "to_be_bytes (100000 :: u128) = replicate 13 0 @ [0x01, 0x86, 0xa0]"
    "to_be_bytes (22310257 :: u128) = replicate 12 0 @ [0x01, 0x54, 0x6d, 0x71]"
    "to_be_bytes (22310258 :: u128) = replicate 12 0 @ [0x01, 0x54, 0x6d, 0x72]"
    by (simp_all add: to_be_bytes_def be_of_nat_numeral be_of_nat_zero)
  then show "item_uint 21000 = Bytes [0x52, 0x08]" "item_uint 37 = Bytes [37]"
  "item_uint 20000000000 = Bytes [0x04, 0xa8, 0x17, 0xc8, 0x00]" "item_uint 100000 = Bytes [0x01, 0x86, 0xa0]"
  "item_uint 22310257 = Bytes [0x01, 0x54, 0x6d, 0x71]" "item_uint 22310258 = Bytes [0x01, 0x54, 0x6d, 0x72]"
    by (simp_all only: item_uint_def big_uint_bytes_def leading_zero_trim_eq dropWhile_zeros) simp_all
qed

lemma header_bytes: "leading_zero_trim (be_of_nat 8 94) = [94]" "leading_zero_trim (be_of_nat 8 108) = [108]"
proof -
  have "be_of_nat 8 94 = replicate 7 0 @ [94]" "be_of_nat 8 108 = replicate 7 0 @ [108]"
    by (simp_all add: be_of_nat_numeral be_of_nat_zero)
  then show "leading_zero_trim (be_of_nat 8 94) = [94]" "leading_zero_trim (be_of_nat 8 108) = [108]"
    by (simp_all only: leading_zero_trim_eq dropWhile_zeros) simp_all
qed

lemma trim_replicate: "b \<noteq> 0 \<Longrightarrow> leading_zero_trim (replicate n b) = replicate n b"
  by (cases n) (simp_all add: leading_zero_trim_eq)

lemma trim_zero_Cons: "leading_zero_trim (0 # bs) = leading_zero_trim bs"
  by (simp add: leading_zero_trim_eq)

lemmas tx_simps = signed_tx_rlp_def eip155_v_def u_mul_def u_add_def small_uints wide_uints item_address_def
  to_from_be_bytes big_uint_bytes_def trim_replicate trim_zero_Cons encode_bytes_def encode_list_header_def
  encode_length_header_def header_bytes Let_def

lemma rpc_canonical_test_passes: "passes (signed_tx_rlp_is_canonical_even_when_r_or_s_has_a_leading_zero_byte pf)"
proof -
  have r: "(replicate 32 (0xAA :: u8))[0 := 0] = 0 # replicate 31 0xAA"
    using replicate_Suc [of 31 "0xAA :: u8"] by simp
  have raw: "signed_tx_rlp pf \<lparr>ut_nonce = 0, ut_gas_price = 1, ut_gas_limit = 21000,
        ut_to = from_be_bytes (replicate 20 0x11), ut_value = 0, ut_data = [], ut_chain_id = 1\<rparr>
        (from_be_bytes (0 # replicate 31 0xAA)) (bytes32 0xBB) 0 =
      Some ([0xf8, 94, 0x80, 1, 0x82, 0x52, 8, 0x94] @ replicate 20 0x11 @ [0x80, 0x80, 37, 0x9f] @
        replicate 31 0xAA @ [0xa0] @ replicate 32 0xBB)"
    by (cases pf; simp add: tx_simps)
  show ?thesis
    unfolding signed_tx_rlp_is_canonical_even_when_r_or_s_has_a_leading_zero_byte_def Let_def r raw
    by (simp add: windows2_def replicate_numeral)
qed

lemma rpc_deterministic_test_passes: "passes (signing_hash_and_signed_rlp_are_deterministic_for_the_same_input keccak256 pf)"
  by (cases pf; simp add: signing_hash_and_signed_rlp_are_deterministic_for_the_same_input_def tx_simps)
end
