(* ===== verification/Benchmark_Tests.thy ===== *)
theory Benchmark_Tests
  imports Benchmark_Order Test_Runs
begin

text \<open>
  The unit tests of \<^verbatim>\<open>driftbrake-benchmark\<close> that do not measure statistics. The logarithm, square
  root and cosine of the platform are parameters, and the tests pass whatever they compute. The
  tests of sample means and of halting rates depend on their values and are left out.
\<close>

section \<open>The tests of the generator\<close>

primrec streams_agree :: "nat \<Rightarrow> Rng \<Rightarrow> Rng \<Rightarrow> test" where
  "streams_agree 0 a b = Some ()"
| "streams_agree (Suc n) a b =
     (let (x, a') = next_u64 a; (y, b') = next_u64 b
      in do { assert_that (x = y); streams_agree n a' b' })"

definition same_seed_produces_the_same_stream :: test where
  "same_seed_produces_the_same_stream = streams_agree 100 (rng_new 42) (rng_new 42)"

primrec sample :: "nat \<Rightarrow> Rng \<Rightarrow> u64 list" where
  "sample 0 rng = []"
| "sample (Suc n) rng = (let (x, rng') = next_u64 rng in x # sample n rng')"

definition different_seeds_produce_different_streams :: test where
  "different_seeds_produce_different_streams = assert_that (sample 20 (rng_new 1) \<noteq> sample 20 (rng_new 2))"

primrec stays_within :: "nat \<Rightarrow> Rng \<Rightarrow> test" where
  "stays_within 0 rng = Some ()"
| "stays_within (Suc n) rng =
     (let (v, rng') = next_f64 rng
      in do { assert_that (f64_le (f64_of_int 0) v \<and> f64_lt v (f64_of_int 1)); stays_within n rng' })"

definition next_f64_stays_within_zero_one :: test where
  "next_f64_stays_within_zero_one = stays_within 10000 (rng_new 7)"

lemma streams_agree_refl: "streams_agree n a a = Some ()"
  by (induction n arbitrary: a) (simp_all add: split_beta Let_def)

lemma stays_within_passes: "stays_within n rng = Some ()"
proof (induction n arbitrary: rng)
  case (Suc n)
  then show ?case using next_f64_grid [of rng] by (cases "next_f64 rng") simp
qed simp

lemma sample_head: "fst (next_u64 a) \<noteq> fst (next_u64 b) \<Longrightarrow> 0 < n \<Longrightarrow> sample n a \<noteq> sample n b"
  by (cases n) (simp_all add: split_beta Let_def)

lemma rng_tests_pass:
  "passes same_seed_produces_the_same_stream"
  "passes different_seeds_produce_different_streams"
  "passes next_f64_stays_within_zero_one"
proof -
  show "passes same_seed_produces_the_same_stream"
    by (simp only: same_seed_produces_the_same_stream_def streams_agree_refl)
  have "fst (next_u64 (rng_new 1)) \<noteq> fst (next_u64 (rng_new 2))"
    by (simp add: next_u64_def rng_new_def Let_def splitmix_inj)
  from sample_head [OF this, of 20] show "passes different_seeds_produce_different_streams"
    by (simp only: different_seeds_produce_different_streams_def assert_that_simps) simp
  show "passes next_f64_stays_within_zero_one"
    by (simp only: next_f64_stays_within_zero_one_def stays_within_passes)
qed

section \<open>The tests of the synthetic sequences\<close>

definition generate_batch_is_reproducible_from_the_same_seed :: "float_math \<Rightarrow> test" where
  "generate_batch_is_reproducible_from_the_same_seed fm =
     (let regime = healthy (f64_of_rat (5 / 100));
          (batch_a, rng_a) = generate_batch fm regime 10 20 1000000 (rng_new 123);
          (batch_b, rng_b) = generate_batch fm regime 10 20 1000000 (rng_new 123)
      in assert_that (list_all (\<lambda>(seq_a, seq_b). seq_a = seq_b) (zip batch_a batch_b)))"

definition all_predicted_profits_are_positive :: "float_math \<Rightarrow> test" where
  "all_predicted_profits_are_positive fm =
     (let regime = drifted (f64_of_rat (2 / 10)) (f64_of_rat (3 / 10));
          (s, rng) = generate_sequence fm regime 1000 1000000 (rng_new 3)
      in assert_that (list_all (\<lambda>(p, r). 0 < sint (predicted_wei p)) s))"

lemma generated_predictions:
  "list_all (\<lambda>(p, r). p = PredictedProfit m) (fst (generate_sequence fm regime n m rng))"
  by (induction n arbitrary: rng) (simp_all add: split_beta Let_def synthetic_pair_def)

lemma synthetic_tests_pass:
  "passes (generate_batch_is_reproducible_from_the_same_seed fm)"
  "passes (all_predicted_profits_are_positive fm)"
proof -
  show "passes (generate_batch_is_reproducible_from_the_same_seed fm)"
    by (auto simp: generate_batch_is_reproducible_from_the_same_seed_def Let_def split_beta list_all_iff set_zip
        simp del: generate_batch.simps)
  show "passes (all_predicted_profits_are_positive fm)"
    using generated_predictions [of 1000000 fm "drifted (f64_of_rat (2 / 10)) (f64_of_rat (3 / 10))" 1000 "rng_new 3"]
    by (auto simp: all_predicted_profits_are_positive_def Let_def list_all_iff split_beta)
qed

section \<open>The test of the sweep\<close>

definition healthy_batch :: "float_math \<Rightarrow> u64 \<Rightarrow> nat \<Rightarrow> nat \<Rightarrow> trade_sequence list" where
  "healthy_batch fm seed count n =
     fst (generate_batch fm (healthy (f64_of_rat (5 / 100))) count n 1000000 (rng_new seed))"

definition drifted_batch :: "float_math \<Rightarrow> u64 \<Rightarrow> nat \<Rightarrow> nat \<Rightarrow> f64 \<Rightarrow> trade_sequence list" where
  "drifted_batch fm seed count n mu_drift =
     fst (generate_batch fm (drifted (f64_of_rat (5 / 100)) mu_drift) count n 1000000 (rng_new seed))"

definition tightening_a_threshold_never_increases_missed_catch_rate :: "float_math \<Rightarrow> profile \<Rightarrow> test" where
  "tightening_a_threshold_never_increases_missed_catch_rate fm pf =
     (let loose = (\<lparr>fg_threshold = f64_of_rat (3 / 10), fg_window = 3\<rparr>,
                   \<lparr>sg_threshold = f64_of_rat (5 / 10), sg_window = 20\<rparr>);
          tight = (\<lparr>fg_threshold = f64_of_rat (6 / 10), fg_window = 3\<rparr>,
                   \<lparr>sg_threshold = f64_of_rat (8 / 10), sg_window = 20\<rparr>)
      in do { results \<leftarrow> sweep pf (healthy_batch fm 8 300 30) (drifted_batch fm 7 300 30 (f64_of_rat (4 / 10))) [loose, tight];
              assert_that (f64_le (sr_missed_catch_rate (results ! 1)) (sr_missed_catch_rate (results ! 0))) })"

lemma length_generate_batch: "length (fst (generate_batch fm regime count n m rng)) = count"
  by (induction count arbitrary: rng) (simp_all add: split_beta Let_def)

lemma sweep_test_passes: "passes (tightening_a_threshold_never_increases_missed_catch_rate fm pf)"
proof -
  let ?h = "healthy_batch fm 8 300 30" and ?d = "drifted_batch fm 7 300 30 (f64_of_rat (4 / 10))"
  have "length ?h = 300" "length ?d = 300"
    by (simp_all only: healthy_batch_def drifted_batch_def length_generate_batch)
  then have "?h \<noteq> []" "length ?h \<le> 2 ^ 53" "?d \<noteq> []" "length ?d \<le> 2 ^ 53" by auto
  from sweep_tighter [OF points_ok this, of pf]
  obtain r r' where "sweep pf (healthy_batch fm 8 300 30) (drifted_batch fm 7 300 30 (f64_of_rat (4 / 10)))
      [loose_point, tight_point] = Some [r, r']" "f64_le (sr_missed_catch_rate r') (sr_missed_catch_rate r)"
    by blast
  then show ?thesis
    by (simp add: tightening_a_threshold_never_increases_missed_catch_rate_def loose_point_def tight_point_def Let_def)
qed

end
