(* ===== verification/Spec2Isabelle.thy ===== *)
theory Spec2Isabelle
  imports Reconcile_Order Restart Rpc_Spec Toy_Program Py_Bindings Gas_Bias Benchmark_Order
    Reconcile_Tests Poller_Tests Journal_Tests Toy_Tests Benchmark_Tests
begin

text \<open>
  A verification library for \<^bold>\<open>driftbrake\<close>, a Rust workspace that compares what a trading program
  predicted a transaction would earn with what it realized, and stops the program when the two
  drift apart. The model follows the sources under \<^verbatim>\<open>src/\<close>; the theorems state what the code
  promises and, where it does not keep a promise, what it does instead.

  \<^bold>\<open>The program and its theories.\<close> A strategy simulates a candidate transaction, submits it, polls for
  its receipt, books the outcome in a history and asks a halt policy whether to go on.

  \<^item> \<^verbatim>\<open>core/\<close> (theory \<open>Core_Types\<close>): the data types, the history \<^verbatim>\<open>ReconcileHistory\<close> with its timeline
    and its two pools, the errors, and the contracts of the traits \<^verbatim>\<open>HaltPolicy\<close>, \<^verbatim>\<open>ProfitDecoder\<close> and
    \<^verbatim>\<open>RealizedProfitDecoder\<close> as locales.
  \<^item> \<^verbatim>\<open>reconcile/\<close> (\<open>Reconcile\<close>, \<open>Reconcile_Spec\<close>, \<open>Reconcile_Order\<close>): the six guards, the policy with its constructors and
    assertions, and \<^verbatim>\<open>evaluate\<close>; \<open>spec_decide\<close> is the specification over unbounded integers, a table
    of guards in order of precedence.
  \<^item> \<^verbatim>\<open>journal/\<close> (\<open>Crc32\<close>, \<open>Journal_Codec\<close>, \<open>Journal\<close>, \<open>Journal_Spec\<close>, \<open>Journal_Crash\<close>): the checksum, the frame format, and
    the operations over a file system of directory entries, inodes, open files with positions and a
    list of injected I/O faults; a frame is written by one \<^verbatim>\<open>write_all\<close> that a fault can cut anywhere.
  \<^item> \<^verbatim>\<open>receipt-poller/\<close> (\<open>Poller\<close>): the configuration and the polling loop over any receipt source, any
    decoder and any clock; \<open>receipt_source\<close> is the contract of a source.
  \<^item> \<^verbatim>\<open>revm-backend/\<close> (\<open>Backend\<close>): what is handed to REVM and made of its results, and the semaphore
    around concurrent simulations as a step relation.
  \<^item> \<^verbatim>\<open>examples/toy-arbitrage/\<close> (\<open>Rlp\<close>, \<open>Hex\<close>, \<open>Toy_Decoder\<close>, \<open>Rpc\<close>, \<open>Rpc_Spec\<close>, \<open>Toy_Main\<close>, \<open>Toy_Main_Spec\<close>,
    \<open>Toy_Demo\<close>, \<open>Toy_Program\<close>):
    RLP, hexadecimal text, ABI and decoders, the JSON-RPC client with the forked database, the receipt
    source and the transaction submitter, and the program with its loop.
  \<^item> \<^verbatim>\<open>benchmark/\<close> (\<open>Benchmark\<close>, \<open>Benchmark_Order\<close>): generator, regimes, sweep, command line and printed table.
  \<^item> \<^verbatim>\<open>driftbrake-py/\<close> (\<open>Py_Bindings\<close>): the Python classes and the batch sweep.
  \<^item> The unit tests inside the crates (\<open>Test_Runs\<close>, \<open>Reconcile_Tests\<close>, \<open>Poller_Tests\<close>, \<open>Journal_Tests\<close>,
    \<open>Toy_Tests\<close>, \<open>Benchmark_Tests\<close>): each test is a run of the model that panics when an assertion fails, and
    is proved to pass, in both build profiles; they hold the definitions against the repository's own
    expectations of the code.
  \<^item> \<open>DB_Prelude\<close>, \<open>Float64\<close> and \<open>Decimal\<close> are shared: integer types as words, arithmetic in the two build
    profiles, byte strings and UTF-8; binary64 with rounding to nearest, ties to even, on exact
    rationals; and decimal text, the reading of integers and floats and the shortest digits of a float.

  \<^bold>\<open>How code becomes definitions.\<close> Definitions keep the names of the source. A struct is a record (its
  fields carry a prefix, because HOL records share one name space), an enum a datatype, a \<^verbatim>\<open>w\<close>-bit
  integer a word; \<^verbatim>\<open>usize\<close> counts of data in memory are natural numbers. A panic is \<^term>\<open>None\<close>; a
  \<^verbatim>\<open>Result\<close> is a sum with the error on the left. The type \<open>profile\<close> selects between a debug build, where
  integer overflow and \<^verbatim>\<open>debug_assert!\<close> panic, and a release build, where they wrap and are skipped.
  Effects are explicit: the file system \<open>world\<close>, the state of a poll, the \<open>network\<close> with a clock and an
  oracle of replies. Loops that need not end are \<open>partial_function (option)\<close>: there \<^term>\<open>None\<close> means a
  panic or no return, and the theorems that the code returns prove that a value is returned.

  \<^bold>\<open>What the theorems show.\<close>
  \<^item> Whole program: once the policy has halted the example never trades again (C6), a window of bad
    trades is never followed by another trade (C2), settlement and decision come in that order
    (C17), and the demonstration with injected drift halts, from the command line to the exit (C7; theory \<open>Toy_Demo\<close> runs the
    loop on a concrete market).
  \<^item> Policy: \<^verbatim>\<open>evaluate\<close> refines the specification when no sum leaves its type (C1), detects every bad streak (C10), never halts on over-performance (C28), is monotone
    in the outcomes (C9) and in its parameters (C20); C29 is the overflow of the drawdown guard. With the example's decoders,
    whose predictions are gross of gas, gas alone can halt a strategy (theory \<open>Gas_Bias\<close>, C27).
  \<^item> History: both pools are projections of the timeline (C16); ratios are computed
    from counted pairs only (C35).
  \<^item> Journal: on a disk without faults it refines a pair of entry lists under appends, reverts,
    compactions and restarts (C3), and still does when the process dies anywhere, recovery included,
    except that the interrupted operation may or may not have happened (C4); the policy
    decides on the recovered history as if the process had never stopped (C5, theory \<open>Restart\<close>); torn and corrupt tails are cut and nothing else (C11, C31); a record
    reads back (C14); compaction is atomic under any faults (C15); the checksum detects bursts of up to
    32 bits (C19). C38 to C40 are what it does not guarantee.
  \<^item> Poller and network: nothing is booked before settlement (C8), polling returns, unless the decoder panics in a debug build (C13), a receipt and
    a signed transaction are read back as what was sent (C21, C12), the code cache answers with the code
    of its hash (C22).
  \<^item> Simulation: permits bound the running tasks (C18), and tasks that hang hold them, so that a further call waits until one completes (C37).
  \<^item> Encodings, decoders, benchmark, bindings: C23, C24, C25, C26, C30 and C32 to C36.

  \<^bold>\<open>Interfaces.\<close> Each locale is interpreted on the model of the code: \<open>halt_policy\<close> on \<^verbatim>\<open>ReconcilePolicy\<close>
  (\<open>reconcile\<close>; the benchmark's lemmas hold for any policy and reach C24 through it), \<open>torn_log\<close> on the
  frames of the journal (\<open>wal\<close>), \<open>receipt_source\<close> on the RPC client (\<open>rpc_source\<close>), the decoder contracts on
  the example's decoders (\<open>toy_profit\<close>, \<open>toy_realized\<close>, \<open>toy_drift\<close>).

  \<^bold>\<open>Bounds and fuel.\<close> The RLP reference decoder runs with fuel twice the length of its input, which C30
  shows to be enough for every encoding. Trimming of whitespace has the length of the text as fuel, one
  unit for each character removed. The search for the shortest digits of a float tries up to seventeen,
  which always suffice (\<open>shortest_digits_17\<close>). C13 bounds the example's polling with its interval of half a block
  and its timeout of ten blocks. The refinement of \<^verbatim>\<open>evaluate\<close> assumes \<open>arithmetic_bounded\<close>, that the sums
  of magnitudes over the history fit their types; C29 shows that the assumption is needed.

  \<^bold>\<open>Parameters.\<close> Code outside the repository is an argument: \<^verbatim>\<open>keccak256\<close>, the EVM (a simulation engine),
  the parser of \<^verbatim>\<open>ruint\<close>, the signing key of \<^verbatim>\<open>k256\<close>, the clock, the replies of the node and the
  functions \<^verbatim>\<open>ln\<close>, \<^verbatim>\<open>sqrt\<close> and \<^verbatim>\<open>cos\<close>.

  \<^bold>\<open>Not modelled.\<close> Unit tests that measure statistics of the generator, run a precompile of REVM, or
  exercise \<^verbatim>\<open>k256\<close>, \<^verbatim>\<open>ruint\<close> or a published Keccak value, since their outcome is that of the parameters;
  the messages of panics. The crate \<^verbatim>\<open>driftbrake\<close> and the \<^verbatim>\<open>lib.rs\<close> files that only re-export; the progress
  messages of the example on the terminal; the registration of the Python module; the Python package,
  tests, workflows and documentation.
\<close>

section \<open>The composition\<close>

text \<open>A policy that has seen a bad stretch in a loop that always asked it cannot have continued.\<close>

lemma never_overruled_no_streak:
  assumes "never_overruled pf P h" "policy_ok P" "timeline h = es @ fs @ gs"
  shows "\<not> bad_streak P fs"
  using assms(3)
proof (induction fs arbitrary: gs rule: rev_induct)
  case Nil
  then show ?case using assms(2) by (simp add: bad_streak_def policy_ok_def)
next
  case (snoc e fs)
  show ?case
  proof (cases e)
    case (RevertedTx ev)
    then show ?thesis using snoc.IH [of "e # gs"] snoc.prems by (simp add: bad_streak_def)
  next
    case (ConfirmedPair p r)
    have "prefix ((es @ fs) @ [ConfirmedPair p r]) (timeline h)"
      using snoc.prems ConfirmedPair by (simp add: prefix_def)
    then have "run_guards pf P (history_of ((es @ fs) @ [ConfirmedPair p r])) = Some Continue"
      using assms(1) unfolding never_overruled_def by blast
    then have "run_guards pf P (foldl history_push (history_of es) (fs @ [e])) = Some Continue"
      by (simp only: fold_history_push ConfirmedPair append_assoc)
    then show ?thesis using bad_streak_halts [of P "fs @ [e]" "history_of es" pf] by auto
  qed
qed

text \<open>
  C2. The brake works end to end: poller, history, policy and loop together never trade again after
  a bad stretch. At every point where the example is about to trade again, no stretch of its past,
  with any reverts in between, consists of at least a fast-guard window of counted trades that all
  realized less than the fast threshold of what was predicted.
\<close>

theorem no_trade_after_a_bad_streak:
  assumes "toy_reach ts s0 s" "to_history s0 = history_new" "policy_ok (to_policy s0)"
    "timeline (to_history s) = es @ fs @ gs"
  shows "\<not> bad_streak (to_policy s0) fs"
  using reach_never_overruled [OF assms(1,2)] never_overruled_no_streak assms(3,4) by blast

theorem no_trade_after_a_bad_streak_witness:
  "\<exists>s. toy_reach (demo_setup \<lparr>client_url = []\<rparr> 1 (\<lambda>_. 7) Debug) (demo_start (\<lambda>_. 7) (\<lambda>_. 40) (\<lambda>_. 0) 5) s \<and>
     to_history s = history_of (demo_entries 5 5) \<and> \<not> bad_streak dual_guard (demo_entries 5 5)"
proof -
  obtain s where s: "toy_reach (demo_setup \<lparr>client_url = []\<rparr> 1 (\<lambda>_. 7) Debug) (demo_start (\<lambda>_. 7) (\<lambda>_. 40) (\<lambda>_. 0) 5) s"
    "to_history s = history_of (demo_entries 5 5)"
    using demo_reach [of 5 5 "\<lparr>client_url = []\<rparr>" 1 "\<lambda>_. 7" Debug "\<lambda>_. 40" "\<lambda>_. 0"] by (auto simp: demo_inv_def)
  have "\<not> bad_streak dual_guard (demo_entries 5 5)"
    using no_trade_after_a_bad_streak [OF s(1), where es = "[]" and gs = "[]"] s(2) dual_guard_ok
    by (simp add: demo_start_def)
  then show ?thesis using s by blast
qed

end
